(* ===== verification/Prelude.thy ===== *)
theory Prelude
  imports Main "HOL-Library.Word" "HOL-Library.Char_ord" "HOL-Library.List_Lexorder"
begin

text \<open>
  The shared vocabulary of the development: the machine types of the Rust code, the result
  type of fallible functions, the string and byte helpers of the standard library that the
  code uses (decimal and hexadecimal rendering, \<^verbatim>\<open>join\<close>, UTF-8 bytes), and the named
  collections of facts the component theories add to.

  A Rust \<^verbatim>\<open>String\<close> is the list of its UTF-8 bytes, a HOL \<^verbatim>\<open>string\<close>: HOL characters
  are exactly the 256 byte values, and the lexicographic order of
  \<^verbatim>\<open>HOL-Library.List_Lexorder\<close> on them is Rust's byte order on strings.
\<close>

named_theorems record_ops \<open>definitions of the state-changing operations of a component\<close>
named_theorems ledger_simps \<open>what the ledger constructors put in an entry\<close>
named_theorems display_simps \<open>the rendered sentences of refusals and errors\<close>

type_synonym u8 = "8 word"
type_synonym u16 = "16 word"
type_synonym u32 = "32 word"
type_synonym u64 = "64 word"
type_synonym bytes = "8 word list"

text \<open>\<^verbatim>\<open>Result<T, E>\<close> is \<^verbatim>\<open>'e + 'a\<close>: \<^verbatim>\<open>Inl\<close> carries the error.\<close>

definition rbind :: "'e + 'a \<Rightarrow> ('a \<Rightarrow> 'e + 'b) \<Rightarrow> 'e + 'b" where
  "rbind r f = (case r of Inl e \<Rightarrow> Inl e | Inr x \<Rightarrow> f x)"

lemma rbind_simps [simp]: "rbind (Inl e) f = Inl e" "rbind (Inr x) f = f x"
  by (simp_all add: rbind_def)

lemma rbind_Inr_iff: "rbind r f = Inr y \<longleftrightarrow> (\<exists>x. r = Inr x \<and> f x = Inr y)"
  by (cases r) simp_all

definition is_ok :: "'e + 'a \<Rightarrow> bool" where
  "is_ok r = (case r of Inl _ \<Rightarrow> False | Inr _ \<Rightarrow> True)"

lemma is_ok_simps [simp]: "is_ok (Inl e) = False" "is_ok (Inr x) = True"
  by (simp_all add: is_ok_def)

definition map_err :: "('e \<Rightarrow> 'f) \<Rightarrow> 'e + 'a \<Rightarrow> 'f + 'a" where
  "map_err f r = (case r of Inl e \<Rightarrow> Inl (f e) | Inr x \<Rightarrow> Inr x)"

lemma map_err_simps [simp]: "map_err f (Inl e) = Inl (f e)" "map_err f (Inr x) = Inr x"
  by (simp_all add: map_err_def)

lemma map_err_Inr_iff [simp]: "map_err f r = Inr x \<longleftrightarrow> r = Inr x"
  by (cases r) simp_all

lemma map_err_Inl_iff: "map_err f r = Inl e \<longleftrightarrow> (\<exists>e'. r = Inl e' \<and> e = f e')"
  by (cases r) auto

lemma rbind_Inl_iff: "rbind r f = Inl e \<longleftrightarrow> r = Inl e \<or> (\<exists>x. r = Inr x \<and> f x = Inl e)"
  by (cases r) auto

definition ok_or :: "'e \<Rightarrow> 'a option \<Rightarrow> 'e + 'a" where
  "ok_or e x = (case x of None \<Rightarrow> Inl e | Some y \<Rightarrow> Inr y)"

lemma ok_or_simps [simp]: "ok_or e None = Inl e" "ok_or e (Some x) = Inr x"
  by (simp_all add: ok_or_def)

section \<open>Machine integers and time\<close>

text \<open>
  \<^verbatim>\<open>SystemTime\<close> on the Unix targets: a signed count of nanoseconds from the epoch.
  \<^verbatim>\<open>as_secs\<close> of the duration since the epoch drops the fraction.
\<close>

type_synonym system_time = int

definition nanos_per_sec :: int where
  "nanos_per_sec = 1000000000"

definition from_secs :: "int \<Rightarrow> system_time" where
  "from_secs s = s * nanos_per_sec"

definition secs_since_epoch :: "system_time \<Rightarrow> int" where
  "secs_since_epoch t = t div nanos_per_sec"

lemma secs_from_secs [simp]: "secs_since_epoch (from_secs s) = s"
  by (simp add: secs_since_epoch_def from_secs_def nanos_per_sec_def)

lemma from_secs_nonneg [simp]: "0 \<le> from_secs s \<longleftrightarrow> 0 \<le> s" "from_secs s < 0 \<longleftrightarrow> s < 0"
  by (simp_all add: from_secs_def nanos_per_sec_def mult_less_0_iff zero_le_mult_iff)

lemma secs_mono: "s \<le> t \<Longrightarrow> secs_since_epoch s \<le> secs_since_epoch t"
  by (simp add: secs_since_epoch_def nanos_per_sec_def zdiv_mono1)

text \<open>Two's-complement \<^verbatim>\<open>i64\<close> arithmetic, as a release build computes it.\<close>

definition i64_min :: int where "i64_min = - (2 ^ 63)"
definition i64_max :: int where "i64_max = 2 ^ 63 - 1"

text \<open>Division as Rust does it, rounding towards zero (the divisors in the code are positive).\<close>

definition tdiv :: "int \<Rightarrow> int \<Rightarrow> int" where
  "tdiv a b = (if 0 \<le> a then a div b else - ((- a) div b))"

lemma tdiv_nonneg [simp]: "0 \<le> a \<Longrightarrow> tdiv a b = a div b"
  by (simp add: tdiv_def)

definition wrap_i64 :: "int \<Rightarrow> int" where
  "wrap_i64 x = (x + 2 ^ 63) mod 2 ^ 64 - 2 ^ 63"

lemma wrap_i64_id: "i64_min \<le> x \<Longrightarrow> x \<le> i64_max \<Longrightarrow> wrap_i64 x = x"
  by (simp add: wrap_i64_def i64_min_def i64_max_def)

section \<open>Strings and bytes\<close>

lemma word_less_Suc:
  fixes n :: "'a::len word"
  assumes "n \<noteq> - 1"
  shows "n < n + 1"
proof -
  have "unat n \<noteq> unat (- 1 :: 'a word)"
    using assms by (simp only: word_unat_eq_iff [symmetric] not_False_eq_True)
  moreover have "unat (- 1 :: 'a word) = 2 ^ LENGTH('a) - 1"
    by (simp add: unsigned_minus_1_eq_mask mask_eq_exp_minus_1)
  moreover have "unat n < 2 ^ LENGTH('a)" by (rule unsigned_less)
  ultimately have "unat n + 1 < 2 ^ LENGTH('a)" by linarith
  then have "n \<le> n + 1" by (simp only: no_olen_add_nat unat_1)
  then show ?thesis by (simp add: order_less_le)
qed

definition utf8 :: "string \<Rightarrow> bytes" where
  "utf8 s = map of_char s"

lemma utf8_simps [simp]:
  "utf8 [] = []" "utf8 (c # s) = of_char c # utf8 s"
  "utf8 (s @ t) = utf8 s @ utf8 t" "length (utf8 s) = length s"
  by (simp_all add: utf8_def)

lemma of_char_less_256: "(of_char c :: nat) < 256"
proof -
  obtain n where "c = char_of (n :: nat)" by (metis char_of_char)
  then show ?thesis by simp
qed

lemma of_char_u8_inject: "(of_char a :: u8) = of_char b \<longleftrightarrow> a = b"
proof
  assume "(of_char a :: u8) = of_char b"
  then have "unat (of_char a :: u8) = unat (of_char b :: u8)" by simp
  moreover have "unat (of_char c :: u8) = of_char c" for c :: char
  proof -
    have "(of_char c :: u8) = word_of_nat (of_char c)" by (simp add: of_nat_of_char)
    moreover have "(of_char c :: nat) < 256" by (rule of_char_less_256)
    ultimately show ?thesis by (simp add: unat_of_nat)
  qed
  ultimately have "(of_char a :: nat) = of_char b" by simp
  then show "a = b" by simp
qed simp

lemma utf8_inject [simp]: "utf8 s = utf8 t \<longleftrightarrow> s = t"
  unfolding utf8_def by (rule inj_map_eq_map) (simp add: inj_def of_char_u8_inject)

definition is_ascii_digit :: "char \<Rightarrow> bool" where
  "is_ascii_digit c \<longleftrightarrow> CHR ''0'' \<le> c \<and> c \<le> CHR ''9''"

definition digit_val :: "char \<Rightarrow> int" where
  "digit_val c = of_char c - 48"

definition digit_char :: "nat \<Rightarrow> char" where
  "digit_char d = char_of (48 + d)"

lemma digit_char_of:
  assumes "d < 10"
  shows "of_char (digit_char d) = 48 + d"
  using assms by (simp add: digit_char_def)

lemma digit_char_props:
  assumes "d < 10"
  shows "is_ascii_digit (digit_char d)" and "digit_val (digit_char d) = int d"
proof -
  have n: "(of_char (digit_char d) :: nat) = 48 + d"
    using assms by (rule digit_char_of)
  show "is_ascii_digit (digit_char d)"
    unfolding is_ascii_digit_def less_eq_char_def n using assms by simp
  have "(of_char (digit_char d) :: int) = int (of_char (digit_char d))"
    by (simp add: of_nat_of_char)
  then show "digit_val (digit_char d) = int d"
    unfolding digit_val_def n by simp
qed

lemma is_ascii_digit_val: "is_ascii_digit c \<longleftrightarrow> 0 \<le> digit_val c \<and> digit_val c \<le> 9"
proof -
  have "digit_val c = int (of_char c) - 48" by (simp add: digit_val_def of_nat_of_char)
  then show ?thesis by (auto simp: is_ascii_digit_def less_eq_char_def)
qed

text \<open>Decimal rendering, as the \<^verbatim>\<open>Display\<close> of the integer types writes it.\<close>

fun dec_digits :: "nat \<Rightarrow> string" where
  "dec_digits n = (if n < 10 then [digit_char n]
                   else dec_digits (n div 10) @ [digit_char (n mod 10)])"

declare dec_digits.simps [simp del]

text \<open>Zero-padded decimal rendering, \<^verbatim>\<open>{:0w}\<close>: at least \<^verbatim>\<open>w\<close> digits.\<close>

definition pad_dec :: "nat \<Rightarrow> nat \<Rightarrow> string" where
  "pad_dec w n = (let s = dec_digits n in replicate (w - length s) (CHR ''0'') @ s)"

text \<open>The value of a digit string, most significant digit first.\<close>

definition digits_val :: "string \<Rightarrow> int" where
  "digits_val s = foldl (\<lambda>a c. 10 * a + digit_val c) 0 s"

lemma digits_val_snoc [simp]: "digits_val (s @ [c]) = 10 * digits_val s + digit_val c"
  by (simp add: digits_val_def)

lemma digits_val_Nil [simp]: "digits_val [] = 0"
  by (simp add: digits_val_def)

lemma digits_val_zeros: "digits_val (replicate k (CHR ''0'') @ s) = digits_val s"
proof -
  have "foldl (\<lambda>a c. 10 * a + digit_val c) 0 (replicate k (CHR ''0'')) = 0"
    by (induction k) (simp_all add: digit_val_def)
  then show ?thesis by (simp add: digits_val_def)
qed

lemma dec_digits_ne: "dec_digits n \<noteq> []"
  by (subst dec_digits.simps) simp

lemma dec_digits_digit: "list_all is_ascii_digit (dec_digits n)"
proof (induction n rule: dec_digits.induct)
  case (1 n)
  then show ?case
    by (subst dec_digits.simps) (auto simp: digit_char_props)
qed

lemma dec_digits_val: "digits_val (dec_digits n) = int n"
proof (induction n rule: dec_digits.induct)
  case (1 n)
  show ?case
  proof (cases "n < 10")
    case True
    then have "dec_digits n = [] @ [digit_char n]"
      by (subst dec_digits.simps) simp
    then show ?thesis
      using True by (simp only: digits_val_snoc) (simp add: digit_char_props)
  next
    case False
    then have "dec_digits n = dec_digits (n div 10) @ [digit_char (n mod 10)]"
      by (subst dec_digits.simps) simp
    moreover have "10 * int (n div 10) + int (n mod 10) = int n"
      by presburger
    ultimately show ?thesis
      using False 1 by (simp add: digit_char_props)
  qed
qed

lemma length_dec_digits: "0 < k \<Longrightarrow> n < 10 ^ k \<Longrightarrow> length (dec_digits n) \<le> k"
proof (induction n arbitrary: k rule: dec_digits.induct)
  case (1 n)
  show ?case
  proof (cases "n < 10")
    case True
    with \<open>0 < k\<close> show ?thesis by (subst dec_digits.simps) simp
  next
    case False
    then have "k \<noteq> 1" using "1.prems" by auto
    with \<open>0 < k\<close> obtain j where k: "k = Suc j" and j: "0 < j"
      by (cases k) auto
    have "n div 10 < 10 ^ j"
      using "1.prems"(2) k by (simp add: less_mult_imp_div_less mult.commute)
    then have "length (dec_digits (n div 10)) \<le> j"
      using False j "1.IH" by blast
    with False k show ?thesis by (subst dec_digits.simps) simp
  qed
qed

lemma pad_dec_length:
  assumes "0 < w" and "n < 10 ^ w"
  shows "length (pad_dec w n) = w"
  using length_dec_digits [OF assms] by (simp add: pad_dec_def Let_def)

lemma pad_dec_val: "digits_val (pad_dec w n) = int n"
  by (simp add: pad_dec_def Let_def digits_val_zeros dec_digits_val)

lemma pad_dec_digit: "list_all is_ascii_digit (pad_dec w n)"
  by (auto simp: pad_dec_def Let_def dec_digits_digit list_all_length is_ascii_digit_def nth_append
      dec_digits_digit [unfolded list_all_length is_ascii_digit_def, rule_format])

text \<open>
  \<^verbatim>\<open>str::get(a..b)\<close>: the slice, or \<^verbatim>\<open>None\<close> when a bound is past the end or inside
  a multi-byte character; and \<^verbatim>\<open>parse::<i64>()\<close> and its unsigned relatives, which take
  one leading sign (only \<^verbatim>\<open>+\<close> for the unsigned types) and then at least one digit.
\<close>

definition is_char_boundary :: "string \<Rightarrow> nat \<Rightarrow> bool" where
  "is_char_boundary s i \<longleftrightarrow> i = 0 \<or> i = length s \<or>
     (i < length s \<and> \<not> (128 \<le> (of_char (s ! i) :: nat) \<and> (of_char (s ! i) :: nat) < 192))"

definition str_get :: "string \<Rightarrow> nat \<Rightarrow> nat \<Rightarrow> string option" where
  "str_get s a b =
     (if a \<le> b \<and> b \<le> length s \<and> is_char_boundary s a \<and> is_char_boundary s b
      then Some (take (b - a) (drop a s)) else None)"

definition parse_unsigned :: "int \<Rightarrow> string \<Rightarrow> int option" where
  "parse_unsigned bound s =
     (let d = (case s of [] \<Rightarrow> [] | c # r \<Rightarrow> if c = CHR ''+'' then r else s)
      in if d \<noteq> [] \<and> list_all is_ascii_digit d \<and> digits_val d \<le> bound
         then Some (digits_val d) else None)"

definition parse_i64 :: "string \<Rightarrow> int option" where
  "parse_i64 s =
     (let neg = (s \<noteq> [] \<and> hd s = CHR ''-'');
          d = (if s \<noteq> [] \<and> (hd s = CHR ''+'' \<or> hd s = CHR ''-'') then tl s else s);
          v = (if neg then - digits_val d else digits_val d)
      in if d \<noteq> [] \<and> list_all is_ascii_digit d \<and> i64_min \<le> v \<and> v \<le> i64_max
         then Some v else None)"

lemma ascii_digit_code: "is_ascii_digit c \<Longrightarrow> 48 \<le> (of_char c :: nat) \<and> (of_char c :: nat) \<le> 57"
  by (simp add: is_ascii_digit_def less_eq_char_def)

lemma ascii_digit_not_sign:
  "is_ascii_digit c \<Longrightarrow> c \<noteq> CHR ''+'' \<and> c \<noteq> CHR ''-'' \<and> c \<noteq> CHR ''.'' \<and> c \<noteq> CHR '':''"
  by (auto dest: ascii_digit_code)

lemma parse_i64_digits:
  assumes "s \<noteq> []" and "list_all is_ascii_digit s" and "digits_val s \<le> i64_max"
    and "0 \<le> digits_val s"
  shows "parse_i64 s = Some (digits_val s)"
proof -
  have "hd s \<noteq> CHR ''+'' \<and> hd s \<noteq> CHR ''-''"
    using assms(1,2) ascii_digit_not_sign by (cases s) auto
  then show ?thesis using assms by (simp add: parse_i64_def Let_def i64_min_def)
qed

lemma is_char_boundary_ascii:
  assumes "list_all (\<lambda>c. (of_char c :: nat) < 128) s" and "i \<le> length s"
  shows "is_char_boundary s i"
proof (cases "i = length s")
  case False
  with assms have "i < length s" and "(of_char (s ! i) :: nat) < 128"
    by (simp_all add: list_all_length)
  then show ?thesis by (simp add: is_char_boundary_def)
qed (simp add: is_char_boundary_def)

lemma str_get_ascii:
  assumes "list_all (\<lambda>c. (of_char c :: nat) < 128) s" and "a \<le> b" and "b \<le> length s"
  shows "str_get s a b = Some (take (b - a) (drop a s))"
  using assms by (simp add: str_get_def is_char_boundary_ascii)

text \<open>Lowercase hexadecimal rendering of bytes, \<^verbatim>\<open>{byte:02x}\<close> in a loop.\<close>

definition hex_digit :: "nat \<Rightarrow> char" where
  "hex_digit d = (if d < 10 then char_of (48 + d) else char_of (87 + d))"

definition hex_byte :: "u8 \<Rightarrow> string" where
  "hex_byte b = [hex_digit (unat b div 16), hex_digit (unat b mod 16)]"

fun hex_lower :: "bytes \<Rightarrow> string" where
  "hex_lower [] = []"
| "hex_lower (b # bs) = hex_byte b @ hex_lower bs"

lemma hex_digit_inject:
  assumes "a < 16" and "b < 16" and "hex_digit a = hex_digit b"
  shows "a = b"
proof -
  have n: "(of_char (hex_digit d) :: nat) = (if d < 10 then 48 + d else 87 + d)" if "d < 16" for d
    using that by (simp add: hex_digit_def)
  have "(of_char (hex_digit a) :: nat) = of_char (hex_digit b)"
    using assms(3) by simp
  then show ?thesis
    using assms(1,2) by (auto simp: n split: if_splits)
qed

lemma unat_u8_bound: "unat (b :: u8) < 256"
  by (rule less_le_trans [OF unsigned_less]) simp

lemma hex_byte_inject: "hex_byte a = hex_byte b \<longleftrightarrow> a = b"
proof
  assume eq: "hex_byte a = hex_byte b"
  have "unat a div 16 = unat b div 16" and "unat a mod 16 = unat b mod 16"
    using eq hex_digit_inject unat_u8_bound [of a] unat_u8_bound [of b]
    by (auto simp: hex_byte_def)
  then have "unat a = unat b" by (metis div_mult_mod_eq)
  then show "a = b" by (simp add: word_unat_eq_iff)
qed simp

lemma length_hex_lower [simp]: "length (hex_lower bs) = 2 * length bs"
  by (induction bs) (simp_all add: hex_byte_def)

lemma hex_lower_inject: "hex_lower as = hex_lower bs \<Longrightarrow> as = bs"
proof (induction as arbitrary: bs)
  case Nil
  then show ?case by (cases bs) (simp_all add: hex_byte_def)
next
  case (Cons a as)
  then obtain b bs' where bs: "bs = b # bs'" by (cases bs) (auto simp: hex_byte_def)
  with Cons.prems have "hex_byte a = hex_byte b" and "hex_lower as = hex_lower bs'"
    by (auto simp: hex_byte_def)
  with Cons.IH bs show ?case by (simp add: hex_byte_inject)
qed

section \<open>Snapshots\<close>

text \<open>
  The contract of a component that is written to disk and read back: restoring what was
  exported under the same identity gives the state back. Each persistent component interprets
  it on its own pair of functions.
\<close>

locale snapshot =
  fixes export :: "'s \<Rightarrow> 'img"
    and restore :: "'img \<Rightarrow> 'e + 's"
    and valid :: "'s \<Rightarrow> bool"
  assumes restore_export: "valid s \<Longrightarrow> restore (export s) = Inr s"
begin

lemma export_injective: "valid s \<Longrightarrow> valid t \<Longrightarrow> export s = export t \<Longrightarrow> s = t"
  using restore_export by (metis sum.inject(2))

lemma restore_stable: "valid s \<Longrightarrow> restore (export s) = Inr t \<Longrightarrow> export t = export s"
  using restore_export by force

end

end
