(* ===== verification/BTree.thy ===== *)
theory BTree
  imports Prelude
begin

text \<open>
  Rust's \<^verbatim>\<open>BTreeMap\<close> and \<^verbatim>\<open>BTreeSet\<close>. The type is the strictly sorted association
  lists, so that iteration order is key order by construction, as it is in Rust; lookup,
  insertion, removal and collection from an iterator are the operations the code calls.
  The locale \<^verbatim>\<open>ordered_map\<close> is the contract the client components rely on; it is
  interpreted on the operations below.
\<close>

section \<open>Sorted association lists\<close>

fun ins_entry :: "'k::linorder \<Rightarrow> 'v \<Rightarrow> ('k \<times> 'v) list \<Rightarrow> ('k \<times> 'v) list" where
  "ins_entry k v [] = [(k, v)]"
| "ins_entry k v ((k', v') # xs) =
     (if k < k' then (k, v) # (k', v') # xs
      else if k = k' then (k, v) # xs
      else (k', v') # ins_entry k v xs)"

definition keys_sorted :: "('k::linorder \<times> 'v) list \<Rightarrow> bool" where
  "keys_sorted xs = sorted_wrt (<) (map fst xs)"

lemma keys_sorted_simps [simp]:
  "keys_sorted []"
  "keys_sorted ((k, v) # xs) \<longleftrightarrow> (\<forall>k' \<in> fst ` set xs. k < k') \<and> keys_sorted xs"
  by (auto simp: keys_sorted_def)

lemma fst_set_ins_entry: "fst ` set (ins_entry k v xs) = insert k (fst ` set xs)"
  by (induction k v xs rule: ins_entry.induct) auto

lemma keys_sorted_ins_entry: "keys_sorted xs \<Longrightarrow> keys_sorted (ins_entry k v xs)"
  by (induction k v xs rule: ins_entry.induct) (auto simp: fst_set_ins_entry)

lemma map_of_ins_entry: "map_of (ins_entry k v xs) = (map_of xs)(k \<mapsto> v)"
  by (induction k v xs rule: ins_entry.induct) (auto simp: fun_eq_iff)

lemma keys_sorted_filter: "keys_sorted xs \<Longrightarrow> keys_sorted (filter P xs)"
  by (simp add: keys_sorted_def sorted_wrt_map sorted_wrt_filter)

lemma keys_sorted_distinct: "keys_sorted xs \<Longrightarrow> distinct (map fst xs)"
  by (simp add: keys_sorted_def strict_sorted_iff)

lemma map_of_filter_key: "map_of (filter (\<lambda>p. fst p \<noteq> k) xs) = (map_of xs)(k := None)"
  by (induction xs) (auto simp: fun_eq_iff)

lemma keys_sorted_ext:
  "keys_sorted xs \<Longrightarrow> keys_sorted ys \<Longrightarrow> map_of xs = map_of ys \<Longrightarrow> xs = ys"
proof (induction xs arbitrary: ys)
  case Nil
  then show ?case by (cases ys) (auto simp: fun_eq_iff split: if_splits)
next
  case (Cons x xs)
  obtain k v where x: "x = (k, v)" by (cases x)
  obtain k' v' ys' where ys: "ys = (k', v') # ys'"
    using Cons.prems(3) x
  proof (cases ys)
    case Nil
    with Cons.prems(3) x have "map_of ((k, v) # xs) k = map_of ys k" by metis
    with Nil show ?thesis by simp
  next
    case (Cons y zs)
    then show ?thesis using that by (cases y) simp
  qed
  have none: "map_of zs k = None" if "\<forall>j \<in> fst ` set zs. k < j" for zs :: "('a \<times> 'b) list"
    using that by (auto simp: map_of_eq_None_iff)
  have none': "map_of zs k' = None" if "\<forall>j \<in> fst ` set zs. k' < j" for zs :: "('a \<times> 'b) list"
    using that by (auto simp: map_of_eq_None_iff)
  have "\<not> k < k'"
  proof
    assume "k < k'"
    then have "map_of ys k = None"
      using Cons.prems(2) ys by (auto simp: map_of_eq_None_iff dest: less_trans)
    with Cons.prems(3) x show False by (metis map_of_Cons_code(2) option.distinct(1))
  qed
  moreover have "\<not> k' < k"
  proof
    assume "k' < k"
    then have "map_of (x # xs) k' = None"
      using Cons.prems(1) x by (auto simp: map_of_eq_None_iff dest: less_trans)
    with Cons.prems(3) ys show False by (metis map_of_Cons_code(2) option.distinct(1))
  qed
  ultimately have k: "k = k'" by simp
  with Cons.prems(3) x ys have v: "v = v'" by (metis map_of_Cons_code(2) option.inject)
  have "map_of xs = map_of ys'"
  proof
    fix j
    show "map_of xs j = map_of ys' j"
      using fun_cong [OF Cons.prems(3), of j] Cons.prems(1,2) none none' k x ys
      by (cases "j = k") (auto split: if_splits)
  qed
  with Cons.IH [of ys'] Cons.prems(1,2) x ys k v show ?case by simp
qed

section \<open>The type\<close>

typedef (overloaded) ('k::linorder, 'v) btree = "{xs :: ('k \<times> 'v) list. keys_sorted xs}"
  morphisms bt_entries Abs_btree
proof
  show "[] \<in> {xs :: ('k \<times> 'v) list. keys_sorted xs}" by simp
qed

setup_lifting type_definition_btree

lemma bt_entries_sorted [simp]: "keys_sorted (bt_entries m)"
  using bt_entries [of m] by simp

lift_definition bt_empty :: "('k::linorder, 'v) btree" is "[]" by simp
lift_definition bt_get :: "('k::linorder, 'v) btree \<Rightarrow> 'k \<Rightarrow> 'v option" is map_of .
lift_definition bt_insert :: "'k::linorder \<Rightarrow> 'v \<Rightarrow> ('k, 'v) btree \<Rightarrow> ('k, 'v) btree"
  is ins_entry by (rule keys_sorted_ins_entry)
lift_definition bt_remove :: "'k::linorder \<Rightarrow> ('k, 'v) btree \<Rightarrow> ('k, 'v) btree"
  is "\<lambda>k. filter (\<lambda>p. fst p \<noteq> k)" by (rule keys_sorted_filter)

definition bt_contains :: "('k::linorder, 'v) btree \<Rightarrow> 'k \<Rightarrow> bool" where
  "bt_contains m k \<longleftrightarrow> bt_get m k \<noteq> None"

definition bt_keys :: "('k::linorder, 'v) btree \<Rightarrow> 'k list" where
  "bt_keys m = map fst (bt_entries m)"

definition bt_values :: "('k::linorder, 'v) btree \<Rightarrow> 'v list" where
  "bt_values m = map snd (bt_entries m)"

text \<open>\<^verbatim>\<open>collect::<BTreeMap<_, _>>()\<close>: a later pair replaces an earlier one.\<close>

definition bt_of_list :: "('k::linorder \<times> 'v) list \<Rightarrow> ('k, 'v) btree" where
  "bt_of_list xs = foldl (\<lambda>m (k, v). bt_insert k v m) bt_empty xs"

lemma bt_entries_empty [simp]: "bt_entries bt_empty = []"
  by (rule bt_empty.rep_eq)

lemma bt_entries_insert [simp]: "bt_entries (bt_insert k v m) = ins_entry k v (bt_entries m)"
  by (rule bt_insert.rep_eq)

lemma bt_entries_remove [simp]:
  "bt_entries (bt_remove k m) = filter (\<lambda>p. fst p \<noteq> k) (bt_entries m)"
  by (rule bt_remove.rep_eq)

lemma bt_get_entries: "bt_get m k = map_of (bt_entries m) k"
  by (simp add: bt_get.rep_eq)

lemma bt_get_empty [simp]: "bt_get bt_empty k = None"
  by (simp add: bt_get_entries)

lemma bt_get_insert [simp]: "bt_get (bt_insert k v m) j = (if j = k then Some v else bt_get m j)"
  by (simp add: bt_get_entries map_of_ins_entry)

lemma bt_get_remove [simp]: "bt_get (bt_remove k m) j = (if j = k then None else bt_get m j)"
  by (simp add: bt_get_entries map_of_filter_key)

lemma bt_ext: "(\<And>k. bt_get m k = bt_get n k) \<Longrightarrow> m = n"
proof -
  assume "\<And>k. bt_get m k = bt_get n k"
  then have "map_of (bt_entries m) = map_of (bt_entries n)"
    by (auto simp: bt_get_entries)
  then have "bt_entries m = bt_entries n" by (intro keys_sorted_ext) simp_all
  then show "m = n" by (simp add: bt_entries_inject)
qed

lemma bt_contains_simps [simp]:
  "\<not> bt_contains bt_empty j"
  "bt_contains (bt_insert k v m) j \<longleftrightarrow> j = k \<or> bt_contains m j"
  "bt_contains (bt_remove k m) j \<longleftrightarrow> j \<noteq> k \<and> bt_contains m j"
  by (auto simp: bt_contains_def)

lemma bt_contains_Some: "bt_get m k = Some v \<Longrightarrow> bt_contains m k"
  by (simp add: bt_contains_def)

section \<open>The contract\<close>

locale ordered_map =
  fixes empty :: "'m"
    and get :: "'m \<Rightarrow> 'k::linorder \<Rightarrow> 'v option"
    and insert :: "'k \<Rightarrow> 'v \<Rightarrow> 'm \<Rightarrow> 'm"
    and remove :: "'k \<Rightarrow> 'm \<Rightarrow> 'm"
    and entries :: "'m \<Rightarrow> ('k \<times> 'v) list"
  assumes get_empty: "get empty k = None"
    and get_insert: "get (insert k v m) j = (if j = k then Some v else get m j)"
    and get_remove: "get (remove k m) j = (if j = k then None else get m j)"
    and entries_sorted: "keys_sorted (entries m)"
    and entries_get: "map_of (entries m) k = get m k"
    and get_ext: "(\<And>k. get m k = get n k) \<Longrightarrow> m = n"
begin

lemma entries_iff: "(k, v) \<in> set (entries m) \<longleftrightarrow> get m k = Some v"
proof -
  have "distinct (map fst (entries m))" by (rule keys_sorted_distinct [OF entries_sorted])
  then show ?thesis
    using entries_get by (metis map_of_eq_Some_iff)
qed

lemma get_collect_into:
  "get (foldl (\<lambda>m (k, v). insert k v m) m xs) k =
     (case map_of (rev xs) k of None \<Rightarrow> get m k | Some v \<Rightarrow> Some v)"
proof (induction xs rule: rev_induct)
  case Nil
  then show ?case by simp
next
  case (snoc x xs)
  then show ?case by (cases x) (simp add: get_insert)
qed

lemma get_collect: "get (foldl (\<lambda>m (k, v). insert k v m) empty xs) k = map_of (rev xs) k"
  by (simp add: get_collect_into get_empty split: option.split)

lemma collect_entries: "foldl (\<lambda>m (k, v). insert k v m) empty (entries m) = m"
proof (rule get_ext)
  fix k
  have d: "distinct (map fst (entries m))" by (rule keys_sorted_distinct [OF entries_sorted])
  then have "map_of (rev (entries m)) = map_of (entries m)"
    by (intro map_of_eqI) (auto simp: map_of_eq_Some_iff rev_map [symmetric])
  then show "get (foldl (\<lambda>m (k, v). insert k v m) empty (entries m)) k = get m k"
    by (simp add: get_collect entries_get)
qed

lemma insert_twice: "insert k v (insert k w m) = insert k v m"
  by (rule get_ext) (simp add: get_insert)

lemma remove_absent: "get m k = None \<Longrightarrow> remove k m = m"
  by (rule get_ext) (simp add: get_remove)

end

interpretation bt: ordered_map bt_empty bt_get bt_insert bt_remove bt_entries
  by unfold_locales (auto simp: bt_get_entries [symmetric] intro: bt_ext)

section \<open>Rebuilding and counting\<close>

lemma bt_of_list_get: "bt_get (bt_of_list xs) k = map_of (rev xs) k"
  unfolding bt_of_list_def by (rule bt.get_collect)

lemma bt_of_list_entries [simp]: "bt_of_list (bt_entries m) = m"
  unfolding bt_of_list_def by (rule bt.collect_entries)

lemma bt_rebuild:
  assumes "\<And>k v. bt_get m k = Some v \<Longrightarrow> f v = k"
  shows "bt_of_list (map (\<lambda>v. (f v, v)) (bt_values m)) = m"
proof -
  have "map (\<lambda>v. (f v, v)) (bt_values m) = bt_entries m"
    unfolding bt_values_def map_map by (rule map_idI) (use assms in \<open>auto simp: bt.entries_iff\<close>)
  then show ?thesis by simp
qed

lemma bt_rebuild_keys: "bt_of_list (map (\<lambda>k. (k, ())) (bt_keys m)) = m"
proof -
  have "map (\<lambda>k. (k, ())) (bt_keys m) = bt_entries m"
    unfolding bt_keys_def map_map by (rule map_idI) auto
  then show ?thesis by simp
qed

lemma set_bt_keys: "set (bt_keys m) = {k. bt_contains m k}"
  by (force simp: bt_keys_def bt_contains_def not_None_eq bt.entries_iff [symmetric])

lemma set_bt_values: "set (bt_values m) = {v. \<exists>k. bt_get m k = Some v}"
  by (force simp: bt_values_def bt.entries_iff [symmetric])

lemma finite_bt_keys: "finite {k. bt_contains m k}"
  unfolding set_bt_keys [symmetric] by simp

lemma count_bt_values:
  "length (filter P (bt_values m)) = card {k. \<exists>v. bt_get m k = Some v \<and> P v}"
proof -
  define es where "es = filter (P \<circ> snd) (bt_entries m)"
  have "distinct (map fst (bt_entries m))" by (rule keys_sorted_distinct) simp
  then have "distinct (map fst es)" by (simp add: es_def distinct_map_filter)
  then have "length es = card (fst ` set es)"
    by (metis distinct_card length_map set_map)
  moreover have "fst ` set es = {k. \<exists>v. bt_get m k = Some v \<and> P v}"
    by (force simp: es_def bt.entries_iff [symmetric])
  ultimately show ?thesis by (simp add: bt_values_def es_def filter_map)
qed

end
