(* ===== verification/Canonical.thy ===== *)
theory Canonical
  imports BTree
begin

text \<open>
  Canonical JSON, \<^verbatim>\<open>core/sund-client/src/canonical.rs\<close>: the encoding every signature is
  computed over. \<^verbatim>\<open>serde_json::Value\<close> is the datatype \<^verbatim>\<open>json\<close>; an object is its
  entries in key order, as the \<^verbatim>\<open>BTreeMap\<close> behind the default \<^verbatim>\<open>Map\<close> iterates them.
  Conversion to a \<^verbatim>\<open>Value\<close> and serialization to bytes are \<^verbatim>\<open>serde_json\<close>'s and stay
  parameters; the float check is modelled in full, with the paths it reports.
\<close>

section \<open>JSON values\<close>

text \<open>\<^verbatim>\<open>Float\<close> holds the IEEE 754 bits of a finite double.\<close>

datatype json_number = PosInt u64 | NegInt int | Float u64

datatype json =
    JNull
  | JBool bool
  | JNumber json_number
  | JString string
  | JArray "json list"
  | JObject "(string \<times> json) list"

definition as_i64 :: "json_number \<Rightarrow> int option" where
  "as_i64 n = (case n of PosInt u \<Rightarrow> if uint u \<le> i64_max then Some (uint u) else None
               | NegInt i \<Rightarrow> Some i | Float _ \<Rightarrow> None)"

definition as_u64 :: "json_number \<Rightarrow> u64 option" where
  "as_u64 n = (case n of PosInt u \<Rightarrow> Some u | NegInt _ \<Rightarrow> None | Float _ \<Rightarrow> None)"

definition json_object :: "(string \<times> json) list \<Rightarrow> json" where
  "json_object fields = JObject (bt_entries (bt_of_list fields))"

definition json_nat :: "nat \<Rightarrow> json" where
  "json_nat n = JNumber (PosInt (of_nat n))"

section \<open>The float check\<close>

datatype canonical_error = NotSerializable string | FloatingPoint string

definition display_canonical_error :: "canonical_error \<Rightarrow> string" where
  "display_canonical_error e = (case e of
     NotSerializable detail \<Rightarrow> ''not serializable as JSON: '' @ detail
   | FloatingPoint path \<Rightarrow> ''floating-point number at `'' @ path @ ''` has no canonical form'')"

fun reject_floats :: "json \<Rightarrow> string \<Rightarrow> canonical_error + unit"
  and reject_items :: "json list \<Rightarrow> nat \<Rightarrow> string \<Rightarrow> canonical_error + unit"
  and reject_fields :: "(string \<times> json) list \<Rightarrow> string \<Rightarrow> canonical_error + unit" where
  "reject_floats (JNumber n) path =
     (if as_i64 n = None \<and> as_u64 n = None
      then Inl (FloatingPoint (if path = [] then ''<root>'' else path)) else Inr ())"
| "reject_floats (JArray items) path = reject_items items 0 path"
| "reject_floats (JObject fields) path = reject_fields fields path"
| "reject_floats JNull path = Inr ()"
| "reject_floats (JBool b) path = Inr ()"
| "reject_floats (JString s) path = Inr ()"
| "reject_items [] index path = Inr ()"
| "reject_items (item # items) index path =
     rbind (reject_floats item (path @ ''['' @ dec_digits index @ '']''))
       (\<lambda>_. reject_items items (Suc index) path)"
| "reject_fields [] path = Inr ()"
| "reject_fields ((key, field) # fields) path =
     rbind (reject_floats field (if path = [] then key else path @ ''.'' @ key))
       (\<lambda>_. reject_fields fields path)"

text \<open>
  \<^verbatim>\<open>to_canonical_json\<close>: the first argument is \<^verbatim>\<open>serde_json::to_vec\<close>, the second
  the result of \<^verbatim>\<open>serde_json::to_value\<close> on the value being encoded.
\<close>

definition to_canonical_json :: "(json \<Rightarrow> string + bytes) \<Rightarrow> string + json \<Rightarrow> canonical_error + bytes"
where
  "to_canonical_json to_vec to_value =
     rbind (map_err NotSerializable to_value) (\<lambda>value.
     rbind (reject_floats value []) (\<lambda>_. map_err NotSerializable (to_vec value)))"

section \<open>What the check decides\<close>

text \<open>A place inside a value, and how the check spells it.\<close>

datatype json_step = Item nat | Field string

fun json_at :: "json \<Rightarrow> json_step list \<Rightarrow> json option" where
  "json_at v [] = Some v"
| "json_at (JArray items) (Item i # p) =
     (if i < length items then json_at (items ! i) p else None)"
| "json_at (JObject fields) (Field k # p) =
     (case map_of fields k of None \<Rightarrow> None | Some v \<Rightarrow> json_at v p)"
| "json_at v (s # p) = None"

fun spell :: "string \<Rightarrow> json_step list \<Rightarrow> string" where
  "spell path [] = path"
| "spell path (Item i # p) = spell (path @ ''['' @ dec_digits i @ '']'') p"
| "spell path (Field k # p) = spell (if path = [] then k else path @ ''.'' @ k) p"

text \<open>Objects as \<^verbatim>\<open>BTreeMap\<close> holds them: strictly increasing keys, all the way down.\<close>

fun json_wf :: "json \<Rightarrow> bool" where
  "json_wf (JArray items) = (\<forall>v \<in> set items. json_wf v)"
| "json_wf (JObject fields) =
     (keys_sorted fields \<and> (\<forall>kv \<in> set fields. json_wf (snd kv)))"
| "json_wf v = True"

fun float_free :: "json \<Rightarrow> bool" where
  "float_free (JNumber n) = (case n of Float _ \<Rightarrow> False | _ \<Rightarrow> True)"
| "float_free (JArray items) = (\<forall>v \<in> set items. float_free v)"
| "float_free (JObject fields) = (\<forall>kv \<in> set fields. float_free (snd kv))"
| "float_free v = True"

lemma not_integer_iff: "as_i64 n = None \<and> as_u64 n = None \<longleftrightarrow> (\<exists>f. n = Float f)"
  by (cases n) (simp_all add: as_i64_def as_u64_def)

lemma reject_floats_ok:
  "reject_floats v path = Inr () \<longleftrightarrow> float_free v"
  "reject_items items index path = Inr () \<longleftrightarrow> (\<forall>v \<in> set items. float_free v)"
  "reject_fields fields path = Inr () \<longleftrightarrow> (\<forall>kv \<in> set fields. float_free (snd kv))"
  by (induction v path and items index path and fields path
      rule: reject_floats_reject_items_reject_fields.induct)
    (simp_all add: not_integer_iff rbind_Inr_iff split: json_number.split)

text \<open>Every refusal names a place that really holds a float.\<close>

definition names_float :: "json \<Rightarrow> json_step list \<Rightarrow> bool" where
  "names_float v p \<longleftrightarrow> (\<exists>f. json_at v p = Some (JNumber (Float f)))"

definition float_error :: "string \<Rightarrow> canonical_error" where
  "float_error path = FloatingPoint (if path = [] then ''<root>'' else path)"

lemma reject_number: "reject_floats (JNumber n) path = Inl e \<longleftrightarrow> (\<exists>f. n = Float f) \<and> e = float_error path"
  by (auto simp: not_integer_iff float_error_def)

lemma keys_sorted_head_lookup:
  assumes "keys_sorted ((k, v) # xs)" and "map_of xs j = Some w"
  shows "map_of ((k, v) # xs) j = Some w"
  using assms by (auto dest!: map_of_SomeD)

lemma reject_floats_names:
  "json_wf v \<Longrightarrow> reject_floats v path = Inl e \<Longrightarrow>
     \<exists>p. names_float v p \<and> e = float_error (spell path p)"
  "\<forall>v \<in> set items. json_wf v \<Longrightarrow> reject_items items index path = Inl e \<Longrightarrow>
     \<exists>i p. i < length items \<and> names_float (items ! i) p \<and>
       e = float_error (spell (path @ ''['' @ dec_digits (index + i) @ '']'') p)"
  "keys_sorted fields \<and> (\<forall>kv \<in> set fields. json_wf (snd kv)) \<Longrightarrow>
     reject_fields fields path = Inl e \<Longrightarrow>
     \<exists>k v p. map_of fields k = Some v \<and> names_float v p \<and>
       e = float_error (spell (if path = [] then k else path @ ''.'' @ k) p)"
proof (induction v path and items index path and fields path
    rule: reject_floats_reject_items_reject_fields.induct)
  case (1 n path)
  then have "(\<exists>f. n = Float f) \<and> e = float_error path" by (simp only: reject_number)
  then show ?case by (intro exI [of _ "[]"]) (auto simp: names_float_def)
next
  case (2 items path)
  then obtain i p where "i < length items" "names_float (items ! i) p"
    "e = float_error (spell (path @ ''['' @ dec_digits (0 + i) @ '']'') p)" by auto
  then show ?case by (intro exI [of _ "Item i # p"]) (auto simp: names_float_def)
next
  case (3 fields path)
  then obtain k v p where "map_of fields k = Some v" "names_float v p"
    "e = float_error (spell (if path = [] then k else path @ ''.'' @ k) p)" by auto
  then show ?case by (intro exI [of _ "Field k # p"]) (auto simp: names_float_def)
next
  case (8 item items index path)
  show ?case
  proof (cases "reject_floats item (path @ ''['' @ dec_digits index @ '']'')")
    case (Inl e')
    with 8 show ?thesis by (intro exI [of _ 0]) auto
  next
    case (Inr u)
    with "8.prems"(2) have "reject_items items (Suc index) path = Inl e" by simp
    then obtain i p where "i < length items" "names_float (items ! i) p"
      "e = float_error (spell (path @ ''['' @ dec_digits (Suc index + i) @ '']'') p)"
      using "8.IH"(2) "8.prems"(1) by auto
    then show ?thesis by (intro exI [of _ "Suc i"] exI [of _ p]) simp
  qed
next
  case (10 key field fields path)
  show ?case
  proof (cases "reject_floats field (if path = [] then key else path @ ''.'' @ key)")
    case (Inl e')
    with 10 show ?thesis by (intro exI [of _ key] exI [of _ field]) auto
  next
    case (Inr u)
    with "10.prems"(2) have "reject_fields fields path = Inl e" by simp
    then obtain k v p where "map_of fields k = Some v" "names_float v p"
      "e = float_error (spell (if path = [] then k else path @ ''.'' @ k) p)"
      using "10.IH"(2) "10.prems"(1) by auto
    then show ?thesis
      using "10.prems"(1) keys_sorted_head_lookup [of key field fields k v]
      by (intro exI [of _ k] exI [of _ v] exI [of _ p]) blast
  qed
qed simp_all

lemma to_canonical_json_Inr:
  "to_canonical_json to_vec to_value = Inr b \<longleftrightarrow>
     (\<exists>v. to_value = Inr v \<and> float_free v \<and> to_vec v = Inr b)"
  by (auto simp: to_canonical_json_def rbind_Inr_iff reject_floats_ok(1))

end
