(* ===== verification/Identity.thy ===== *)
theory Identity
  imports Canonical
begin

text \<open>
  The two key layers: the protocol identity key with its signing domains
  (\<^verbatim>\<open>core/sund-client/src/identity.rs\<close>) and the signed request tuple of the management
  plane (\<^verbatim>\<open>core/sund-client/src/sigauth.rs\<close>). The primitives (Ed25519, base64, SHA-256
  and the JSON writer) are fields of the record \<^verbatim>\<open>crypto\<close>; what the proofs rely on about
  them is the predicate \<^verbatim>\<open>signs_correctly\<close>, the documented laws of those libraries.
\<close>

section \<open>The primitives\<close>

text \<open>
  \<^verbatim>\<open>SigningKey\<close> is its 32-byte seed and \<^verbatim>\<open>VerifyingKey\<close> its 32 compressed bytes;
  \<^verbatim>\<open>cr_vk_ok\<close> says which byte strings \<^verbatim>\<open>VerifyingKey::from_bytes\<close> accepts.
\<close>

record crypto =
  cr_to_vec :: "json \<Rightarrow> string + bytes"
  cr_b64_encode :: "bytes \<Rightarrow> string"
  cr_b64_decode :: "string \<Rightarrow> bytes option"
  cr_vk_ok :: "bytes \<Rightarrow> bool"
  cr_public :: "bytes \<Rightarrow> bytes"
  cr_sign :: "bytes \<Rightarrow> bytes \<Rightarrow> bytes"
  cr_verify :: "bytes \<Rightarrow> bytes \<Rightarrow> bytes \<Rightarrow> bool"
  cr_sha256 :: "bytes \<Rightarrow> bytes"

text \<open>
  What the libraries document: decoding inverts encoding, a signature is 64 bytes, a public
  key is 32 bytes and valid, and a signature verifies under the key that made it.
\<close>

definition signs_correctly :: "crypto \<Rightarrow> bool" where
  "signs_correctly cr \<longleftrightarrow>
     (\<forall>b. cr_b64_decode cr (cr_b64_encode cr b) = Some b) \<and>
     (\<forall>s m. length (cr_sign cr s m) = 64) \<and>
     (\<forall>s. length (cr_public cr s) = 32 \<and> cr_vk_ok cr (cr_public cr s)) \<and>
     (\<forall>s m. cr_verify cr (cr_public cr s) m (cr_sign cr s m))"

lemma signs_correctlyD:
  assumes "signs_correctly cr"
  shows "cr_b64_decode cr (cr_b64_encode cr b) = Some b"
    and "length (cr_sign cr s m) = 64" and "length (cr_public cr s) = 32"
    and "cr_vk_ok cr (cr_public cr s)" and "cr_verify cr (cr_public cr s) m (cr_sign cr s m)"
  using assms by (auto simp: signs_correctly_def)

section \<open>Signing domains\<close>

datatype signature_purpose = PurposeBundle | PurposeVouch | PurposeRemoval

definition purpose_as_str :: "signature_purpose \<Rightarrow> string" where
  "purpose_as_str p = (case p of PurposeBundle \<Rightarrow> ''bundle'' | PurposeVouch \<Rightarrow> ''vouch''
     | PurposeRemoval \<Rightarrow> ''removal'')"

definition domain_version :: string where
  "domain_version = ''v1''"

definition signing_domain :: "signature_purpose \<Rightarrow> bytes" where
  "signing_domain p = utf8 (''family-beacon/'' @ purpose_as_str p @ ''/'' @ domain_version) @ [0]"

definition signing_bytes :: "signature_purpose \<Rightarrow> bytes \<Rightarrow> bytes" where
  "signing_bytes p canonical_payload = signing_domain p @ canonical_payload"

text \<open>
  The terminator is the first zero byte, so the domain is read off a signed message.
\<close>

lemma takeWhile_domain:
  "takeWhile (\<lambda>b. b \<noteq> 0) (signing_bytes p m)
     = utf8 (''family-beacon/'' @ purpose_as_str p @ ''/v1'')"
  by (cases p) (simp_all add: signing_bytes_def signing_domain_def domain_version_def
      purpose_as_str_def)

lemma purpose_as_str_inject: "purpose_as_str p = purpose_as_str q \<longleftrightarrow> p = q"
  by (cases p; cases q) (simp_all add: purpose_as_str_def)

lemma signing_bytes_inject: "signing_bytes p a = signing_bytes q b \<longleftrightarrow> p = q \<and> a = b"
proof
  assume eq: "signing_bytes p a = signing_bytes q b"
  then have "utf8 (''family-beacon/'' @ purpose_as_str p @ ''/v1'')
      = utf8 (''family-beacon/'' @ purpose_as_str q @ ''/v1'')"
    by (metis takeWhile_domain)
  then have "purpose_as_str p = purpose_as_str q" by (simp only: utf8_inject) simp
  with eq show "p = q \<and> a = b" by (simp add: purpose_as_str_inject signing_bytes_def)
qed simp

section \<open>Identity keys\<close>

datatype verify_error = VeCanonical canonical_error | VeMalformed | VeMismatch

definition display_verify_error :: "verify_error \<Rightarrow> string" where
  "display_verify_error e = (case e of VeCanonical c \<Rightarrow> display_canonical_error c
     | VeMalformed \<Rightarrow> ''malformed signature'' | VeMismatch \<Rightarrow> ''signature does not match'')"

record identity_key = ik_signing :: bytes

record identity_public_key = ipk_key :: bytes

definition identity_from_seed :: "bytes \<Rightarrow> identity_key" where
  "identity_from_seed seed = \<lparr>ik_signing = seed\<rparr>"

definition identity_public_key :: "crypto \<Rightarrow> identity_key \<Rightarrow> identity_public_key" where
  "identity_public_key cr k = \<lparr>ipk_key = cr_public cr (ik_signing k)\<rparr>"

definition sign_canonical :: "crypto \<Rightarrow> identity_key \<Rightarrow> signature_purpose \<Rightarrow> bytes \<Rightarrow> string" where
  "sign_canonical cr k p canonical_payload =
     cr_b64_encode cr (cr_sign cr (ik_signing k) (signing_bytes p canonical_payload))"

definition identity_sign ::
  "crypto \<Rightarrow> identity_key \<Rightarrow> signature_purpose \<Rightarrow> string + json \<Rightarrow> canonical_error + string"
where
  "identity_sign cr k p payload =
     rbind (to_canonical_json (cr_to_vec cr) payload) (\<lambda>canonical.
       Inr (sign_canonical cr k p canonical))"

definition public_from_bytes :: "crypto \<Rightarrow> bytes \<Rightarrow> verify_error + identity_public_key" where
  "public_from_bytes cr b = (if cr_vk_ok cr b then Inr \<lparr>ipk_key = b\<rparr> else Inl VeMalformed)"

definition public_from_base64 :: "crypto \<Rightarrow> string \<Rightarrow> verify_error + identity_public_key" where
  "public_from_base64 cr encoded =
     rbind (ok_or VeMalformed (cr_b64_decode cr encoded)) (\<lambda>b.
       if length b = 32 then public_from_bytes cr b else Inl VeMalformed)"

definition public_to_base64 :: "crypto \<Rightarrow> identity_public_key \<Rightarrow> string" where
  "public_to_base64 cr k = cr_b64_encode cr (ipk_key k)"

definition verify_canonical ::
  "crypto \<Rightarrow> identity_public_key \<Rightarrow> signature_purpose \<Rightarrow> bytes \<Rightarrow> string \<Rightarrow> verify_error + unit"
where
  "verify_canonical cr k p canonical_payload signature_b64 =
     rbind (ok_or VeMalformed (cr_b64_decode cr signature_b64)) (\<lambda>raw.
       if length raw = 64
       then (if cr_verify cr (ipk_key k) (signing_bytes p canonical_payload) raw
             then Inr () else Inl VeMismatch)
       else Inl VeMalformed)"

definition identity_verify ::
  "crypto \<Rightarrow> identity_public_key \<Rightarrow> signature_purpose \<Rightarrow> string + json \<Rightarrow> string
     \<Rightarrow> verify_error + unit"
where
  "identity_verify cr k p payload signature_b64 =
     rbind (map_err VeCanonical (to_canonical_json (cr_to_vec cr) payload)) (\<lambda>canonical.
       verify_canonical cr k p canonical signature_b64)"

lemma verify_sign_canonical:
  assumes "signs_correctly cr"
  shows "verify_canonical cr (identity_public_key cr k) p m (sign_canonical cr k p m) = Inr ()"
  using signs_correctlyD [OF assms]
  by (simp add: verify_canonical_def sign_canonical_def identity_public_key_def)

lemma verify_own_signature:
  assumes "signs_correctly cr" and "identity_sign cr k p payload = Inr sig"
  shows "identity_verify cr (identity_public_key cr k) p payload sig = Inr ()"
  using assms verify_sign_canonical [OF assms(1)]
  by (auto simp: identity_sign_def identity_verify_def rbind_Inr_iff)

lemma public_base64_roundtrip:
  assumes "signs_correctly cr"
  shows "public_from_base64 cr (public_to_base64 cr (identity_public_key cr k))
    = Inr (identity_public_key cr k)"
  using signs_correctlyD [OF assms]
  by (simp add: public_from_base64_def public_to_base64_def identity_public_key_def
      public_from_bytes_def)

lemma identity_verify_Inr:
  "identity_verify cr k p payload sig = Inr () \<longleftrightarrow>
     (\<exists>m raw. to_canonical_json (cr_to_vec cr) payload = Inr m \<and> cr_b64_decode cr sig = Some raw
        \<and> length raw = 64 \<and> cr_verify cr (ipk_key k) (signing_bytes p m) raw)"
  by (auto simp: identity_verify_def verify_canonical_def rbind_Inr_iff ok_or_def
      split: option.splits if_splits)

section \<open>Signed requests\<close>

record request_to_sign =
  rq_method :: string
  rq_path :: string
  rq_timestamp :: string
  rq_nonce :: string
  rq_body :: bytes

fun join :: "string \<Rightarrow> string list \<Rightarrow> string" where
  "join sep [] = []"
| "join sep [s] = s"
| "join sep (s # t # r) = s @ sep @ join sep (t # r)"

definition signing_string :: "crypto \<Rightarrow> request_to_sign \<Rightarrow> bytes" where
  "signing_string cr r =
     utf8 (join [CHR 0x0A] [rq_method r, rq_path r, rq_timestamp r, rq_nonce r,
                            hex_lower (cr_sha256 cr (rq_body r))])"

record device_key = dk_signing :: bytes

definition device_from_seed :: "bytes \<Rightarrow> device_key" where
  "device_from_seed seed = \<lparr>dk_signing = seed\<rparr>"

definition device_public_key :: "crypto \<Rightarrow> device_key \<Rightarrow> bytes" where
  "device_public_key cr k = cr_public cr (dk_signing k)"

definition device_sign :: "crypto \<Rightarrow> device_key \<Rightarrow> request_to_sign \<Rightarrow> string" where
  "device_sign cr k r = cr_b64_encode cr (cr_sign cr (dk_signing k) (signing_string cr r))"

definition device_headers ::
  "crypto \<Rightarrow> device_key \<Rightarrow> string \<Rightarrow> request_to_sign \<Rightarrow> (string \<times> string) list"
where
  "device_headers cr k device_id r =
     [(''Sund-Device-Id'', device_id), (''Sund-Timestamp'', rq_timestamp r),
      (''Sund-Nonce'', rq_nonce r), (''Sund-Signature'', device_sign cr k r)]"

definition sigauth_verify :: "crypto \<Rightarrow> bytes \<Rightarrow> request_to_sign \<Rightarrow> string \<Rightarrow> bool" where
  "sigauth_verify cr public_key r signature_b64 =
     (case cr_b64_decode cr signature_b64 of
        None \<Rightarrow> False
      | Some b \<Rightarrow>
          if length b \<noteq> 64 then False
          else if \<not> cr_vk_ok cr public_key then False
          else cr_verify cr public_key (signing_string cr r) b)"

lemma device_signature_verifies:
  assumes "signs_correctly cr"
  shows "sigauth_verify cr (device_public_key cr k) r (device_sign cr k r)"
  using signs_correctlyD [OF assms]
  by (simp add: sigauth_verify_def device_sign_def device_public_key_def)

text \<open>Fields without newlines are separated uniquely.\<close>

definition one_line :: "string \<Rightarrow> bool" where
  "one_line s \<longleftrightarrow> CHR 0x0A \<notin> set s"

lemma split_at_newline:
  assumes "one_line a" and "one_line b" and "a @ CHR 0x0A # x = b @ CHR 0x0A # y"
  shows "a = b \<and> x = y"
proof -
  let ?P = "\<lambda>c. c \<noteq> CHR 0x0A"
  have "takeWhile ?P (s @ CHR 0x0A # z) = s" if "one_line s" for s z
    using that by (induction s) (auto simp: one_line_def)
  then have "a = b" using assms by metis
  with assms(3) show ?thesis by simp
qed

lemma join_inject:
  assumes "list_all one_line xs" and "list_all one_line ys" and "length xs = length ys"
    and "join [CHR 0x0A] (xs @ [u]) = join [CHR 0x0A] (ys @ [v])"
  shows "xs = ys \<and> u = v"
  using assms
proof (induction xs ys rule: list_induct2')
  case (4 x xs y ys)
  have "join [CHR 0x0A] ((z # zs) @ [w]) = z @ CHR 0x0A # join [CHR 0x0A] (zs @ [w])" for z zs w
    by (cases zs) simp_all
  with "4.prems" split_at_newline [of x y] have "x = y"
    and "join [CHR 0x0A] (xs @ [u]) = join [CHR 0x0A] (ys @ [v])" by auto
  with 4 show ?case by simp
qed simp_all

lemma signing_string_inject:
  assumes "list_all one_line [rq_method r, rq_path r, rq_timestamp r, rq_nonce r]"
    and "list_all one_line [rq_method q, rq_path q, rq_timestamp q, rq_nonce q]"
    and "signing_string cr r = signing_string cr q"
  shows "rq_method r = rq_method q \<and> rq_path r = rq_path q \<and> rq_timestamp r = rq_timestamp q
    \<and> rq_nonce r = rq_nonce q \<and> cr_sha256 cr (rq_body r) = cr_sha256 cr (rq_body q)"
proof -
  have "join [CHR 0x0A] ([rq_method r, rq_path r, rq_timestamp r, rq_nonce r]
        @ [hex_lower (cr_sha256 cr (rq_body r))])
      = join [CHR 0x0A] ([rq_method q, rq_path q, rq_timestamp q, rq_nonce q]
        @ [hex_lower (cr_sha256 cr (rq_body q))])"
    using assms(3) unfolding signing_string_def utf8_inject append.simps .
  from join_inject [OF assms(1,2) _ this]
  have "[rq_method r, rq_path r, rq_timestamp r, rq_nonce r]
      = [rq_method q, rq_path q, rq_timestamp q, rq_nonce q]"
    and "hex_lower (cr_sha256 cr (rq_body r)) = hex_lower (cr_sha256 cr (rq_body q))"
    by simp_all
  then show ?thesis by (simp add: hex_lower_inject)
qed

end
