(* ===== verification/Calendar.thy ===== *)
theory Calendar
  imports Prelude "HOL-Library.Monad_Syntax"
begin

text \<open>
  RFC 3339 timestamps both ways, \<^verbatim>\<open>core/sund-client/src/rfc3339.rs\<close>: civil-date
  conversion, the formatter and the lenient parser, with the inversion lemmas and the round
  trip from an instant to text and back.
\<close>

section \<open>Civil dates\<close>

definition days_from_civil :: "int \<Rightarrow> int \<Rightarrow> int \<Rightarrow> int" where
  "days_from_civil year month day =
     (let year = (if month \<le> 2 then year - 1 else year);
          era = tdiv (if 0 \<le> year then year else year - 399) 400;
          year_of_era = year - era * 400;
          day_of_year = tdiv (153 * (if month > 2 then month - 3 else month + 9) + 2) 5 + day - 1;
          day_of_era = year_of_era * 365 + tdiv year_of_era 4 - tdiv year_of_era 100 + day_of_year
      in era * 146097 + day_of_era - 719468)"

definition civil_from_days :: "int \<Rightarrow> int \<times> int \<times> int" where
  "civil_from_days days =
     (let z = days + 719468;
          era = tdiv (if 0 \<le> z then z else z - 146096) 146097;
          day_of_era = z - era * 146097;
          year_of_era = tdiv (day_of_era - tdiv day_of_era 1460 + tdiv day_of_era 36524
                              - tdiv day_of_era 146096) 365;
          year = year_of_era + era * 400;
          day_of_year = day_of_era
            - (365 * year_of_era + tdiv year_of_era 4 - tdiv year_of_era 100);
          mp = tdiv (5 * day_of_year + 2) 153;
          day = day_of_year - tdiv (153 * mp + 2) 5 + 1;
          month = (if mp < 10 then mp + 3 else mp - 9)
      in (if month \<le> 2 then year + 1 else year, month, day))"

text \<open>
  The eras are floor divisions on both signs; inside an era the year and the day of the year
  are pinned down by linear bounds.
\<close>

lemma tdiv_era:
  assumes b: "0 < b" and c: "c = b - 1"
  shows "tdiv (if 0 \<le> z then z else z - c) b = z div b"
proof (cases "0 \<le> z")
  case False
  define q where "q = z div b"
  define r where "r = z mod b"
  have z: "z = b * q + r" and r: "0 \<le> r" "r < b"
    using b by (simp_all add: q_def r_def)
  have "- (z - (b - 1)) = b * (- q) + (b - 1 - r)" using z by (simp add: algebra_simps)
  moreover have "0 \<le> b - 1 - r" "b - 1 - r < b" using r by simp_all
  ultimately have "(- (z - (b - 1))) div b = - q"
    using b by (metis add.commute div_mult_self2 div_pos_pos_trivial add_0 less_irrefl)
  with False b c show ?thesis by (simp add: tdiv_def q_def)
qed simp

lemma div_bounds: "0 < k \<Longrightarrow> k * (d div k) \<le> d \<and> d < k * (d div k) + k" for d k :: int
  by (metis add.commute add_less_cancel_left mult_div_mod_eq pos_mod_bound pos_mod_sign
      le_add_same_cancel1 mod_mult_div_eq)

lemma year_of_era_bounds:
  fixes d :: int
  assumes "0 \<le> d" and "d \<le> 146096"
  defines "n \<equiv> d - d div 1460 + d div 36524 - d div 146096"
  defines "y \<equiv> n div 365"
  defines "doy \<equiv> d - (365 * y + y div 4 - y div 100)"
  shows "0 \<le> n" and "0 \<le> y" and "y \<le> 399" and "0 \<le> doy" and "doy \<le> 365"
proof -
  define a where "a = d div 1460"
  define b where "b = d div 36524"
  define e where "e = d div 146096"
  define f where "f = y div 4"
  define g where "g = y div 100"
  have a: "1460 * a \<le> d" "d < 1460 * a + 1460"
    using div_bounds [of 1460 d] unfolding a_def by simp_all
  have b: "36524 * b \<le> d" "d < 36524 * b + 36524"
    using div_bounds [of 36524 d] unfolding b_def by simp_all
  have e: "146096 * e \<le> d" "d < 146096 * e + 146096"
    using div_bounds [of 146096 d] unfolding e_def by simp_all
  have n: "n = d - a + b - e" by (simp add: n_def a_def b_def e_def)
  have y: "365 * y \<le> n" "n < 365 * y + 365"
    using div_bounds [of 365 n] unfolding y_def by simp_all
  have f: "4 * f \<le> y" "y < 4 * f + 4"
    using div_bounds [of 4 y] unfolding f_def by simp_all
  have g: "100 * g \<le> y" "y < 100 * g + 100"
    using div_bounds [of 100 y] unfolding g_def by simp_all
  have bb: "b = 0 \<or> b = 1 \<or> b = 2 \<or> b = 3 \<or> b = 4" using b assms(1,2) by linarith
  have ee: "e = 0 \<or> e = 1" using e assms(1,2) by linarith
  show n0: "0 \<le> n" using n a b e assms(1) by linarith
  show y0: "0 \<le> y" using n0 unfolding y_def by simp
  show y399: "y \<le> 399" using bb ee n a b e y assms(2) by (elim disjE) linarith+
  have gg: "g = 0 \<or> g = 1 \<or> g = 2 \<or> g = 3" using g y0 y399 by linarith
  have doy: "doy = d - (365 * y + f - g)" by (simp add: doy_def f_def g_def)
  show "0 \<le> doy"
    using bb gg ee a b e n y f g doy assms(1,2) by (elim disjE) linarith+
  show "doy \<le> 365"
    using bb gg ee a b e n y f g doy assms(1,2) by (elim disjE) linarith+
qed

lemma month_bounds:
  fixes doy :: int
  assumes "0 \<le> doy" and "doy \<le> 365"
  defines "mp \<equiv> (5 * doy + 2) div 153"
  defines "dd \<equiv> doy - (153 * mp + 2) div 5 + 1"
  shows "0 \<le> mp" and "mp \<le> 11" and "1 \<le> dd" and "dd \<le> 31" and "mp \<ge> 10 \<longleftrightarrow> doy \<ge> 306"
proof -
  define q where "q = (153 * mp + 2) div 5"
  have mp: "153 * mp \<le> 5 * doy + 2" "5 * doy + 2 < 153 * mp + 153"
    using div_bounds [of 153 "5 * doy + 2"] unfolding mp_def by simp_all
  have q: "5 * q \<le> 153 * mp + 2" "153 * mp + 2 < 5 * q + 5"
    using div_bounds [of 5 "153 * mp + 2"] unfolding q_def by simp_all
  have dd: "dd = doy - q + 1" by (simp add: dd_def q_def)
  show "0 \<le> mp" "mp \<le> 11" using mp assms(1,2) by linarith+
  show "1 \<le> dd" "dd \<le> 31" using mp q dd by linarith+
  show "mp \<ge> 10 \<longleftrightarrow> doy \<ge> 306"
  proof
    assume "mp \<ge> 10"
    with mp show "doy \<ge> 306" by linarith
  next
    assume "doy \<ge> 306"
    with mp show "mp \<ge> 10" by linarith
  qed
qed

text \<open>The pieces of \<^verbatim>\<open>civil_from_days\<close>, with their floor divisions and bounds.\<close>

definition doe_of :: "int \<Rightarrow> int" where
  "doe_of days = (days + 719468) - (days + 719468) div 146097 * 146097"

definition yoe_of :: "int \<Rightarrow> int" where
  "yoe_of days = (let d = doe_of days in (d - d div 1460 + d div 36524 - d div 146096) div 365)"

definition doy_of :: "int \<Rightarrow> int" where
  "doy_of days = doe_of days
     - (365 * yoe_of days + yoe_of days div 4 - yoe_of days div 100)"

lemma doe_of_bounds: "0 \<le> doe_of days" "doe_of days \<le> 146096"
  using div_bounds [of 146097 "days + 719468"] by (simp_all add: doe_of_def)

lemma yoe_doy_bounds:
  "0 \<le> yoe_of days" "yoe_of days \<le> 399" "0 \<le> doy_of days" "doy_of days \<le> 365"
  unfolding doy_of_def yoe_of_def Let_def
  by (rule year_of_era_bounds(2-5) [OF doe_of_bounds])+

lemma civil_from_days_eq:
  "civil_from_days days =
     (let mp = (5 * doy_of days + 2) div 153;
          year = yoe_of days + (days + 719468) div 146097 * 400;
          month = (if mp < 10 then mp + 3 else mp - 9)
      in (if month \<le> 2 then year + 1 else year, month,
          doy_of days - (153 * mp + 2) div 5 + 1))"
proof -
  note d = doe_of_bounds [of days] and y = yoe_doy_bounds [of days]
  have era: "tdiv (if 0 \<le> z then z else z - 146096) 146097 = z div 146097" for z
    by (rule tdiv_era) simp_all
  have n: "0 \<le> doe_of days - doe_of days div 1460 + doe_of days div 36524 - doe_of days div 146096"
    by (rule year_of_era_bounds(1) [OF d])
  have mp: "0 \<le> (5 * doy_of days + 2) div 153" by (rule month_bounds(1) [OF y(3,4)])
  have doe: "days + 719468 - (days + 719468) div 146097 * 146097 = doe_of days"
    by (simp add: doe_of_def)
  have t1: "tdiv (doe_of days) 1460 = doe_of days div 1460"
    "tdiv (doe_of days) 36524 = doe_of days div 36524"
    "tdiv (doe_of days) 146096 = doe_of days div 146096"
    using d by simp_all
  have yoe: "tdiv (doe_of days - doe_of days div 1460 + doe_of days div 36524
      - doe_of days div 146096) 365 = yoe_of days"
    using n by (simp add: yoe_of_def Let_def)
  have t2: "tdiv (yoe_of days) 4 = yoe_of days div 4" "tdiv (yoe_of days) 100 = yoe_of days div 100"
    using y by simp_all
  have doy: "doe_of days - (365 * yoe_of days + yoe_of days div 4 - yoe_of days div 100)
      = doy_of days"
    by (simp add: doy_of_def)
  have t3: "tdiv (5 * doy_of days + 2) 153 = (5 * doy_of days + 2) div 153"
    using y by simp
  have t4: "tdiv (153 * ((5 * doy_of days + 2) div 153) + 2) 5 =
      (153 * ((5 * doy_of days + 2) div 153) + 2) div 5"
    using mp by simp
  show ?thesis
    unfolding civil_from_days_def Let_def era doe t1 yoe t2 doy t3 t4 ..
qed

lemma civil_from_days_bounds:
  assumes "civil_from_days days = (y, m, d)"
  shows "1 \<le> m" "m \<le> 12" "1 \<le> d" "d \<le> 31"
proof -
  define mp where "mp = (5 * doy_of days + 2) div 153"
  note mb = month_bounds [OF yoe_doy_bounds(3,4) [of days], folded mp_def]
  have m: "m = (if mp < 10 then mp + 3 else mp - 9)"
    and d: "d = doy_of days - (153 * mp + 2) div 5 + 1"
    using assms unfolding civil_from_days_eq Let_def mp_def [symmetric] prod.inject by blast+
  show "1 \<le> m" "m \<le> 12" unfolding m using mb(1,2) by (simp_all split: if_split)
  show "1 \<le> d" "d \<le> 31" unfolding d by (fact mb(3) mb(4))+
qed

lemma days_civil_inverse:
  assumes "civil_from_days days = (y, m, d)"
  shows "days_from_civil y m d = days"
proof -
  define mp where "mp = (5 * doy_of days + 2) div 153"
  define era where "era = (days + 719468) div 146097"
  note b = yoe_doy_bounds [of days]
  note mb = month_bounds [OF b(3,4), folded mp_def]
  have m: "m = (if mp < 10 then mp + 3 else mp - 9)"
    and d: "d = doy_of days - (153 * mp + 2) div 5 + 1"
    and y: "y = (if m \<le> 2 then yoe_of days + era * 400 + 1 else yoe_of days + era * 400)"
    using assms unfolding civil_from_days_eq Let_def mp_def [symmetric] era_def [symmetric] prod.inject
    by blast+
  define y' where "y' = yoe_of days + era * 400"
  have y': "(if m \<le> 2 then y - 1 else y) = y'" using y by (simp add: y'_def)
  have mm: "(if m > 2 then m - 3 else m + 9) = mp" using m mb(1,2) by (auto split: if_splits)
  have e: "tdiv (if 0 \<le> y' then y' else y' - 399) 400 = era"
  proof -
    have "y' div 400 = era" unfolding y'_def using b(1,2) by simp
    then show ?thesis using tdiv_era [of 400 399 y'] by simp
  qed
  have yoe: "y' - era * 400 = yoe_of days" by (simp add: y'_def)
  have "days_from_civil y m d = era * 146097 + (yoe_of days * 365 + yoe_of days div 4
      - yoe_of days div 100 + (tdiv (153 * mp + 2) 5 + d - 1)) - 719468"
    using b(1) unfolding days_from_civil_def Let_def y' mm e yoe by simp
  also have "\<dots> = era * 146097 + doe_of days - 719468"
    using mb(1) d by (simp add: doy_of_def)
  also have "\<dots> = days" by (simp add: doe_of_def era_def)
  finally show ?thesis .
qed

lemma civil_year_bounds:
  assumes "civil_from_days days = (y, m, d)" and "0 \<le> days" and "days \<le> 2932896"
  shows "1970 \<le> y" "y \<le> 9999"
proof -
  define mp where "mp = (5 * doy_of days + 2) div 153"
  define era where "era = (days + 719468) div 146097"
  define f where "f = yoe_of days div 4"
  define g where "g = yoe_of days div 100"
  note b = yoe_doy_bounds [of days]
  note mb = month_bounds [OF b(3,4), folded mp_def]
  have f: "4 * f \<le> yoe_of days" "yoe_of days < 4 * f + 4"
    using div_bounds [of 4 "yoe_of days"] unfolding f_def by simp_all
  have g: "100 * g \<le> yoe_of days" "yoe_of days < 100 * g + 100"
    using div_bounds [of 100 "yoe_of days"] unfolding g_def by simp_all
  have m: "m = (if mp < 10 then mp + 3 else mp - 9)"
    and y: "y = (if m \<le> 2 then yoe_of days + era * 400 + 1 else yoe_of days + era * 400)"
    using assms(1) unfolding civil_from_days_eq Let_def mp_def [symmetric] era_def [symmetric] prod.inject
    by blast+
  have days: "days = era * 146097 + doe_of days - 719468" by (simp add: doe_of_def era_def)
  have doe: "doe_of days = 365 * yoe_of days + f - g + doy_of days"
    by (simp add: doy_of_def f_def g_def)
  have era: "4 \<le> era" "era \<le> 24"
    using days doe_of_bounds [of days] assms(2,3) by linarith+
  have m2: "m \<le> 2 \<longleftrightarrow> doy_of days \<ge> 306" using m mb by (auto split: if_splits)
  show "y \<le> 9999"
    using y m2 era days doe f g b assms(3) by (cases "era = 24") (auto split: if_splits)
  show "1970 \<le> y"
    using y m2 era days doe f g b assms(2) by (cases "era = 4") (auto split: if_splits)
qed

section \<open>Formatting\<close>

definition pad_int :: "nat \<Rightarrow> int \<Rightarrow> string" where
  "pad_int w i = (if 0 \<le> i then pad_dec w (nat i) else CHR ''-'' # pad_dec (w - 1) (nat (- i)))"

definition format_epoch_seconds :: "int \<Rightarrow> string" where
  "format_epoch_seconds seconds =
     (let days = seconds div 86400;
          time_of_day = seconds mod 86400;
          (year, month, day) = civil_from_days days;
          hour = tdiv time_of_day 3600;
          minute = tdiv (time_of_day mod 3600) 60;
          second = time_of_day mod 60
      in pad_int 4 year @ ''-'' @ pad_int 2 month @ ''-'' @ pad_int 2 day @ ''T''
         @ pad_int 2 hour @ '':'' @ pad_int 2 minute @ '':'' @ pad_int 2 second @ ''Z'')"

definition format_rfc3339 :: "system_time \<Rightarrow> string" where
  "format_rfc3339 t =
     format_epoch_seconds (if 0 \<le> t then wrap_i64 (secs_since_epoch t) else 0)"

section \<open>Parsing\<close>

text \<open>
  The offset clause of \<^verbatim>\<open>parse\<close>: the text from byte 19 on. The fraction is skipped, then
  either a lone \<^verbatim>\<open>Z\<close> or exactly six characters that start with a sign.
\<close>

definition parse_offset :: "string \<Rightarrow> int option" where
  "parse_offset rest0 =
     do {
       rest \<leftarrow> (case rest0 of [] \<Rightarrow> Some rest0
                | c # after_dot \<Rightarrow>
                    if c = CHR ''.''
                    then str_get after_dot (length (takeWhile is_ascii_digit after_dot))
                           (length after_dot)
                    else Some rest0);
       (case rest of [] \<Rightarrow> None
        | sign # _ \<Rightarrow>
            if (sign = CHR ''Z'' \<or> sign = CHR ''z'') \<and> length rest = 1 then Some 0
            else if (sign = CHR ''+'' \<or> sign = CHR ''-'') \<and> length rest = 6 then
              do {
                hours \<leftarrow> Option.bind (str_get rest 1 3) parse_i64;
                minutes \<leftarrow> Option.bind (str_get rest 4 6) parse_i64;
                let magnitude = hours * 3600 + minutes * 60;
                Some (if sign = CHR ''-'' then - magnitude else magnitude)
              }
            else None)
     }"

definition checked_time :: "int \<Rightarrow> system_time option" where
  "checked_time epoch = (if i64_min \<le> epoch \<and> epoch \<le> i64_max then Some (from_secs epoch) else None)"

definition parse_rfc3339 :: "string \<Rightarrow> system_time option" where
  "parse_rfc3339 text =
     (if length text < 20 then None
      else do {
        year \<leftarrow> Option.bind (str_get text 0 4) parse_i64;
        month \<leftarrow> Option.bind (str_get text 5 7) parse_i64;
        day \<leftarrow> Option.bind (str_get text 8 10) parse_i64;
        hour \<leftarrow> Option.bind (str_get text 11 13) parse_i64;
        minute \<leftarrow> Option.bind (str_get text 14 16) parse_i64;
        second \<leftarrow> Option.bind (str_get text 17 19) parse_i64;
        (if text ! 4 \<noteq> CHR ''-'' \<or> text ! 7 \<noteq> CHR ''-''
            \<or> text ! 10 \<noteq> CHR ''T'' \<and> text ! 10 \<noteq> CHR ''t'' then None
         else if text ! 13 \<noteq> CHR '':'' \<or> text ! 16 \<noteq> CHR '':'' then None
         else if \<not> (1 \<le> month \<and> month \<le> 12) \<or> \<not> (1 \<le> day \<and> day \<le> 31) then None
         else if hour > 23 \<or> minute > 59 \<or> second > 60 then None
         else do {
           rest \<leftarrow> str_get text 19 (length text);
           offset_seconds \<leftarrow> parse_offset rest;
           checked_time (days_from_civil year month day * 86400 + hour * 3600 + minute * 60
                         + second - offset_seconds)
         })
      })"

section \<open>The round trip\<close>

lemma pad_int_2:
  assumes "0 \<le> i" and "i < 100"
  obtains a b where "pad_int 2 i = [a, b]" "is_ascii_digit a" "is_ascii_digit b"
    "parse_i64 [a, b] = Some i"
proof -
  have len: "length (pad_int 2 i) = 2" and val: "digits_val (pad_int 2 i) = i"
    and dig: "list_all is_ascii_digit (pad_int 2 i)"
    using assms pad_dec_length [of 2 "nat i"] by (simp_all add: pad_int_def pad_dec_val pad_dec_digit)
  from len obtain a b where ab: "pad_int 2 i = [a, b]"
    by (auto simp: length_Suc_conv numeral_2_eq_2)
  moreover have "parse_i64 [a, b] = Some i"
    using parse_i64_digits [of "[a, b]"] dig val assms ab by (simp add: i64_max_def)
  ultimately show thesis using that dig by simp
qed

lemma pad_int_4:
  assumes "0 \<le> i" and "i < 10000"
  obtains a b c d where "pad_int 4 i = [a, b, c, d]" "is_ascii_digit a" "is_ascii_digit b"
    "is_ascii_digit c" "is_ascii_digit d" "parse_i64 [a, b, c, d] = Some i"
proof -
  have len: "length (pad_int 4 i) = 4" and val: "digits_val (pad_int 4 i) = i"
    and dig: "list_all is_ascii_digit (pad_int 4 i)"
    using assms pad_dec_length [of 4 "nat i"] by (simp_all add: pad_int_def pad_dec_val pad_dec_digit)
  from len obtain a b c d where ab: "pad_int 4 i = [a, b, c, d]"
    by (auto simp: length_Suc_conv numeral_eq_Suc)
  moreover have "parse_i64 [a, b, c, d] = Some i"
    using parse_i64_digits [of "[a, b, c, d]"] dig val assms ab by (simp add: i64_max_def)
  ultimately show thesis using that dig by simp
qed

lemma digit_lt_128: "is_ascii_digit c \<Longrightarrow> (of_char c :: nat) < 128"
  by (drule ascii_digit_code) simp

lemma parse_civil_text:
  assumes y: "parse_i64 [y1, y2, y3, y4] = Some year"
    and m: "parse_i64 [m1, m2] = Some month" and d: "parse_i64 [d1, d2] = Some day"
    and h: "parse_i64 [h1, h2] = Some hour" and n: "parse_i64 [n1, n2] = Some minute"
    and s: "parse_i64 [s1, s2] = Some second"
    and dig: "list_all is_ascii_digit
      [y1, y2, y3, y4, m1, m2, d1, d2, h1, h2, n1, n2, s1, s2]"
    and rng: "1 \<le> month" "month \<le> 12" "1 \<le> day" "day \<le> 31" "hour \<le> 23" "minute \<le> 59" "second \<le> 60"
    and rest: "rest \<noteq> []" "list_all (\<lambda>c. (of_char c :: nat) < 128) rest"
    and off: "parse_offset rest = Some offset"
  shows "parse_rfc3339 ([y1, y2, y3, y4, CHR ''-'', m1, m2, CHR ''-'', d1, d2, CHR ''T'',
      h1, h2, CHR '':'', n1, n2, CHR '':'', s1, s2] @ rest) =
    checked_time (days_from_civil year month day * 86400 + hour * 3600 + minute * 60 + second
      - offset)"
    (is "parse_rfc3339 ?t = _")
proof -
  have asc: "list_all (\<lambda>c. (of_char c :: nat) < 128) ?t"
    using dig rest(2) by (simp add: digit_lt_128)
  have len: "length ?t = 19 + length rest" by simp
  have len20: "\<not> 19 + length rest < 20" using rest(1) by (cases rest) simp_all
  have get: "str_get ?t a b = Some (take (b - a) (drop a ?t))" if "a \<le> b" "b \<le> 19" for a b
    using that len by (intro str_get_ascii [OF asc]) linarith+
  have last: "str_get ?t 19 (19 + length rest) = Some rest"
    by (subst str_get_ascii [OF asc]) simp_all
  have fields: "str_get ?t 0 4 = Some [y1, y2, y3, y4]" "str_get ?t 5 7 = Some [m1, m2]"
    "str_get ?t 8 10 = Some [d1, d2]" "str_get ?t 11 13 = Some [h1, h2]"
    "str_get ?t 14 16 = Some [n1, n2]" "str_get ?t 17 19 = Some [s1, s2]"
    by (subst get, simp, simp, simp)+
  have seps: "?t ! 4 = CHR ''-''" "?t ! 7 = CHR ''-''" "?t ! 10 = CHR ''T''" "?t ! 13 = CHR '':''"
    "?t ! 16 = CHR '':''"
    by simp_all
  have ok: "\<not> (\<not> (1 \<le> month \<and> month \<le> 12) \<or> \<not> (1 \<le> day \<and> day \<le> 31))"
    "\<not> (hour > 23 \<or> minute > 59 \<or> second > 60)"
    using rng by linarith+
  show ?thesis
    unfolding parse_rfc3339_def len if_not_P [OF len20] fields last seps Option.bind.simps
      y m d h n s off if_not_P [OF ok(1)] if_not_P [OF ok(2)]
    by simp
qed

lemma parse_offset_Z: "parse_offset ''Z'' = Some 0"
  by (simp add: parse_offset_def)

lemma tod_parts:
  fixes tod :: int
  assumes "0 \<le> tod" and "tod < 86400"
  shows "0 \<le> tod div 3600" "tod div 3600 \<le> 23" "0 \<le> tod mod 3600 div 60"
    "tod mod 3600 div 60 \<le> 59" "0 \<le> tod mod 60" "tod mod 60 \<le> 59"
proof -
  define q where "q = tod div 3600"
  define r where "r = tod mod 3600"
  have q: "3600 * q \<le> tod" "tod < 3600 * q + 3600"
    using div_bounds [of 3600 tod] by (simp_all add: q_def)
  have r: "0 \<le> r" "r < 3600" by (simp_all add: r_def)
  show "0 \<le> tod div 3600" "tod div 3600 \<le> 23"
    using q assms unfolding q_def [symmetric] by linarith+
  show "0 \<le> tod mod 3600 div 60" "tod mod 3600 div 60 \<le> 59"
    using r div_bounds [of 60 r] unfolding r_def [symmetric] by linarith+
  show "0 \<le> tod mod 60" by (rule pos_mod_sign) simp
  show "tod mod 60 \<le> 59" using pos_mod_bound [of 60 tod] by linarith
qed

lemma parse_format_seconds:
  assumes "0 \<le> s" and "s < 253402300800"
  shows "parse_rfc3339 (format_epoch_seconds s) = Some (from_secs s)"
proof -
  define tod where "tod = s mod 86400"
  obtain y m d where c: "civil_from_days (s div 86400) = (y, m, d)"
    by (cases "civil_from_days (s div 86400)")
  have days: "0 \<le> s div 86400" "s div 86400 \<le> 2932896"
    using div_bounds [of 86400 s] assms by linarith+
  note mb = civil_from_days_bounds [OF c] and yb = civil_year_bounds [OF c days]
  have tod: "0 \<le> tod" "tod < 86400" by (simp_all add: tod_def)
  have hms: "0 \<le> tod div 3600" "tod div 3600 \<le> 23" "0 \<le> tod mod 3600 div 60"
    "tod mod 3600 div 60 \<le> 59" "0 \<le> tod mod 60" "tod mod 60 \<le> 59"
    by (rule tod_parts [OF tod])+
  obtain y1 y2 y3 y4 where Y: "pad_int 4 y = [y1, y2, y3, y4]" "is_ascii_digit y1"
    "is_ascii_digit y2" "is_ascii_digit y3" "is_ascii_digit y4"
    "parse_i64 [y1, y2, y3, y4] = Some y"
  proof (rule pad_int_4)
    show "0 \<le> y" "y < 10000" using yb by simp_all
  qed
  obtain m1 m2 where M: "pad_int 2 m = [m1, m2]" "is_ascii_digit m1" "is_ascii_digit m2"
    "parse_i64 [m1, m2] = Some m" by (rule pad_int_2 [of m]) (use mb in linarith)+
  obtain d1 d2 where D: "pad_int 2 d = [d1, d2]" "is_ascii_digit d1" "is_ascii_digit d2"
    "parse_i64 [d1, d2] = Some d" by (rule pad_int_2 [of d]) (use mb in linarith)+
  obtain h1 h2 where H: "pad_int 2 (tod div 3600) = [h1, h2]" "is_ascii_digit h1"
    "is_ascii_digit h2" "parse_i64 [h1, h2] = Some (tod div 3600)"
    by (rule pad_int_2 [of "tod div 3600"]) (use hms in linarith)+
  obtain n1 n2 where N: "pad_int 2 (tod mod 3600 div 60) = [n1, n2]" "is_ascii_digit n1"
    "is_ascii_digit n2" "parse_i64 [n1, n2] = Some (tod mod 3600 div 60)"
    by (rule pad_int_2 [of "tod mod 3600 div 60"]) (use hms in linarith)+
  obtain s1 s2 where S: "pad_int 2 (tod mod 60) = [s1, s2]" "is_ascii_digit s1"
    "is_ascii_digit s2" "parse_i64 [s1, s2] = Some (tod mod 60)"
    by (rule pad_int_2 [of "tod mod 60"]) (use hms in linarith)+
  have td: "tdiv tod 3600 = tod div 3600" "tdiv (tod mod 3600) 60 = tod mod 3600 div 60"
    using tod(1) by (simp_all only: tdiv_nonneg pos_mod_sign zero_less_numeral)
  have shape: "format_epoch_seconds s = [y1, y2, y3, y4, CHR ''-'', m1, m2, CHR ''-'', d1, d2,
      CHR ''T'', h1, h2, CHR '':'', n1, n2, CHR '':'', s1, s2] @ ''Z''"
    unfolding format_epoch_seconds_def Let_def tod_def [symmetric] c prod.case td
    by (simp only: Y(1) M(1) D(1) H(1) N(1) S(1) append.simps)
  have "tod mod 3600 mod 60 = tod mod 60" by (rule mod_mod_cancel) simp
  then have "tod div 3600 * 3600 + tod mod 3600 div 60 * 60 + tod mod 60 = tod"
    using div_mult_mod_eq [of tod 3600] div_mult_mod_eq [of "tod mod 3600" 60] by linarith
  then have sum: "days_from_civil y m d * 86400 + tod div 3600 * 3600 + tod mod 3600 div 60 * 60
      + tod mod 60 = s"
    using days_civil_inverse [OF c] div_mult_mod_eq [of s 86400] unfolding tod_def by linarith
  have chk: "checked_time s = Some (from_secs s)"
    using assms by (simp add: checked_time_def i64_min_def i64_max_def)
  have dig: "list_all is_ascii_digit
      [y1, y2, y3, y4, m1, m2, d1, d2, h1, h2, n1, n2, s1, s2]"
    using Y(2-5) M(2,3) D(2,3) H(2,3) N(2,3) S(2,3) by simp
  have le: "tod mod 60 \<le> 60" using hms(6) by linarith
  have z: "''Z'' \<noteq> []" "list_all (\<lambda>c. (of_char c :: nat) < 128) ''Z''" by simp_all
  show ?thesis
    unfolding shape parse_civil_text [OF Y(6) M(4) D(4) H(4) N(4) S(4) dig mb hms(2,4) le z
        parse_offset_Z] diff_0_right sum
    by (rule chk)
qed

text \<open>What a signed or persisted timestamp costs: the fraction of a second, and nothing else.\<close>

lemma parse_format:
  assumes "0 \<le> t" and "secs_since_epoch t < 253402300800"
  shows "parse_rfc3339 (format_rfc3339 t) = Some (from_secs (secs_since_epoch t))"
proof -
  have s: "0 \<le> secs_since_epoch t"
    using assms(1) by (simp add: secs_since_epoch_def nanos_per_sec_def pos_imp_zdiv_nonneg_iff)
  then have "wrap_i64 (secs_since_epoch t) = secs_since_epoch t"
    using assms(2) by (intro wrap_i64_id) (simp_all add: i64_min_def i64_max_def)
  then show ?thesis
    using assms s by (simp add: format_rfc3339_def parse_format_seconds)
qed

end
