(* ===== verification/Wire.thy ===== *)
theory Wire
  imports Canonical Calendar
begin

text \<open>
  The wire vocabulary of \<^verbatim>\<open>core/beacon-protocol\<close>: the envelope with its message types,
  its structural checks and its timestamp shape test (\<^verbatim>\<open>envelope.rs\<close>), and the roster's
  message types with the exact payloads their signatures and digests cover
  (\<^verbatim>\<open>roster.rs\<close>).
\<close>

section \<open>Message types\<close>

definition envelope_version :: u8 where
  "envelope_version = 1"

datatype message_type =
    MtLocation | MtBattery | MtSos | MtSosClear | MtAttention | MtGeofenceEvent
  | MtConsentUpdate | MtConfigUpdate | MtMemberInfo | MtRosterIntroduce | MtRosterRemove
  | MtRosterSync | MtChannelOffer | MtReceipt | MtUnknown string

fun mt_as_str :: "message_type \<Rightarrow> string" where
  "mt_as_str MtLocation = ''location''"
| "mt_as_str MtBattery = ''battery''"
| "mt_as_str MtSos = ''sos''"
| "mt_as_str MtSosClear = ''sos_clear''"
| "mt_as_str MtAttention = ''attention''"
| "mt_as_str MtGeofenceEvent = ''geofence_event''"
| "mt_as_str MtConsentUpdate = ''consent_update''"
| "mt_as_str MtConfigUpdate = ''config_update''"
| "mt_as_str MtMemberInfo = ''member_info''"
| "mt_as_str MtRosterIntroduce = ''roster_introduce''"
| "mt_as_str MtRosterRemove = ''roster_remove''"
| "mt_as_str MtRosterSync = ''roster_sync''"
| "mt_as_str MtChannelOffer = ''channel_offer''"
| "mt_as_str MtReceipt = ''receipt''"
| "mt_as_str (MtUnknown s) = s"

definition mt_is_known :: "message_type \<Rightarrow> bool" where
  "mt_is_known m = (case m of MtUnknown _ \<Rightarrow> False | _ \<Rightarrow> True)"

definition mt_of_str :: "string \<Rightarrow> message_type" where
  "mt_of_str s =
     (if s = ''location'' then MtLocation
      else if s = ''battery'' then MtBattery
      else if s = ''sos'' then MtSos
      else if s = ''sos_clear'' then MtSosClear
      else if s = ''attention'' then MtAttention
      else if s = ''geofence_event'' then MtGeofenceEvent
      else if s = ''consent_update'' then MtConsentUpdate
      else if s = ''config_update'' then MtConfigUpdate
      else if s = ''member_info'' then MtMemberInfo
      else if s = ''roster_introduce'' then MtRosterIntroduce
      else if s = ''roster_remove'' then MtRosterRemove
      else if s = ''roster_sync'' then MtRosterSync
      else if s = ''channel_offer'' then MtChannelOffer
      else if s = ''receipt'' then MtReceipt
      else MtUnknown s)"

lemma mt_as_of_str: "mt_as_str (mt_of_str s) = s"
  by (simp add: mt_of_str_def)

lemma mt_of_as_str: "mt_is_known m \<Longrightarrow> mt_of_str (mt_as_str m) = m"
  by (cases m) (simp_all add: mt_of_str_def mt_is_known_def)

lemma mt_unknown_name: "mt_of_str s = MtUnknown u \<Longrightarrow> u = s"
  by (metis mt_as_of_str mt_as_str.simps(15))

text \<open>The hand-written \<^verbatim>\<open>Serialize\<close> and \<^verbatim>\<open>Deserialize\<close>: a type is its string on the wire.\<close>

definition mt_serialize :: "message_type \<Rightarrow> json" where
  "mt_serialize m = JString (mt_as_str m)"

definition mt_deserialize :: "json \<Rightarrow> message_type option" where
  "mt_deserialize v = (case v of JString s \<Rightarrow> Some (mt_of_str s) | _ \<Rightarrow> None)"

lemma mt_known_reads_back: "mt_is_known m \<Longrightarrow> mt_deserialize (mt_serialize m) = Some m"
  by (simp add: mt_deserialize_def mt_serialize_def mt_of_as_str)

lemma mt_canonical: "mt_deserialize v = Some m \<Longrightarrow> mt_deserialize (mt_serialize m) = Some m"
  by (auto simp: mt_deserialize_def mt_serialize_def mt_as_of_str split: json.splits)

section \<open>Timestamps\<close>

text \<open>
  \<^verbatim>\<open>is_rfc3339\<close>. Rust's slices panic past the end, which the length guards exclude: the
  first twenty bytes exist, and the offset's six are counted before they are read.
\<close>

definition digits_at :: "string \<Rightarrow> nat \<Rightarrow> nat \<Rightarrow> bool" where
  "digits_at b from_at len = list_all is_ascii_digit (take len (drop from_at b))"

definition num_at :: "string \<Rightarrow> nat \<Rightarrow> nat \<Rightarrow> int" where
  "num_at s from_at len =
     (case Option.bind (str_get s from_at (from_at + len)) (parse_unsigned (2 ^ 32 - 1)) of
        None \<Rightarrow> 2 ^ 32 - 1 | Some n \<Rightarrow> n)"

definition is_rfc3339 :: "string \<Rightarrow> bool" where
  "is_rfc3339 b =
     (if length b < 20 then False
      else if \<not> (digits_at b 0 4 \<and> b ! 4 = CHR ''-'' \<and> digits_at b 5 2 \<and> b ! 7 = CHR ''-''
                 \<and> digits_at b 8 2) then False
      else if b ! 10 \<noteq> CHR ''T'' then False
      else if \<not> (digits_at b 11 2 \<and> b ! 13 = CHR '':'' \<and> digits_at b 14 2 \<and> b ! 16 = CHR '':''
                 \<and> digits_at b 17 2) then False
      else if \<not> (1 \<le> num_at b 5 2 \<and> num_at b 5 2 \<le> 12)
              \<or> \<not> (1 \<le> num_at b 8 2 \<and> num_at b 8 2 \<le> 31)
              \<or> num_at b 11 2 > 23 \<or> num_at b 14 2 > 59 \<or> num_at b 17 2 > 60 then False
      else
        (let fraction = (b ! 19 = CHR ''.'');
             start = (if fraction then 20 else 19);
             i = (if fraction then start + length (takeWhile is_ascii_digit (drop start b)) else 19)
         in if fraction \<and> i = start then False
            else if i < length b \<and> b ! i = CHR ''Z'' then i + 1 = length b
            else if i < length b \<and> (b ! i = CHR ''+'' \<or> b ! i = CHR ''-'')
            then length b = i + 6 \<and> digits_at b (i + 1) 2 \<and> b ! (i + 3) = CHR '':''
                 \<and> digits_at b (i + 4) 2
            else False))"

section \<open>The envelope\<close>

record envelope =
  en_v :: u8
  en_id :: string
  en_seq :: u64
  en_message_type :: message_type
  en_sent :: string
  en_sender :: string
  en_body :: json

datatype reject_reason =
    RjMalformed string
  | RjUnsupportedVersion u8
  | RjEmptyField string
  | RjBodyNotObject
  | RjBadTimestamp string
  | RjSenderMismatch (rj_claimed: string) (rj_authenticated: string)

definition display_reject_reason :: "reject_reason \<Rightarrow> string" where
  "display_reject_reason r = (case r of
     RjMalformed detail \<Rightarrow> ''malformed envelope: '' @ detail
   | RjUnsupportedVersion found \<Rightarrow> ''unsupported envelope version '' @ dec_digits (unat found)
   | RjEmptyField field \<Rightarrow> ''empty required field `'' @ field @ ''`''
   | RjBodyNotObject \<Rightarrow> ''body is not a JSON object''
   | RjBadTimestamp value \<Rightarrow> ''`sent` is not RFC 3339: '' @ value
   | RjSenderMismatch claimed authenticated \<Rightarrow>
       ''sender `'' @ claimed @ ''` does not match authenticated device `'' @ authenticated @ ''`'')"

definition is_object :: "json \<Rightarrow> bool" where
  "is_object v = (case v of JObject _ \<Rightarrow> True | _ \<Rightarrow> False)"

definition validate_envelope :: "envelope \<Rightarrow> reject_reason + unit" where
  "validate_envelope e =
     (if en_v e \<noteq> envelope_version then Inl (RjUnsupportedVersion (en_v e))
      else if en_id e = [] then Inl (RjEmptyField ''id'')
      else if en_sender e = [] then Inl (RjEmptyField ''sender'')
      else if mt_as_str (en_message_type e) = [] then Inl (RjEmptyField ''type'')
      else if \<not> is_rfc3339 (en_sent e) then Inl (RjBadTimestamp (en_sent e))
      else if \<not> is_object (en_body e) then Inl RjBodyNotObject
      else Inr ())"

text \<open>\<^verbatim>\<open>to_vec\<close> is \<^verbatim>\<open>serde_json::to_vec\<close> at the envelope type.\<close>

definition encode_envelope :: "(envelope \<Rightarrow> string + bytes) \<Rightarrow> envelope \<Rightarrow> string + bytes" where
  "encode_envelope to_vec e = to_vec e"

text \<open>\<^verbatim>\<open>from_slice\<close> is \<^verbatim>\<open>serde_json::from_slice\<close> at the envelope type.\<close>

definition decode_envelope :: "(bytes \<Rightarrow> string + envelope) \<Rightarrow> bytes \<Rightarrow> reject_reason + envelope" where
  "decode_envelope from_slice b =
     rbind (map_err RjMalformed (from_slice b)) (\<lambda>e.
     rbind (validate_envelope e) (\<lambda>_. Inr e))"

definition check_sender :: "envelope \<Rightarrow> string \<Rightarrow> reject_reason + unit" where
  "check_sender e authenticated =
     (if en_sender e = authenticated then Inr ()
      else Inl (RjSenderMismatch (en_sender e) authenticated))"

definition without_body :: "envelope \<Rightarrow> envelope" where
  "without_body e = e\<lparr>en_body := JObject []\<rparr>"

text \<open>
  What the library promises of the two: an envelope that was written is read back, if its type is one
  that the string on the wire gives back.
\<close>

definition reads_envelopes ::
  "(envelope \<Rightarrow> string + bytes) \<Rightarrow> (bytes \<Rightarrow> string + envelope) \<Rightarrow> bool"
where
  "reads_envelopes to_vec from_slice \<longleftrightarrow>
     (\<forall>e b. mt_deserialize (mt_serialize (en_message_type e)) = Some (en_message_type e)
        \<and> to_vec e = Inr b \<longrightarrow> from_slice b = Inr e)"

lemma validate_envelope_Inr:
  "validate_envelope e = Inr () \<longleftrightarrow>
     en_v e = envelope_version \<and> en_id e \<noteq> [] \<and> en_sender e \<noteq> []
       \<and> mt_as_str (en_message_type e) \<noteq> [] \<and> is_rfc3339 (en_sent e) \<and> is_object (en_body e)"
  by (simp add: validate_envelope_def)

lemma decode_envelope_Inr:
  "decode_envelope from_slice b = Inr e \<longleftrightarrow> from_slice b = Inr e \<and> validate_envelope e = Inr ()"
  by (auto simp: decode_envelope_def rbind_Inr_iff)

lemma decode_encode_envelope:
  assumes "reads_envelopes to_vec from_slice" and "encode_envelope to_vec e = Inr b"
    and "mt_deserialize (mt_serialize (en_message_type e)) = Some (en_message_type e)"
  shows "decode_envelope from_slice b = (case validate_envelope e of Inl reason \<Rightarrow> Inl reason | Inr _ \<Rightarrow> Inr e)"
  using assms by (simp add: reads_envelopes_def encode_envelope_def decode_envelope_def rbind_def)

section \<open>Roster messages\<close>

datatype device_state = DsActive | DsRemoved

datatype removal_reason = RrLeft | RrRemoved | RrLost

definition ds_as_str :: "device_state \<Rightarrow> string" where
  "ds_as_str s = (case s of DsActive \<Rightarrow> ''active'' | DsRemoved \<Rightarrow> ''removed'')"

definition rr_as_str :: "removal_reason \<Rightarrow> string" where
  "rr_as_str r = (case r of RrLeft \<Rightarrow> ''left'' | RrRemoved \<Rightarrow> ''removed'' | RrLost \<Rightarrow> ''lost'')"

record vouched_subject =
  vs_device_id :: string
  vs_identity_pk :: string
  vs_display_name :: string
  vs_member_group :: string
  vs_role :: string
  vs_joined_at :: string

record roster_introduce =
  ri_subject :: vouched_subject
  ri_epoch :: u64
  ri_vouch :: string

record roster_remove =
  rr_subject :: string
  rr_reason :: removal_reason
  rr_removed_at :: string
  rr_epoch :: u64
  rr_sig :: string

record sync_device =
  sd_device_id :: string
  sd_identity_pk :: string
  sd_state :: device_state

record roster_sync =
  rs_epoch :: u64
  rs_devices :: "sync_device list"
  rs_digest :: string

record channel_offer =
  co_of :: string
  co_for_device :: string
  co_sealed :: string

record channel_address =
  ca_sender_id :: string
  ca_minted_at :: string

text \<open>
  The signed payloads, as \<^verbatim>\<open>serde_json::to_value\<close> builds them from the derived
  \<^verbatim>\<open>Serialize\<close>: an object with one entry per field.
\<close>

definition subject_value :: "vouched_subject \<Rightarrow> json" where
  "subject_value s = json_object
     [(''device_id'', JString (vs_device_id s)), (''identity_pk'', JString (vs_identity_pk s)),
      (''display_name'', JString (vs_display_name s)),
      (''member_group'', JString (vs_member_group s)),
      (''role'', JString (vs_role s)), (''joined_at'', JString (vs_joined_at s))]"

definition vouch_payload :: "roster_introduce \<Rightarrow> json" where
  "vouch_payload m = json_object
     [(''subject'', subject_value (ri_subject m)), (''epoch'', JNumber (PosInt (ri_epoch m)))]"

definition removal_payload :: "roster_remove \<Rightarrow> json" where
  "removal_payload m = json_object
     [(''subject'', JString (rr_subject m)), (''reason'', JString (rr_as_str (rr_reason m))),
      (''removed_at'', JString (rr_removed_at m)), (''epoch'', JNumber (PosInt (rr_epoch m)))]"

definition sync_device_value :: "sync_device \<Rightarrow> json" where
  "sync_device_value d = json_object
     [(''device_id'', JString (sd_device_id d)), (''identity_pk'', JString (sd_identity_pk d)),
      (''state'', JString (ds_as_str (sd_state d)))]"

definition sync_payload :: "roster_sync \<Rightarrow> json" where
  "sync_payload m = json_object
     [(''epoch'', JNumber (PosInt (rs_epoch m))),
      (''devices'', JArray (map sync_device_value (rs_devices m)))]"

section \<open>What the payloads commit to\<close>

lemma json_object_eq:
  assumes "json_object xs = json_object ys"
  shows "map_of (rev xs) k = map_of (rev ys) k"
proof -
  have "bt_of_list xs = bt_of_list ys"
    using assms by (simp add: json_object_def bt_entries_inject)
  then show ?thesis
    using bt.get_collect [of xs k] bt.get_collect [of ys k] by (simp add: bt_of_list_def)
qed

lemma rr_as_str_inject: "rr_as_str a = rr_as_str b \<longleftrightarrow> a = b"
  by (cases a; cases b) (simp_all add: rr_as_str_def)

lemma ds_as_str_inject: "ds_as_str a = ds_as_str b \<longleftrightarrow> a = b"
  by (cases a; cases b) (simp_all add: ds_as_str_def)

lemma subject_value_inject: "subject_value s = subject_value t \<longleftrightarrow> s = t"
proof
  assume "subject_value s = subject_value t"
  note eq = json_object_eq [OF this [unfolded subject_value_def]]
  show "s = t"
    using eq [of "''device_id''"] eq [of "''identity_pk''"] eq [of "''display_name''"]
      eq [of "''member_group''"] eq [of "''role''"] eq [of "''joined_at''"]
    by simp
qed simp

lemma vouch_payload_inject:
  assumes "vouch_payload m = vouch_payload n"
  shows "ri_subject m = ri_subject n \<and> ri_epoch m = ri_epoch n"
proof -
  note eq = json_object_eq [OF assms [unfolded vouch_payload_def]]
  show ?thesis
    using eq [of "''subject''"] eq [of "''epoch''"] by (simp add: subject_value_inject)
qed

lemma removal_payload_inject:
  assumes "removal_payload m = removal_payload n"
  shows "rr_subject m = rr_subject n \<and> rr_reason m = rr_reason n
    \<and> rr_removed_at m = rr_removed_at n \<and> rr_epoch m = rr_epoch n"
proof -
  note eq = json_object_eq [OF assms [unfolded removal_payload_def]]
  show ?thesis
    using eq [of "''subject''"] eq [of "''reason''"] eq [of "''removed_at''"] eq [of "''epoch''"]
    by (simp add: rr_as_str_inject)
qed

lemma sync_device_value_inject: "sync_device_value s = sync_device_value t \<longleftrightarrow> s = t"
proof
  assume "sync_device_value s = sync_device_value t"
  note eq = json_object_eq [OF this [unfolded sync_device_value_def]]
  show "s = t"
    using eq [of "''device_id''"] eq [of "''identity_pk''"] eq [of "''state''"]
    by (simp add: ds_as_str_inject)
qed simp

lemma sync_payload_inject:
  assumes "sync_payload m = sync_payload n"
  shows "rs_epoch m = rs_epoch n \<and> rs_devices m = rs_devices n"
proof -
  note eq = json_object_eq [OF assms [unfolded sync_payload_def]]
  have "map sync_device_value (rs_devices m) = map sync_device_value (rs_devices n)"
    using eq [of "''devices''"] by simp
  moreover have "inj sync_device_value" by (simp add: inj_def sync_device_value_inject)
  ultimately show ?thesis
    using eq [of "''epoch''"] by (simp add: inj_map_eq_map)
qed

text \<open>None of them holds a float, so canonical encoding never refuses them.\<close>

lemma float_free_json_object:
  assumes "\<forall>kv \<in> set kvs. float_free (snd kv)"
  shows "float_free (json_object kvs)"
proof -
  have "float_free v" if "(k, v) \<in> set (bt_entries (bt_of_list kvs))" for k v
  proof -
    have "bt_get (bt_of_list kvs) k = Some v"
      using that by (simp add: bt.entries_iff)
    then have "map_of (rev kvs) k = Some v"
      using bt.get_collect [of kvs k] by (simp add: bt_of_list_def)
    then have "(k, v) \<in> set kvs" by (auto dest: map_of_SomeD)
    then show ?thesis using assms by force
  qed
  then show ?thesis by (auto simp: json_object_def)
qed

lemma payloads_float_free:
  "float_free (subject_value s)" "float_free (vouch_payload i)" "float_free (removal_payload r)"
  "float_free (sync_payload y)"
  by (auto simp: subject_value_def vouch_payload_def removal_payload_def sync_payload_def
      sync_device_value_def intro!: float_free_json_object)

section \<open>The two timestamp readers\<close>

lemma digits_at_2: "digits_at b i 2 \<Longrightarrow> i + 2 \<le> length b \<Longrightarrow>
    is_ascii_digit (b ! i) \<and> is_ascii_digit (b ! Suc i)"
proof -
  assume "digits_at b i 2" and "i + 2 \<le> length b"
  moreover from this have "take 2 (drop i b) = [b ! i, b ! Suc i]"
    by (simp add: numeral_2_eq_2 take_Suc_conv_app_nth)
  ultimately show ?thesis by (simp add: digits_at_def)
qed

lemma digits_at_4: "digits_at b i 4 \<Longrightarrow> i + 4 \<le> length b \<Longrightarrow> j < 4 \<Longrightarrow> is_ascii_digit (b ! (i + j))"
  by (auto simp: digits_at_def list_all_length)

lemma length_2_cases:
  assumes "i + 2 \<le> length b"
  obtains x y where "take 2 (drop i b) = [x, y]"
  using assms that by (simp add: numeral_2_eq_2 take_Suc_conv_app_nth)

lemma digits_parse:
  assumes "digits_at b i 2" and "i + 2 \<le> length b" and "take 2 (drop i b) = [x, y]"
    and "list_all (\<lambda>c. (of_char c :: nat) < 128) b"
  shows "is_ascii_digit x" "is_ascii_digit y" "parse_i64 [x, y] = Some (num_at b i 2)"
    "0 \<le> num_at b i 2" "num_at b i 2 \<le> 99"
proof -
  show d: "is_ascii_digit x" "is_ascii_digit y"
    using assms(1,3) by (simp_all add: digits_at_def)
  have v: "0 \<le> digit_val x" "digit_val x \<le> 9" "0 \<le> digit_val y" "digit_val y \<le> 9"
    using d by (simp_all add: is_ascii_digit_val)
  have val: "digits_val [x, y] = 10 * digit_val x + digit_val y" by (simp add: digits_val_def)
  have "str_get b i (i + 2) = Some [x, y]"
    using assms(2,3) str_get_ascii [OF assms(4), of i "i + 2"] by simp
  moreover have "x \<noteq> CHR ''+''" using ascii_digit_not_sign [OF d(1)] by simp
  ultimately have n: "num_at b i 2 = digits_val [x, y]"
    using d v val by (simp add: num_at_def parse_unsigned_def Let_def)
  then show "parse_i64 [x, y] = Some (num_at b i 2)"
    using parse_i64_digits [of "[x, y]"] d v val by (simp add: i64_max_def)
  show "0 \<le> num_at b i 2" "num_at b i 2 \<le> 99" using n v val by simp_all
qed

text \<open>
  The grammar the shape test accepts: nineteen bytes of date and time, an optional fraction,
  and an offset.
\<close>

definition rfc_offset :: "string \<Rightarrow> bool" where
  "rfc_offset r \<longleftrightarrow> r = ''Z'' \<or> (\<exists>sg h1 h2 n1 n2. r = [sg, h1, h2, CHR '':'', n1, n2] \<and>
     (sg = CHR ''+'' \<or> sg = CHR ''-'') \<and> list_all is_ascii_digit [h1, h2, n1, n2])"

definition rfc_fraction :: "string \<Rightarrow> bool" where
  "rfc_fraction f \<longleftrightarrow> f = [] \<or> (\<exists>ds. f = CHR ''.'' # ds \<and> ds \<noteq> [] \<and> list_all is_ascii_digit ds)"

lemma list_of_length_6:
  assumes "length r = 6"
  shows "r = [r ! 0, r ! 1, r ! 2, r ! 3, r ! 4, r ! 5]"
  using assms by (auto simp: numeral_eq_Suc length_Suc_conv)

lemma rfc_offset_at:
  assumes "if i < length b \<and> b ! i = CHR ''Z'' then i + 1 = length b
    else if i < length b \<and> (b ! i = CHR ''+'' \<or> b ! i = CHR ''-'')
    then length b = i + 6 \<and> digits_at b (i + 1) 2 \<and> b ! (i + 3) = CHR '':'' \<and> digits_at b (i + 4) 2
    else False"
  shows "rfc_offset (drop i b)"
proof (cases "b ! i = CHR ''Z''")
  case True
  with assms have "length (drop i b) = 1" and "i < length b" by (auto split: if_splits)
  then have "drop i b = [b ! i]" by (simp add: Cons_nth_drop_Suc [symmetric])
  with True show ?thesis by (simp add: rfc_offset_def)
next
  case False
  with assms have sg: "b ! i = CHR ''+'' \<or> b ! i = CHR ''-''" and len: "length b = i + 6"
    and h: "digits_at b (i + 1) 2" and c: "b ! (i + 3) = CHR '':''" and n: "digits_at b (i + 4) 2"
    by (auto split: if_splits)
  have "drop i b = [b ! i, b ! (i + 1), b ! (i + 2), b ! (i + 3), b ! (i + 4), b ! (i + 5)]"
    using list_of_length_6 [of "drop i b"] len by simp
  moreover have "is_ascii_digit (b ! (i + 1)) \<and> is_ascii_digit (b ! (i + 2))"
    using digits_at_2 [OF h] len by simp
  moreover have "is_ascii_digit (b ! (i + 4)) \<and> is_ascii_digit (b ! (i + 5))"
    using digits_at_2 [OF n] len by (simp add: add.commute)
  ultimately show ?thesis using sg c by (auto simp: rfc_offset_def)
qed

lemma unguard: "(if c then False else x) = (\<not> c \<and> x)"
  by simp

lemma rfc_tail:
  assumes "is_rfc3339 b"
  shows "\<exists>f r. drop 19 b = f @ r \<and> rfc_fraction f \<and> rfc_offset r"
proof -
  note guards = assms [unfolded is_rfc3339_def unguard Let_def]
  have len: "19 < length b" using guards by (simp only: not_less) simp
  show ?thesis
  proof (cases "b ! 19 = CHR ''.''")
    case False
    then have dot: "(b ! 19 = CHR ''.'') = False" by simp
    have "rfc_offset (drop 19 b)"
      by (rule rfc_offset_at)
        (use guards [unfolded dot simp_thms if_False] in \<open>elim conjE\<close>)
    moreover have "rfc_fraction []" by (simp add: rfc_fraction_def)
    ultimately show ?thesis by (metis append_Nil)
  next
    case True
    define ds where "ds = takeWhile is_ascii_digit (drop 20 b)"
    note g = guards [unfolded True simp_thms if_True ds_def [symmetric]]
    have ne: "ds \<noteq> []" using g by (elim conjE) simp
    have "rfc_offset (drop (20 + length ds) b)"
      by (rule rfc_offset_at) (use g in \<open>elim conjE\<close>)
    moreover have "drop 20 b = ds @ drop (20 + length ds) b"
      unfolding ds_def by (metis add.commute append_take_drop_id drop_drop takeWhile_eq_take)
    moreover have "drop 19 b = CHR ''.'' # drop 20 b"
      using len True by (simp add: Cons_nth_drop_Suc [symmetric])
    moreover have "list_all is_ascii_digit ds"
      unfolding ds_def list_all_iff using set_takeWhileD by fast
    ultimately show ?thesis using ne
      by (intro exI [of _ "CHR ''.'' # ds"] exI [of _ "drop (20 + length ds) b"])
        (simp add: rfc_fraction_def)
  qed
qed

lemma list_of_length_19:
  assumes "length p = 19"
  shows "p = [p ! 0, p ! 1, p ! 2, p ! 3, p ! 4, p ! 5, p ! 6, p ! 7, p ! 8, p ! 9, p ! 10, p ! 11,
    p ! 12, p ! 13, p ! 14, p ! 15, p ! 16, p ! 17, p ! 18]"
proof -
  have e: "[0..<19] = [0, 1, 2, 3, 4, 5, 6, 7, 8, 9, 10, 11, 12, 13, 14, 15, 16, 17, 18 :: nat]"
    by code_simp
  have "map ((!) p) [0..<19] = p" using map_nth [of p] unfolding assms .
  then show ?thesis unfolding e list.map by (rule sym)
qed

lemma parse_offset_rfc:
  assumes f: "rfc_fraction f" and r: "rfc_offset r"
  shows "\<exists>off. parse_offset (f @ r) = Some off \<and> \<bar>off\<bar> \<le> 362340"
proof -
  have asc: "list_all (\<lambda>c. (of_char c :: nat) < 128) r"
    using r by (auto simp: rfc_offset_def digit_lt_128)
  have rne: "r \<noteq> []" and rhd: "hd r \<noteq> CHR ''.''" "\<not> is_ascii_digit (hd r)"
    using r by (auto simp: rfc_offset_def is_ascii_digit_def less_eq_char_def)
  have skip: "parse_offset (f @ r) = parse_offset r"
  proof (cases "f = []")
    case False
    then obtain ds where ds: "f = CHR ''.'' # ds" "list_all is_ascii_digit ds"
      using f by (auto simp: rfc_fraction_def)
    have "takeWhile is_ascii_digit (ds @ r) = ds"
      using ds(2) rne rhd(2) by (cases r) (auto simp: list_all_iff takeWhile_append)
    moreover have "list_all (\<lambda>c. (of_char c :: nat) < 128) (ds @ r)"
      using asc ds(2) by (auto simp: list_all_iff digit_lt_128)
    ultimately have "str_get (ds @ r) (length (takeWhile is_ascii_digit (ds @ r)))
        (length (ds @ r)) = Some r"
      by (subst str_get_ascii) simp_all
    moreover obtain c r' where "r = c # r'" "c \<noteq> CHR ''.''" using rne rhd by (cases r) auto
    ultimately show ?thesis using ds(1) by (simp add: parse_offset_def)
  qed simp
  show ?thesis
  proof (cases "r = ''Z''")
    case True
    then have "parse_offset (f @ r) = Some 0" using skip parse_offset_Z by simp
    then show ?thesis by (intro exI [of _ 0]) simp
  next
    case False
    then obtain sg h1 h2 n1 n2 where r': "r = [sg, h1, h2, CHR '':'', n1, n2]"
      and sg: "sg = CHR ''+'' \<or> sg = CHR ''-''"
      and dig: "list_all is_ascii_digit [h1, h2, n1, n2]"
      using r by (auto simp: rfc_offset_def)
    have two: "parse_i64 [x, y] = Some (digits_val [x, y]) \<and> 0 \<le> digits_val [x, y]
        \<and> digits_val [x, y] \<le> 99" if "is_ascii_digit x" "is_ascii_digit y" for x y
    proof -
      have "0 \<le> digits_val [x, y] \<and> digits_val [x, y] \<le> 99"
        using that by (simp add: digits_val_def is_ascii_digit_val)
      then show ?thesis using that parse_i64_digits [of "[x, y]"] by (simp add: i64_max_def)
    qed
    have g: "str_get r 1 3 = Some [h1, h2]" "str_get r 4 6 = Some [n1, n2]"
      by (subst str_get_ascii [OF asc]; simp add: r')+
    have c: "sg \<noteq> CHR ''.''" "\<not> ((sg = CHR ''Z'' \<or> sg = CHR ''z'') \<and> length r = 1)" "length r = 6"
      using sg r' by auto
    have "parse_offset r = Some (if sg = CHR ''-'' then
        - (digits_val [h1, h2] * 3600 + digits_val [n1, n2] * 60)
      else digits_val [h1, h2] * 3600 + digits_val [n1, n2] * 60)"
      using c sg g two dig unfolding parse_offset_def by (simp add: r' Let_def)
    moreover have "\<bar>digits_val [h1, h2] * 3600 + digits_val [n1, n2] * 60\<bar> \<le> 362340"
      using two [of h1 h2] two [of n1 n2] dig by simp
    ultimately show ?thesis by (auto simp: skip)
  qed
qed

lemma days_from_civil_bounds:
  assumes "0 \<le> y" "y \<le> 9999" "1 \<le> m" "m \<le> 12" "1 \<le> d" "d \<le> 31"
  shows "\<bar>days_from_civil y m d\<bar> \<le> 20000000"
proof -
  define Y where "Y = (if m \<le> 2 then y - 1 else y)"
  define E where "E = Y div 400"
  define M where "M = (if m > 2 then m - 3 else m + 9)"
  have e: "tdiv (if 0 \<le> Y then Y else Y - 399) 400 = E"
    unfolding E_def by (rule tdiv_era) simp_all
  have Yb: "-1 \<le> Y" "Y \<le> 9999" using assms(1,2) by (auto simp: Y_def)
  have Eb: "400 * E \<le> Y" "Y < 400 * E + 400" using div_bounds [of 400 Y] by (simp_all add: E_def)
  have Mb: "0 \<le> M" "M \<le> 11" using assms(3,4) by (auto simp: M_def)
  define q where "q = (153 * M + 2) div 5"
  have q: "5 * q \<le> 153 * M + 2" "153 * M + 2 < 5 * q + 5"
    using div_bounds [of 5 "153 * M + 2"] by (simp_all add: q_def)
  define yoe where "yoe = Y - E * 400"
  have yoe: "0 \<le> yoe" "yoe < 400" using Eb by (simp_all add: yoe_def)
  have d4: "0 \<le> yoe div 4" "yoe div 4 \<le> 100" "0 \<le> yoe div 100" "yoe div 100 \<le> 4"
    using div_bounds [of 4 yoe] div_bounds [of 100 yoe] yoe by linarith+
  have "days_from_civil y m d = E * 146097
      + (yoe * 365 + yoe div 4 - yoe div 100 + (q + d - 1)) - 719468"
    using Mb yoe unfolding days_from_civil_def Let_def Y_def [symmetric] M_def [symmetric] e
      yoe_def [symmetric] by (simp add: q_def)
  then show ?thesis using Eb Yb yoe d4 q Mb assms(5,6) by (simp add: abs_le_iff)
qed

text \<open>
  Whatever the envelope accepts as \<^verbatim>\<open>sent\<close>, the lenient parser of
  \<^verbatim>\<open>core/sund-client\<close> reads: the two readers never disagree in that direction.
\<close>

lemma rfc3339_readable:
  assumes "is_rfc3339 b"
  shows "\<exists>t. parse_rfc3339 b = Some t"
proof -
  note guards = assms [unfolded is_rfc3339_def unguard]
  obtain f r where fr: "drop 19 b = f @ r" "rfc_fraction f" "rfc_offset r"
    using rfc_tail [OF assms] by blast
  obtain off where off: "parse_offset (f @ r) = Some off" "\<bar>off\<bar> \<le> 362340"
    using parse_offset_rfc [OF fr(2,3)] by blast
  have len: "20 \<le> length b"
    and dig: "digits_at b 0 4" "digits_at b 5 2" "digits_at b 8 2" "digits_at b 11 2"
      "digits_at b 14 2" "digits_at b 17 2"
    and sep: "b ! 4 = CHR ''-''" "b ! 7 = CHR ''-''" "b ! 10 = CHR ''T''" "b ! 13 = CHR '':''"
      "b ! 16 = CHR '':''"
    and rng: "1 \<le> num_at b 5 2" "num_at b 5 2 \<le> 12" "1 \<le> num_at b 8 2" "num_at b 8 2 \<le> 31"
      "num_at b 11 2 \<le> 23" "num_at b 14 2 \<le> 59" "num_at b 17 2 \<le> 60"
    using guards by (simp_all only: not_less de_Morgan_disj not_not)
  have rest: "f @ r \<noteq> []" "list_all (\<lambda>c. (of_char c :: nat) < 128) (f @ r)"
    using fr(2,3) by (auto simp: rfc_fraction_def rfc_offset_def digit_lt_128 list_all_iff)
  have ydig: "is_ascii_digit (b ! 0)" "is_ascii_digit (b ! 1)" "is_ascii_digit (b ! 2)"
    "is_ascii_digit (b ! 3)"
    using digits_at_4 [OF dig(1)] len by (force simp: numeral_eq_Suc)+
  have len': "4 + 15 \<le> length b" "i + 2 \<le> length b" if "i \<le> 17" for i
    using len that by simp_all
  have pair: "is_ascii_digit (b ! i)" "is_ascii_digit (b ! Suc i)"
    "take 2 (drop i b) = [b ! i, b ! Suc i]" if "digits_at b i 2" "i \<le> 17" for i
    using digits_at_2 [OF that(1)] len'(2) [OF that(2)]
    by (simp_all add: numeral_2_eq_2 take_Suc_conv_app_nth)
  have p: "take 19 b = [b ! 0, b ! 1, b ! 2, b ! 3, CHR ''-'', b ! 5, b ! 6, CHR ''-'', b ! 8,
      b ! 9, CHR ''T'', b ! 11, b ! 12, CHR '':'', b ! 14, b ! 15, CHR '':'', b ! 17, b ! 18]"
    using list_of_length_19 [of "take 19 b"] len sep by simp
  have b: "b = take 19 b @ (f @ r)" using fr(1) by (metis append_take_drop_id)
  have d5: "is_ascii_digit (b ! 5)" "is_ascii_digit (b ! 6)" using pair [OF dig(2)] by simp_all
  have d8: "is_ascii_digit (b ! 8)" "is_ascii_digit (b ! 9)" using pair [OF dig(3)] by simp_all
  have d11: "is_ascii_digit (b ! 11)" "is_ascii_digit (b ! 12)" using pair [OF dig(4)] by simp_all
  have d14: "is_ascii_digit (b ! 14)" "is_ascii_digit (b ! 15)" using pair [OF dig(5)] by simp_all
  have d17: "is_ascii_digit (b ! 17)" "is_ascii_digit (b ! 18)" using pair [OF dig(6)] by simp_all
  have "list_all (\<lambda>c. (of_char c :: nat) < 128) (take 19 b)"
    unfolding p using ydig d5 d8 d11 d14 d17 by (simp add: digit_lt_128)
  with rest(2) have "list_all (\<lambda>c. (of_char c :: nat) < 128) (take 19 b @ (f @ r))"
    by (simp only: list_all_append simp_thms)
  then have asc: "list_all (\<lambda>c. (of_char c :: nat) < 128) b" unfolding b [symmetric] .
  have two: "parse_i64 [b ! i, b ! Suc i] = Some (num_at b i 2)" if "digits_at b i 2" "i \<le> 17" for i
    using digits_parse(3) [OF that(1) len'(2) [OF that(2)] pair(3) [OF that] asc] .
  have nums: "parse_i64 [b ! 5, b ! 6] = Some (num_at b 5 2)"
    "parse_i64 [b ! 8, b ! 9] = Some (num_at b 8 2)"
    "parse_i64 [b ! 11, b ! 12] = Some (num_at b 11 2)"
    "parse_i64 [b ! 14, b ! 15] = Some (num_at b 14 2)"
    "parse_i64 [b ! 17, b ! 18] = Some (num_at b 17 2)"
    using two [OF dig(2)] two [OF dig(3)] two [OF dig(4)] two [OF dig(5)] two [OF dig(6)] by simp_all
  define y where "y = digits_val [b ! 0, b ! 1, b ! 2, b ! 3]"
  have yb: "0 \<le> y" "y \<le> 9999"
    using ydig by (simp_all add: y_def digits_val_def is_ascii_digit_val)
  have yv: "parse_i64 [b ! 0, b ! 1, b ! 2, b ! 3] = Some y"
    unfolding y_def using ydig yb by (intro parse_i64_digits) (simp_all add: i64_max_def y_def)
  have digs: "list_all is_ascii_digit [b ! 0, b ! 1, b ! 2, b ! 3, b ! 5, b ! 6, b ! 8, b ! 9,
      b ! 11, b ! 12, b ! 14, b ! 15, b ! 17, b ! 18]"
    using ydig d5 d8 d11 d14 d17 by simp
  have "parse_rfc3339 b = parse_rfc3339 (take 19 b @ (f @ r))" using b by (rule arg_cong)
  also have "\<dots> = checked_time (days_from_civil y (num_at b 5 2) (num_at b 8 2) * 86400
      + num_at b 11 2 * 3600 + num_at b 14 2 * 60 + num_at b 17 2 - off)"
    unfolding p by (rule parse_civil_text [OF yv nums digs rng rest off(1)])
  finally have *: "parse_rfc3339 b = \<dots>" .
  have lo: "0 \<le> num_at b i 2" if "digits_at b i 2" "i \<le> 17" for i
    using digits_parse(4) [OF that(1) len'(2) [OF that(2)] pair(3) [OF that] asc] .
  have "0 \<le> num_at b 11 2" "0 \<le> num_at b 14 2" "0 \<le> num_at b 17 2"
    using lo [OF dig(4)] lo [OF dig(5)] lo [OF dig(6)] by simp_all
  then show ?thesis
    unfolding * checked_time_def i64_min_def i64_max_def
    using days_from_civil_bounds [OF yb rng(1-4)] rng(5-7) off(2) by (simp add: abs_le_iff)
qed

end
