(* ===== verification/Ledger.thy ===== *)
theory Ledger
  imports Wire
begin

text \<open>
  The transparency ledger's vocabulary (\<^verbatim>\<open>core/beacon-protocol/src/ledger.rs\<close>), with the
  consent features and refusals its entries name (\<^verbatim>\<open>consent.rs\<close>), and the receive path
  that pairs every outcome with its entry (\<^verbatim>\<open>lib.rs\<close>).
\<close>

section \<open>Features and refusals\<close>

datatype feature = FtLocation | FtBattery | FtGeofence | FtAttention | FtReceipts | FtUnknown string

fun ft_as_str :: "feature \<Rightarrow> string" where
  "ft_as_str FtLocation = ''location''"
| "ft_as_str FtBattery = ''battery''"
| "ft_as_str FtGeofence = ''geofence''"
| "ft_as_str FtAttention = ''attention''"
| "ft_as_str FtReceipts = ''receipts''"
| "ft_as_str (FtUnknown s) = s"

definition ft_of_str :: "string \<Rightarrow> feature" where
  "ft_of_str s =
     (if s = ''location'' then FtLocation
      else if s = ''battery'' then FtBattery
      else if s = ''geofence'' then FtGeofence
      else if s = ''attention'' then FtAttention
      else if s = ''receipts'' then FtReceipts
      else FtUnknown s)"

lemma ft_as_of_str: "ft_as_str (ft_of_str s) = s"
  by (simp add: ft_of_str_def)

datatype deny_reason = NoGrant feature | NoInboundAllow feature | DenyUnknownType string

section \<open>Entries\<close>

datatype direction = Inbound | Outbound | Local

datatype ledger_event =
    EvReceived message_type
  | EvReceivedUnknownType string
  | EvRejected reject_reason
  | EvSent message_type
  | EvSendRefused message_type deny_reason
  | EvConsentChanged feature bool
  | EvPeerAdvertisedConsent feature bool
  | EvDeviceJoined string
  | EvDeviceRemoved string removal_reason
  | EvVouchRejected string
  | EvAdmissionHeld nat
  | EvAdmissionResolved bool
  | EvUnvouchedDeviceListed
  | EvEpochBumped u64
  | EvFamilySplit string
  | EvChannelEstablished bool
  | EvChannelOfferRefused string
  | EvLabelsChanged string string

record ledger_entry =
  le_direction :: direction
  le_peer :: string
  le_message_id :: "string option"
  le_event :: ledger_event

definition le_inbound :: "string \<Rightarrow> string option \<Rightarrow> ledger_event \<Rightarrow> ledger_entry" where
  "le_inbound peer message_id event =
     \<lparr>le_direction = Inbound, le_peer = peer, le_message_id = message_id, le_event = event\<rparr>"

definition le_outbound :: "string \<Rightarrow> string option \<Rightarrow> ledger_event \<Rightarrow> ledger_entry" where
  "le_outbound peer message_id event =
     \<lparr>le_direction = Outbound, le_peer = peer, le_message_id = message_id, le_event = event\<rparr>"

definition le_local :: "string \<Rightarrow> ledger_event \<Rightarrow> ledger_entry" where
  "le_local peer event =
     \<lparr>le_direction = Local, le_peer = peer, le_message_id = None, le_event = event\<rparr>"

lemma ledger_entry_simps [simp, ledger_simps]:
  "le_direction (le_inbound p i e) = Inbound" "le_peer (le_inbound p i e) = p"
  "le_message_id (le_inbound p i e) = i" "le_event (le_inbound p i e) = e"
  "le_direction (le_outbound p i e) = Outbound" "le_peer (le_outbound p i e) = p"
  "le_message_id (le_outbound p i e) = i" "le_event (le_outbound p i e) = e"
  "le_direction (le_local p e) = Local" "le_peer (le_local p e) = p"
  "le_message_id (le_local p e) = None" "le_event (le_local p e) = e"
  by (simp_all add: le_inbound_def le_outbound_def le_local_def)

section \<open>The receive path\<close>

datatype outcome = OcAccepted envelope | OcUnknownType envelope | OcRejected reject_reason

definition outcome_envelope :: "outcome \<Rightarrow> envelope option" where
  "outcome_envelope oc = (case oc of OcAccepted e \<Rightarrow> Some e | OcUnknownType e \<Rightarrow> Some e
     | OcRejected _ \<Rightarrow> None)"

record reception =
  rc_outcome :: outcome
  rc_ledger :: ledger_entry

definition rejected :: "string \<Rightarrow> string option \<Rightarrow> reject_reason \<Rightarrow> reception" where
  "rejected peer message_id reason =
     \<lparr>rc_outcome = OcRejected reason,
      rc_ledger = le_inbound peer message_id (EvRejected reason)\<rparr>"

definition receive :: "(bytes \<Rightarrow> string + envelope) \<Rightarrow> bytes \<Rightarrow> string \<Rightarrow> reception" where
  "receive from_slice plaintext authenticated_sender =
     (case decode_envelope from_slice plaintext of
        Inl reason \<Rightarrow> rejected authenticated_sender None reason
      | Inr e \<Rightarrow>
          (case check_sender e authenticated_sender of
             Inl reason \<Rightarrow> rejected authenticated_sender (Some (en_id e)) reason
           | Inr _ \<Rightarrow>
               if mt_is_known (en_message_type e)
               then \<lparr>rc_outcome = OcAccepted e,
                     rc_ledger = le_inbound authenticated_sender (Some (en_id e))
                       (EvReceived (en_message_type e))\<rparr>
               else \<lparr>rc_outcome = OcUnknownType (without_body e),
                     rc_ledger = le_inbound authenticated_sender (Some (en_id e))
                       (EvReceivedUnknownType (mt_as_str (en_message_type e)))\<rparr>))"

text \<open>The specification of the receive path: an entry determined by the outcome.\<close>

definition reception_consistent :: "string \<Rightarrow> reception \<Rightarrow> bool" where
  "reception_consistent peer r \<longleftrightarrow>
     le_direction (rc_ledger r) = Inbound \<and> le_peer (rc_ledger r) = peer \<and>
     (case rc_outcome r of
        OcAccepted e \<Rightarrow> le_event (rc_ledger r) = EvReceived (en_message_type e)
          \<and> le_message_id (rc_ledger r) = Some (en_id e) \<and> en_sender e = peer
          \<and> mt_is_known (en_message_type e) \<and> validate_envelope e = Inr ()
      | OcUnknownType e \<Rightarrow> le_event (rc_ledger r) = EvReceivedUnknownType (mt_as_str (en_message_type e))
          \<and> le_message_id (rc_ledger r) = Some (en_id e) \<and> en_sender e = peer
          \<and> \<not> mt_is_known (en_message_type e) \<and> en_body e = JObject []
      | OcRejected reason \<Rightarrow> le_event (rc_ledger r) = EvRejected reason)"

lemma receive_consistent: "reception_consistent peer (receive from_slice plaintext peer)"
proof (cases "decode_envelope from_slice plaintext")
  case (Inl reason)
  then show ?thesis by (simp add: receive_def rejected_def reception_consistent_def)
next
  case (Inr e)
  then have "validate_envelope e = Inr ()" by (simp add: decode_envelope_Inr)
  with Inr show ?thesis
    by (simp add: receive_def check_sender_def rejected_def reception_consistent_def without_body_def)
qed

lemma receive_accepted_iff:
  "rc_outcome (receive from_slice plaintext peer) = OcAccepted e \<longleftrightarrow>
     from_slice plaintext = Inr e \<and> validate_envelope e = Inr () \<and> en_sender e = peer
       \<and> mt_is_known (en_message_type e)"
proof (cases "decode_envelope from_slice plaintext")
  case (Inl reason)
  then have "\<not> (from_slice plaintext = Inr e \<and> validate_envelope e = Inr ())"
    by (auto simp: decode_envelope_def)
  with Inl show ?thesis by (auto simp: receive_def rejected_def)
next
  case (Inr e')
  then have "from_slice plaintext = Inr e' \<and> validate_envelope e' = Inr ()"
    by (simp add: decode_envelope_Inr)
  with Inr show ?thesis by (auto simp: receive_def check_sender_def rejected_def)
qed

text \<open>
  What a well-formed envelope is received as: itself and an entry that names it, or, for a type this
  build does not know, the envelope without its body and an entry that names the type.
\<close>

definition received_as :: "envelope \<Rightarrow> reception" where
  "received_as e =
     (if mt_is_known (en_message_type e)
      then \<lparr>rc_outcome = OcAccepted e,
            rc_ledger = le_inbound (en_sender e) (Some (en_id e)) (EvReceived (en_message_type e))\<rparr>
      else \<lparr>rc_outcome = OcUnknownType (e\<lparr>en_body := JObject []\<rparr>),
            rc_ledger = le_inbound (en_sender e) (Some (en_id e))
              (EvReceivedUnknownType (mt_as_str (en_message_type e)))\<rparr>)"

lemma receive_encoded:
  assumes "reads_envelopes to_vec from_slice" and "encode_envelope to_vec e = Inr b"
    and "mt_deserialize (mt_serialize (en_message_type e)) = Some (en_message_type e)"
    and "validate_envelope e = Inr ()"
  shows "receive from_slice b (en_sender e) = received_as e"
  using decode_encode_envelope [OF assms(1-3)] assms(4)
  by (simp add: receive_def check_sender_def received_as_def without_body_def)

end
