(* ===== verification/Churn.thy ===== *)
theory Churn
  imports BTree Calendar
begin

text \<open>
  The churn budget, \<^verbatim>\<open>core/beacon-roster/src/churn.rs\<close>: per-signer event times in Unix
  seconds, a rolling window of a day, and a limit of five. The \<^verbatim>\<open>i64\<close> arithmetic is the
  release build's, which wraps.
\<close>

definition max_membership_events :: nat where
  "max_membership_events = 5"

definition churn_window_seconds :: int where
  "churn_window_seconds = 24 * 60 * 60"

record churn_log = cl_events :: "(string, int list) btree"

definition churn_new :: churn_log where
  "churn_new = \<lparr>cl_events = bt_empty\<rparr>"

definition clamp_to_now :: "system_time \<Rightarrow> system_time \<Rightarrow> system_time" where
  "clamp_to_now signed_at now = (if signed_at > now then now else signed_at)"

definition unix_seconds :: "system_time \<Rightarrow> int" where
  "unix_seconds t =
     (if 0 \<le> t then (if secs_since_epoch t \<le> i64_max then secs_since_epoch t else i64_max)
      else i64_min)"

definition churn_cutoff :: "system_time \<Rightarrow> int" where
  "churn_cutoff now = wrap_i64 (unix_seconds now - churn_window_seconds)"

definition churn_events :: "churn_log \<Rightarrow> string \<Rightarrow> int list" where
  "churn_events c signer = (case bt_get (cl_events c) signer of None \<Rightarrow> [] | Some es \<Rightarrow> es)"

definition churn_record :: "churn_log \<Rightarrow> string \<Rightarrow> system_time \<Rightarrow> system_time \<Rightarrow> churn_log" where
  "churn_record c signer signed_at now =
     (let at = unix_seconds (clamp_to_now signed_at now);
          entry = churn_events c signer @ [at];
          cutoff = churn_cutoff now
      in \<lparr>cl_events = bt_insert signer (filter (\<lambda>at. at \<ge> cutoff) entry) (cl_events c)\<rparr>)"

definition count_in_window :: "churn_log \<Rightarrow> string \<Rightarrow> system_time \<Rightarrow> nat" where
  "count_in_window c signer now =
     (case bt_get (cl_events c) signer of
        None \<Rightarrow> 0
      | Some events \<Rightarrow> length (filter (\<lambda>at. at \<ge> churn_cutoff now) events))"

definition would_exceed :: "churn_log \<Rightarrow> string \<Rightarrow> system_time \<Rightarrow> bool" where
  "would_exceed c signer now \<longleftrightarrow> count_in_window c signer now \<ge> max_membership_events"

definition churn_forget :: "churn_log \<Rightarrow> string \<Rightarrow> churn_log" where
  "churn_forget c signer = \<lparr>cl_events = bt_remove signer (cl_events c)\<rparr>"

section \<open>Counting\<close>

lemma count_events:
  "count_in_window c signer now = length (filter (\<lambda>at. at \<ge> churn_cutoff now) (churn_events c signer))"
  by (simp add: count_in_window_def churn_events_def split: option.split)

lemma churn_events_record:
  "churn_events (churn_record c signer signed_at now) other =
     (if other = signer
      then filter (\<lambda>at. at \<ge> churn_cutoff now)
             (churn_events c signer @ [unix_seconds (clamp_to_now signed_at now)])
      else churn_events c other)"
  by (simp add: churn_record_def churn_events_def Let_def)

lemma churn_events_forget:
  "churn_events (churn_forget c signer) other = (if other = signer then [] else churn_events c other)"
  by (simp add: churn_forget_def churn_events_def)

text \<open>Recording charges exactly one event when it is recent enough to be in the window.\<close>

lemma count_after_record:
  "count_in_window (churn_record c signer signed_at now) signer now =
     count_in_window c signer now
       + (if churn_cutoff now \<le> unix_seconds (clamp_to_now signed_at now) then 1 else 0)"
  by (simp add: count_events churn_events_record)

text \<open>On a clock that is after the first day of 1970, no wrap-around occurs.\<close>

definition sane_clock :: "system_time \<Rightarrow> bool" where
  "sane_clock now \<longleftrightarrow> 86400 \<le> secs_since_epoch now \<and> secs_since_epoch now \<le> i64_max"

lemma sane_clock_nonneg: "sane_clock now \<Longrightarrow> 0 \<le> now"
  by (simp add: sane_clock_def secs_since_epoch_def nanos_per_sec_def)
    (meson dual_order.trans not_le pos_imp_zdiv_neg_iff zero_le_numeral zero_less_numeral)

lemma churn_cutoff_sane:
  assumes "sane_clock now"
  shows "churn_cutoff now = secs_since_epoch now - 86400"
proof -
  have "unix_seconds now = secs_since_epoch now"
    using assms sane_clock_nonneg [OF assms] by (simp add: unix_seconds_def sane_clock_def)
  moreover have "wrap_i64 (secs_since_epoch now - 86400) = secs_since_epoch now - 86400"
    using assms by (intro wrap_i64_id) (simp_all add: sane_clock_def i64_min_def i64_max_def)
  ultimately show ?thesis by (simp add: churn_cutoff_def churn_window_seconds_def)
qed

lemma record_future_counts:
  assumes "sane_clock now" and "now \<le> signed_at"
  shows "count_in_window (churn_record c signer signed_at now) signer now =
     count_in_window c signer now + 1"
proof -
  have "clamp_to_now signed_at now = now" using assms(2) by (simp add: clamp_to_now_def)
  moreover have "unix_seconds now = secs_since_epoch now"
    using assms(1) sane_clock_nonneg [OF assms(1)] by (simp add: unix_seconds_def sane_clock_def)
  ultimately show ?thesis
    using churn_cutoff_sane [OF assms(1)] by (simp add: count_after_record)
qed

text \<open>Time only empties the window.\<close>

lemma count_decreases:
  assumes "churn_cutoff now \<le> churn_cutoff later"
  shows "count_in_window c signer later \<le> count_in_window c signer now"
proof -
  have "filter (\<lambda>at. at \<ge> churn_cutoff later) es =
      filter (\<lambda>at. at \<ge> churn_cutoff later) (filter (\<lambda>at. at \<ge> churn_cutoff now) es)" for es
    using assms by (induction es) auto
  then show ?thesis unfolding count_events by (metis length_filter_le)
qed

text \<open>What the vectors can hold: nothing outside the window of the last record.\<close>

lemma record_bounds_log:
  "\<forall>at \<in> set (churn_events (churn_record c signer signed_at now) signer). churn_cutoff now \<le> at"
  by (simp add: churn_events_record)

end
