(* ===== verification/Roster.thy ===== *)
theory Roster
  imports Identity Ledger Churn
begin

text \<open>
  The membership state machine, \<^verbatim>\<open>core/beacon-roster/src/roster.rs\<close>, on the records of
  \<^verbatim>\<open>records.rs\<close>: admission by verified vouch, quarantine, removal, synchronization, the
  server's device list and the snapshot. An operation that takes \<^verbatim>\<open>&mut self\<close> returns
  the new roster beside its \<^verbatim>\<open>applied\<close> outcome, which carries the ledger entries.
\<close>

section \<open>Records\<close>

record device_record =
  dr_device_id :: string
  dr_identity_pk :: string
  dr_display_name :: string
  dr_member_group :: string
  dr_role :: string
  dr_joined_at :: string
  dr_introduced_by :: string
  dr_state :: device_state

definition from_vouch :: "vouched_subject \<Rightarrow> string \<Rightarrow> device_record" where
  "from_vouch s introduced_by =
     \<lparr>dr_device_id = vs_device_id s, dr_identity_pk = vs_identity_pk s,
      dr_display_name = vs_display_name s, dr_member_group = vs_member_group s,
      dr_role = vs_role s, dr_joined_at = vs_joined_at s, dr_introduced_by = introduced_by,
      dr_state = DsActive\<rparr>"

definition record_is_active :: "device_record \<Rightarrow> bool" where
  "record_is_active d \<longleftrightarrow> dr_state d = DsActive"

record tombstone =
  ts_subject :: string
  ts_reason :: removal_reason
  ts_removed_at :: string
  ts_removed_by :: string
  ts_epoch :: u64

record self_description =
  me_device_id :: string
  me_display_name :: string
  me_member_group :: string
  me_role :: string
  me_joined_at :: string

definition self_subject :: "self_description \<Rightarrow> string \<Rightarrow> vouched_subject" where
  "self_subject me identity_pk =
     \<lparr>vs_device_id = me_device_id me, vs_identity_pk = identity_pk,
      vs_display_name = me_display_name me, vs_member_group = me_member_group me,
      vs_role = me_role me, vs_joined_at = me_joined_at me\<rparr>"

section \<open>State and outcomes\<close>

definition max_active_devices :: nat where
  "max_active_devices = 20"

definition roster_snapshot_version :: u8 where
  "roster_snapshot_version = 1"

record 'a applied =
  ap_outcome :: 'a
  ap_ledger :: "ledger_entry list"

definition applied :: "'a \<Rightarrow> ledger_entry list \<Rightarrow> 'a applied" where
  "applied x l = \<lparr>ap_outcome = x, ap_ledger = l\<rparr>"

lemma applied_simps [simp]: "ap_outcome (applied x l) = x" "ap_ledger (applied x l) = l"
  by (simp_all add: applied_def)

datatype vouch_refusal =
    IntroducerNotActive string
  | SubjectTombstoned string
  | SelfVouch string
  | SizeCapReached nat
  | BadVouchSignature
  | MalformedIdentityKey
  | IdentityChanged string

definition display_vouch_refusal :: "vouch_refusal \<Rightarrow> string" where
  "display_vouch_refusal r = (case r of
     IntroducerNotActive introducer \<Rightarrow> ''`'' @ introducer @ ''` is not an active member''
   | SubjectTombstoned subject \<Rightarrow> ''`'' @ subject @ ''` was removed from this family before''
   | SelfVouch subject \<Rightarrow> ''`'' @ subject @ ''` vouched for itself''
   | SizeCapReached active \<Rightarrow> ''the family already has '' @ dec_digits active
       @ '' devices, the maximum is '' @ dec_digits max_active_devices
   | BadVouchSignature \<Rightarrow> ''the vouch signature did not verify''
   | MalformedIdentityKey \<Rightarrow> ''the vouch carried an unusable identity key''
   | IdentityChanged subject \<Rightarrow> ''`'' @ subject @ ''` presented a different identity key'')"

datatype admission = Admitted | AlreadyKnown | Held nat | AdmissionRefused vouch_refusal

datatype removal_refusal = RemoverNotActive string | BadRemovalSignature

definition display_removal_refusal :: "removal_refusal \<Rightarrow> string" where
  "display_removal_refusal r = (case r of
     RemoverNotActive remover \<Rightarrow> ''`'' @ remover @ ''` is not an active member''
   | BadRemovalSignature \<Rightarrow> ''the removal signature did not verify'')"

datatype removal = RemovalApplied | AlreadyRemoved | AboutSelf | RemovalRefused removal_refusal

record held_admission =
  ha_message :: roster_introduce
  ha_introducer :: string
  ha_events_in_window :: nat

datatype sync_outcome = InSync | SyncRefused string | Merged nat "string list" | BadDigest

record server_device =
  sv_device_id :: string
  sv_revoked :: bool

datatype server_finding = RevokedByServer string | FindingNormal string | Unvouched string
  | Unreachable string

record roster_snapshot =
  sn_v :: u8
  sn_self_id :: string
  sn_devices :: "device_record list"
  sn_tombstones :: "tombstone list"
  sn_epoch :: u64
  sn_churn :: churn_log
  sn_held :: "held_admission list"
  sn_removed_me :: "string list"

datatype snapshot_error = SnUnsupportedVersion u8 | SnWrongDevice (sn_expected: string) (sn_found: string)

definition display_snapshot_error :: "snapshot_error \<Rightarrow> string" where
  "display_snapshot_error e = (case e of
     SnUnsupportedVersion found \<Rightarrow> ''unsupported roster version '' @ dec_digits (unat found)
   | SnWrongDevice expected found \<Rightarrow>
       ''roster belongs to `'' @ found @ ''`, restoring as `'' @ expected @ ''`'')"

record roster =
  ro_self_id :: string
  ro_devices :: "(string, device_record) btree"
  ro_tombstones :: "(string, tombstone) btree"
  ro_epoch :: u64
  ro_churn :: churn_log
  ro_held :: "(string, held_admission) btree"
  ro_removed_me :: "(string, unit) btree"

section \<open>Queries\<close>

definition active :: "roster \<Rightarrow> device_record list" where
  "active r = filter record_is_active (bt_values (ro_devices r))"

definition active_count :: "roster \<Rightarrow> nat" where
  "active_count r = length (filter record_is_active (bt_values (ro_devices r)))"

definition is_active :: "roster \<Rightarrow> string \<Rightarrow> bool" where
  "is_active r device_id =
     (case bt_get (ro_devices r) device_id of None \<Rightarrow> False | Some d \<Rightarrow> record_is_active d)"

definition identity_of :: "crypto \<Rightarrow> roster \<Rightarrow> string \<Rightarrow> identity_public_key option" where
  "identity_of cr r device_id =
     (case bt_get (ro_devices r) device_id of
        None \<Rightarrow> None
      | Some d \<Rightarrow>
          if \<not> record_is_active d then None
          else (case public_from_base64 cr (dr_identity_pk d) of Inl _ \<Rightarrow> None | Inr k \<Rightarrow> Some k))"

definition tombstones :: "roster \<Rightarrow> tombstone list" where
  "tombstones r = bt_values (ro_tombstones r)"

definition held_admissions :: "roster \<Rightarrow> held_admission list" where
  "held_admissions r = bt_values (ro_held r)"

definition removed_me_by :: "roster \<Rightarrow> string list" where
  "removed_me_by r = bt_keys (ro_removed_me r)"

definition splits :: "roster \<Rightarrow> string list" where
  "splits r = filter (\<lambda>peer. bt_contains (ro_tombstones r) peer) (bt_keys (ro_removed_me r))"

section \<open>Internals\<close>

definition parse_identity :: "crypto \<Rightarrow> string \<Rightarrow> vouch_refusal + identity_public_key" where
  "parse_identity cr encoded = map_err (\<lambda>_. MalformedIdentityKey) (public_from_base64 cr encoded)"

definition verify_vouch ::
  "crypto \<Rightarrow> identity_public_key \<Rightarrow> roster_introduce \<Rightarrow> vouch_refusal + unit" where
  "verify_vouch cr introducer m =
     map_err (\<lambda>_. BadVouchSignature)
       (identity_verify cr introducer PurposeVouch (Inr (vouch_payload m)) (ri_vouch m))"

definition digest_of :: "crypto \<Rightarrow> u64 \<Rightarrow> sync_device list \<Rightarrow> string" where
  "digest_of cr epoch devices =
     (let payload = sync_payload \<lparr>rs_epoch = epoch, rs_devices = devices, rs_digest = []\<rparr>;
          canonical = (case to_canonical_json (cr_to_vec cr) (Inr payload) of
                         Inl _ \<Rightarrow> [] | Inr b \<Rightarrow> b)
      in hex_lower (cr_sha256 cr canonical))"

definition timestamp_or :: "string \<Rightarrow> system_time \<Rightarrow> system_time" where
  "timestamp_or text now = (case parse_rfc3339 text of None \<Rightarrow> now | Some t \<Rightarrow> t)"

definition split_ledger :: "roster \<Rightarrow> string \<Rightarrow> ledger_entry list" where
  "split_ledger r peer =
     (if bt_contains (ro_removed_me r) peer \<and> bt_contains (ro_tombstones r) peer
      then [le_local peer (EvFamilySplit peer)] else [])"

definition set_state :: "device_state \<Rightarrow> string \<Rightarrow> (string, device_record) btree
    \<Rightarrow> (string, device_record) btree" where
  "set_state s device_id devices =
     (case bt_get devices device_id of
        None \<Rightarrow> devices
      | Some d \<Rightarrow> bt_insert device_id (d\<lparr>dr_state := s\<rparr>) devices)"

definition apply_tombstone ::
  "roster \<Rightarrow> string \<Rightarrow> removal_reason \<Rightarrow> string \<Rightarrow> string \<Rightarrow> u64 \<Rightarrow> roster \<times> ledger_entry list"
where
  "apply_tombstone r subject reason removed_at removed_by epoch =
     (let t = \<lparr>ts_subject = subject, ts_reason = reason, ts_removed_at = removed_at,
               ts_removed_by = removed_by, ts_epoch = epoch\<rparr>;
          r = r\<lparr>ro_tombstones := bt_insert subject t (ro_tombstones r)\<rparr>;
          r = r\<lparr>ro_devices := set_state DsRemoved subject (ro_devices r)\<rparr>;
          r = r\<lparr>ro_churn := churn_forget (ro_churn r) subject\<rparr>;
          r = r\<lparr>ro_held := bt_remove subject (ro_held r)\<rparr>;
          r = r\<lparr>ro_epoch := max (ro_epoch r) epoch\<rparr>
      in (r, [le_inbound subject None (EvDeviceRemoved removed_by reason),
              le_local subject (EvEpochBumped (ro_epoch r))] @ split_ledger r subject))"

definition admit :: "roster \<Rightarrow> vouched_subject \<Rightarrow> string \<Rightarrow> roster \<times> ledger_entry list" where
  "admit r subject introduced_by =
     (r\<lparr>ro_devices := bt_insert (vs_device_id subject) (from_vouch subject introduced_by)
                        (ro_devices r)\<rparr>,
      [le_inbound (vs_device_id subject) None (EvDeviceJoined introduced_by)])"

definition refuse_vouch :: "roster \<Rightarrow> string \<Rightarrow> vouch_refusal \<Rightarrow> roster \<times> admission applied" where
  "refuse_vouch r subject refusal =
     (r, applied (AdmissionRefused refusal)
           [le_inbound subject None (EvVouchRejected (display_vouch_refusal refusal))])"

section \<open>Founding and adopting\<close>

definition found :: "crypto \<Rightarrow> self_description \<Rightarrow> identity_key \<Rightarrow> roster applied" where
  "found cr me k =
     (let d = \<lparr>dr_device_id = me_device_id me,
               dr_identity_pk = public_to_base64 cr (identity_public_key cr k),
               dr_display_name = me_display_name me, dr_member_group = me_member_group me,
               dr_role = me_role me, dr_joined_at = me_joined_at me,
               dr_introduced_by = me_device_id me, dr_state = DsActive\<rparr>
      in applied
           \<lparr>ro_self_id = me_device_id me, ro_devices = bt_insert (me_device_id me) d bt_empty,
            ro_tombstones = bt_empty, ro_epoch = 0, ro_churn = churn_new, ro_held = bt_empty,
            ro_removed_me = bt_empty\<rparr>
           [le_local (me_device_id me) (EvDeviceJoined (me_device_id me))])"

definition adopt ::
  "crypto \<Rightarrow> string \<Rightarrow> device_record \<Rightarrow> device_record list \<Rightarrow> tombstone list \<Rightarrow> u64
     \<Rightarrow> roster_introduce \<Rightarrow> vouch_refusal + roster applied"
where
  "adopt cr self_id introducer their_devices their_tombstones their_epoch vouch_for_me =
     (if vs_device_id (ri_subject vouch_for_me) \<noteq> self_id
      then Inl (SelfVouch (vs_device_id (ri_subject vouch_for_me)))
      else
        rbind (parse_identity cr (dr_identity_pk introducer)) (\<lambda>introducer_key.
        rbind (verify_vouch cr introducer_key vouch_for_me) (\<lambda>_.
          let tombstones = bt_of_list (map (\<lambda>t. (ts_subject t, t)) their_tombstones)
          in if bt_contains tombstones self_id then Inl (SubjectTombstoned self_id)
             else
               (let devices = bt_of_list (map (\<lambda>d. (dr_device_id d, d)) their_devices);
                    ledger = map (\<lambda>d. le_inbound (dr_device_id d) None
                                        (EvDeviceJoined (dr_introduced_by d))) their_devices
                             @ [le_local self_id (EvDeviceJoined (dr_device_id introducer))];
                    mine = from_vouch (ri_subject vouch_for_me) (dr_device_id introducer);
                    devices = bt_insert self_id mine devices;
                    devices = (if bt_contains devices (dr_device_id introducer) then devices
                               else bt_insert (dr_device_id introducer) introducer devices)
                in Inr (applied
                     \<lparr>ro_self_id = self_id, ro_devices = devices, ro_tombstones = tombstones,
                      ro_epoch = their_epoch, ro_churn = churn_new, ro_held = bt_empty,
                      ro_removed_me = bt_empty\<rparr>
                     ledger)))))"

section \<open>Producing messages\<close>

definition vouch_for ::
  "crypto \<Rightarrow> roster \<Rightarrow> vouched_subject \<Rightarrow> identity_key \<Rightarrow> vouch_refusal + roster_introduce"
where
  "vouch_for cr r subject k =
     (if bt_contains (ro_tombstones r) (vs_device_id subject)
      then Inl (SubjectTombstoned (vs_device_id subject))
      else
        rbind (parse_identity cr (vs_identity_pk subject)) (\<lambda>_.
          if \<not> is_active r (vs_device_id subject) \<and> active_count r \<ge> max_active_devices
          then Inl (SizeCapReached (active_count r))
          else
            (let m = \<lparr>ri_subject = subject, ri_epoch = ro_epoch r, ri_vouch = []\<rparr>
             in rbind (map_err (\<lambda>_. MalformedIdentityKey)
                        (identity_sign cr k PurposeVouch (Inr (vouch_payload m))))
                  (\<lambda>vouch. Inr (m\<lparr>ri_vouch := vouch\<rparr>)))))"

definition remove ::
  "crypto \<Rightarrow> roster \<Rightarrow> string \<Rightarrow> removal_reason \<Rightarrow> string \<Rightarrow> identity_key \<Rightarrow> system_time
     \<Rightarrow> roster \<times> (removal_refusal + roster_remove applied)"
where
  "remove cr r subject reason removed_at k now =
     (if \<not> is_active r (ro_self_id r) then (r, Inl (RemoverNotActive (ro_self_id r)))
      else
        (let epoch = ro_epoch r + 1;
             unsigned = \<lparr>rr_subject = subject, rr_reason = reason, rr_removed_at = removed_at,
                         rr_epoch = epoch, rr_sig = []\<rparr>
         in case identity_sign cr k PurposeRemoval (Inr (removal_payload unsigned)) of
              Inl _ \<Rightarrow> (r, Inl BadRemovalSignature)
            | Inr sig \<Rightarrow>
                (let r1 = (if subject = ro_self_id r then r
                           else r\<lparr>ro_churn := churn_record (ro_churn r) (ro_self_id r)
                                                (timestamp_or removed_at now) now\<rparr>);
                     (r2, ledger) = apply_tombstone r1 subject reason removed_at (ro_self_id r) epoch
                 in (r2, Inr (applied (unsigned\<lparr>rr_sig := sig\<rparr>) ledger)))))"

definition sync_devices :: "roster \<Rightarrow> sync_device list" where
  "sync_devices r =
     map (\<lambda>d. \<lparr>sd_device_id = dr_device_id d, sd_identity_pk = dr_identity_pk d,
                sd_state = dr_state d\<rparr>)
       (bt_values (ro_devices r))"

definition sync :: "crypto \<Rightarrow> roster \<Rightarrow> roster_sync" where
  "sync cr r = \<lparr>rs_epoch = ro_epoch r, rs_devices = sync_devices r,
                rs_digest = digest_of cr (ro_epoch r) (sync_devices r)\<rparr>"

section \<open>Receiving messages\<close>

definition receive_introduce ::
  "crypto \<Rightarrow> roster \<Rightarrow> roster_introduce \<Rightarrow> string \<Rightarrow> system_time \<Rightarrow> roster \<times> admission applied"
where
  "receive_introduce cr r m introducer now =
     (let subject = ri_subject m;
          subject_id = vs_device_id subject
      in if \<not> is_active r introducer
         then refuse_vouch r subject_id (IntroducerNotActive introducer)
         else if bt_contains (ro_tombstones r) subject_id
         then refuse_vouch r subject_id (SubjectTombstoned subject_id)
         else if subject_id = introducer
         then refuse_vouch r subject_id (SelfVouch subject_id)
         else if (case bt_get (ro_devices r) subject_id of
                    None \<Rightarrow> False
                  | Some existing \<Rightarrow> dr_identity_pk existing \<noteq> vs_identity_pk subject)
         then refuse_vouch r subject_id (IdentityChanged subject_id)
         else if \<not> is_active r subject_id \<and> active_count r \<ge> max_active_devices
         then refuse_vouch r subject_id (SizeCapReached (active_count r))
         else
           (case ok_or MalformedIdentityKey (identity_of cr r introducer) of
              Inl refusal \<Rightarrow> refuse_vouch r subject_id refusal
            | Inr introducer_key \<Rightarrow>
                (case verify_vouch cr introducer_key m of
                   Inl refusal \<Rightarrow> refuse_vouch r subject_id refusal
                 | Inr _ \<Rightarrow>
                     (case parse_identity cr (vs_identity_pk subject) of
                        Inl refusal \<Rightarrow> refuse_vouch r subject_id refusal
                      | Inr _ \<Rightarrow>
                          if is_active r subject_id then (r, applied AlreadyKnown [])
                          else if would_exceed (ro_churn r) introducer now then
                            (let n = count_in_window (ro_churn r) introducer now;
                                 h = \<lparr>ha_message = m, ha_introducer = introducer,
                                      ha_events_in_window = n\<rparr>
                             in (r\<lparr>ro_held := bt_insert subject_id h (ro_held r)\<rparr>,
                                 applied (Held n)
                                   [le_inbound subject_id None (EvAdmissionHeld n)]))
                          else
                            (let signed_at = timestamp_or (vs_joined_at subject) now;
                                 r1 = r\<lparr>ro_churn := churn_record (ro_churn r) introducer
                                                       signed_at now\<rparr>;
                                 (r2, ledger) = admit r1 subject introducer
                             in (r2, applied Admitted ledger))))))"

definition approve_refused :: "roster \<Rightarrow> string \<Rightarrow> vouch_refusal \<Rightarrow> roster \<times> admission option applied"
where
  "approve_refused r subject refusal =
     (r, applied (Some (AdmissionRefused refusal))
           [le_inbound subject None (EvAdmissionResolved False),
            le_inbound subject None (EvVouchRejected (display_vouch_refusal refusal))])"

definition approve_held :: "roster \<Rightarrow> string \<Rightarrow> roster \<times> admission option applied" where
  "approve_held r subject =
     (case bt_get (ro_held r) subject of
        None \<Rightarrow> (r, applied None [])
      | Some h \<Rightarrow>
          (let r = r\<lparr>ro_held := bt_remove subject (ro_held r)\<rparr>
           in if \<not> is_active r (ha_introducer h)
              then approve_refused r subject (IntroducerNotActive (ha_introducer h))
              else if bt_contains (ro_tombstones r) subject
              then approve_refused r subject (SubjectTombstoned subject)
              else
                (let (r2, ledger) = admit r (ri_subject (ha_message h)) (ha_introducer h)
                 in (r2, applied (Some Admitted)
                       (le_inbound subject None (EvAdmissionResolved True) # ledger)))))"

definition deny_held :: "roster \<Rightarrow> string \<Rightarrow> roster \<times> bool applied" where
  "deny_held r subject =
     (if \<not> bt_contains (ro_held r) subject then (r, applied False [])
      else (r\<lparr>ro_held := bt_remove subject (ro_held r)\<rparr>,
            applied True [le_inbound subject None (EvAdmissionResolved False)]))"

definition refuse_removal :: "roster \<Rightarrow> string \<Rightarrow> removal_refusal \<Rightarrow> string \<Rightarrow> roster \<times> removal applied"
where
  "refuse_removal r subject refusal reason =
     (r, applied (RemovalRefused refusal) [le_inbound subject None (EvVouchRejected reason)])"

definition receive_removal_of_self ::
  "crypto \<Rightarrow> roster \<Rightarrow> roster_remove \<Rightarrow> string \<Rightarrow> roster \<times> removal applied"
where
  "receive_removal_of_self cr r m remover =
     (case (case bt_get (ro_devices r) remover of
              None \<Rightarrow> None
            | Some d \<Rightarrow> (case public_from_base64 cr (dr_identity_pk d) of
                           Inl _ \<Rightarrow> None | Inr k \<Rightarrow> Some k)) of
        None \<Rightarrow> refuse_removal r (rr_subject m) (RemoverNotActive remover)
                  (''`'' @ remover @ ''` is not in this family'')
      | Some key \<Rightarrow>
          if \<not> is_ok (identity_verify cr key PurposeRemoval (Inr (removal_payload m)) (rr_sig m))
          then refuse_removal r (rr_subject m) BadRemovalSignature
                 (display_removal_refusal BadRemovalSignature)
          else
            (let r = r\<lparr>ro_removed_me := bt_insert remover () (ro_removed_me r)\<rparr>;
                 r = r\<lparr>ro_epoch := max (ro_epoch r) (rr_epoch m)\<rparr>
             in (r, applied AboutSelf
                   (le_inbound remover None (EvDeviceRemoved remover (rr_reason m))
                    # split_ledger r remover))))"

definition receive_remove ::
  "crypto \<Rightarrow> roster \<Rightarrow> roster_remove \<Rightarrow> string \<Rightarrow> system_time \<Rightarrow> roster \<times> removal applied"
where
  "receive_remove cr r m remover now =
     (if rr_subject m = ro_self_id r then receive_removal_of_self cr r m remover
      else if \<not> is_active r remover
      then refuse_removal r (rr_subject m) (RemoverNotActive remover)
             (display_removal_refusal (RemoverNotActive remover))
      else
        (case identity_of cr r remover of
           None \<Rightarrow> refuse_removal r (rr_subject m) BadRemovalSignature
                     (display_removal_refusal BadRemovalSignature)
         | Some remover_key \<Rightarrow>
             if \<not> is_ok (identity_verify cr remover_key PurposeRemoval
                          (Inr (removal_payload m)) (rr_sig m))
             then refuse_removal r (rr_subject m) BadRemovalSignature
                    (display_removal_refusal BadRemovalSignature)
             else
               (let signed_at = timestamp_or (rr_removed_at m) now;
                    r1 = (if rr_subject m = remover then r
                          else r\<lparr>ro_churn := churn_record (ro_churn r) remover signed_at now\<rparr>)
                in if bt_contains (ro_tombstones r1) (rr_subject m)
                   then (r1, applied AlreadyRemoved [])
                   else
                     (let (r2, ledger) = apply_tombstone r1 (rr_subject m) (rr_reason m)
                                           (rr_removed_at m) remover (rr_epoch m)
                      in (r2, applied RemovalApplied ledger)))))"

text \<open>One entry of a sync: what it changes, the anomaly it is, the removals it counts for.\<close>

definition merge_reported ::
  "roster \<Rightarrow> u64 \<Rightarrow> string \<Rightarrow> sync_device \<Rightarrow> roster \<times> string list \<times> nat \<times> ledger_entry list"
where
  "merge_reported r message_epoch sender reported =
     (case bt_get (ro_devices r) (sd_device_id reported) of
        None \<Rightarrow>
          if \<not> bt_contains (ro_tombstones r) (sd_device_id reported)
          then (r, [sd_device_id reported], 0,
                [le_inbound (sd_device_id reported) None
                   (EvVouchRejected (''`'' @ sender @ ''` knows `'' @ sd_device_id reported
                      @ ''`, which no vouch has admitted here''))])
          else (r, [], 0, [])
      | Some _ \<Rightarrow>
          if sd_state reported = DsRemoved then
            (if sd_device_id reported = ro_self_id r
             then (let r1 = r\<lparr>ro_removed_me := bt_insert sender () (ro_removed_me r)\<rparr>
                   in (r1, [], 0, split_ledger r1 sender))
             else if \<not> bt_contains (ro_tombstones r) (sd_device_id reported)
             then (let epoch = max (ro_epoch r) message_epoch;
                       (r1, ledger) = apply_tombstone r (sd_device_id reported) RrRemoved []
                                        sender epoch
                   in (r1, [], 1, ledger))
             else (r, [], 0, []))
          else (r, [], 0, []))"

fun merge_devices ::
  "roster \<Rightarrow> u64 \<Rightarrow> string \<Rightarrow> sync_device list \<Rightarrow> roster \<times> string list \<times> nat \<times> ledger_entry list"
where
  "merge_devices r message_epoch sender [] = (r, [], 0, [])"
| "merge_devices r message_epoch sender (d # ds) =
     (let (r1, anomalies1, n1, ledger1) = merge_reported r message_epoch sender d;
          (r2, anomalies2, n2, ledger2) = merge_devices r1 message_epoch sender ds
      in (r2, anomalies1 @ anomalies2, n1 + n2, ledger1 @ ledger2))"

definition receive_sync ::
  "crypto \<Rightarrow> roster \<Rightarrow> roster_sync \<Rightarrow> string \<Rightarrow> roster \<times> sync_outcome applied"
where
  "receive_sync cr r m sender =
     (if digest_of cr (rs_epoch m) (rs_devices m) \<noteq> rs_digest m then (r, applied BadDigest [])
      else if \<not> is_active r sender then (r, applied (SyncRefused sender) [])
      else if rs_epoch m = ro_epoch r \<and> rs_devices m = sync_devices r then (r, applied InSync [])
      else
        (let (r1, anomalies, removals_applied, ledger) =
               merge_devices r (rs_epoch m) sender (rs_devices m);
             (r2, ledger2) =
               (if rs_epoch m > ro_epoch r1
                then (r1\<lparr>ro_epoch := rs_epoch m\<rparr>,
                      ledger @ [le_inbound sender None (EvEpochBumped (rs_epoch m))])
                else (r1, ledger))
         in (r2, applied (Merged removals_applied anomalies) ledger2)))"

section \<open>Labels and the server's list\<close>

definition relabel :: "string \<Rightarrow> string \<Rightarrow> string option \<Rightarrow> string \<Rightarrow> string \<times> ledger_entry list" where
  "relabel device_id field new current =
     (case new of
        None \<Rightarrow> (current, [])
      | Some n \<Rightarrow>
          if n \<noteq> current then (n, [le_inbound device_id None (EvLabelsChanged field n)])
          else (current, []))"

definition update_labels ::
  "roster \<Rightarrow> string \<Rightarrow> string option \<Rightarrow> string option \<Rightarrow> string option \<Rightarrow> roster \<times> bool applied"
where
  "update_labels r device_id display_name member_group role =
     (case bt_get (ro_devices r) device_id of
        None \<Rightarrow> (r, applied False [])
      | Some d \<Rightarrow>
          (let (dn, l1) = relabel device_id ''display_name'' display_name (dr_display_name d);
               (mg, l2) = relabel device_id ''member_group'' member_group (dr_member_group d);
               (ro, l3) = relabel device_id ''role'' role (dr_role d);
               d' = d\<lparr>dr_display_name := dn, dr_member_group := mg, dr_role := ro\<rparr>;
               ledger = l1 @ l2 @ l3
           in (r\<lparr>ro_devices := bt_insert device_id d' (ro_devices r)\<rparr>,
               applied (ledger \<noteq> []) ledger)))"

definition reconcile_one ::
  "roster \<Rightarrow> server_device \<Rightarrow> roster \<times> server_finding list \<times> ledger_entry list"
where
  "reconcile_one r device =
     (case bt_get (ro_devices r) (sv_device_id device) of
        None \<Rightarrow> (r, [Unvouched (sv_device_id device)],
                 [le_local (sv_device_id device) EvUnvouchedDeviceListed])
      | Some d \<Rightarrow>
          if sv_revoked device \<and> record_is_active d
          then (r\<lparr>ro_devices := set_state DsRemoved (sv_device_id device) (ro_devices r)\<rparr>,
                [RevokedByServer (sv_device_id device)],
                [le_local (sv_device_id device) (EvDeviceRemoved ''server'' RrRemoved)])
          else if \<not> sv_revoked device \<and> record_is_active d
          then (r, [FindingNormal (sv_device_id device)], [])
          else (r, [], []))"

fun reconcile_listed ::
  "roster \<Rightarrow> server_device list \<Rightarrow> roster \<times> server_finding list \<times> ledger_entry list"
where
  "reconcile_listed r [] = (r, [], [])"
| "reconcile_listed r (d # ds) =
     (let (r1, f1, l1) = reconcile_one r d;
          (r2, f2, l2) = reconcile_listed r1 ds
      in (r2, f1 @ f2, l1 @ l2))"

definition unreachable :: "roster \<Rightarrow> string list \<Rightarrow> server_finding list" where
  "unreachable r seen =
     map (\<lambda>d. Unreachable (dr_device_id d))
       (filter (\<lambda>d. record_is_active d \<and> dr_device_id d \<notin> set seen) (bt_values (ro_devices r)))"

definition reconcile_server_list ::
  "roster \<Rightarrow> server_device list \<Rightarrow> roster \<times> server_finding list applied"
where
  "reconcile_server_list r listed =
     (let (r1, findings, ledger) = reconcile_listed r listed
      in (r1, applied (findings @ unreachable r1 (map sv_device_id listed)) ledger))"

section \<open>Persistence\<close>

definition roster_export :: "roster \<Rightarrow> roster_snapshot" where
  "roster_export r =
     \<lparr>sn_v = roster_snapshot_version, sn_self_id = ro_self_id r,
      sn_devices = bt_values (ro_devices r), sn_tombstones = bt_values (ro_tombstones r),
      sn_epoch = ro_epoch r, sn_churn = ro_churn r, sn_held = bt_values (ro_held r),
      sn_removed_me = bt_keys (ro_removed_me r)\<rparr>"

definition roster_import :: "roster_snapshot \<Rightarrow> string \<Rightarrow> snapshot_error + roster" where
  "roster_import s self_id =
     (if sn_v s \<noteq> roster_snapshot_version then Inl (SnUnsupportedVersion (sn_v s))
      else if sn_self_id s \<noteq> self_id then Inl (SnWrongDevice self_id (sn_self_id s))
      else Inr
        \<lparr>ro_self_id = self_id,
         ro_devices = bt_of_list (map (\<lambda>d. (dr_device_id d, d)) (sn_devices s)),
         ro_tombstones = bt_of_list (map (\<lambda>t. (ts_subject t, t)) (sn_tombstones s)),
         ro_epoch = sn_epoch s, ro_churn = sn_churn s,
         ro_held = bt_of_list (map (\<lambda>h. (vs_device_id (ri_subject (ha_message h)), h)) (sn_held s)),
         ro_removed_me = bt_of_list (map (\<lambda>p. (p, ())) (sn_removed_me s))\<rparr>)"

end
