(* ===== verification/Membership.thy ===== *)
theory Membership
  imports Roster
begin

text \<open>
  The laws of the membership state machine. \<^verbatim>\<open>roster_inv\<close> is the well-formedness of a
  roster, \<^verbatim>\<open>extends\<close> what no operation ever takes back; the locale \<^verbatim>\<open>membership_op\<close>
  is the contract every operation keeps, interpreted below on each operation of
  \<^verbatim>\<open>roster.rs\<close>; the step relation \<^verbatim>\<open>roster_step\<close> and its runs carry the contract to
  whole histories.
\<close>

section \<open>Reading the fields\<close>

lemma bt_get_set_state:
  "bt_get (set_state s i m) k =
     (if k = i then map_option (dr_state_update (\<lambda>_. s)) (bt_get m k) else bt_get m k)"
  by (simp add: set_state_def split: option.split)

lemma bt_contains_set_state [simp]: "bt_contains (set_state s i m) k = bt_contains m k"
  by (simp add: bt_contains_def bt_get_set_state)

lemma is_active_cong: "ro_devices r = ro_devices q \<Longrightarrow> is_active r k = is_active q k"
  by (simp add: is_active_def)

lemma is_active_insert:
  "is_active (r\<lparr>ro_devices := bt_insert i d m\<rparr>) k =
     (if k = i then record_is_active d else is_active (r\<lparr>ro_devices := m\<rparr>) k)"
  by (simp add: is_active_def)

lemma is_active_updates [simp]:
  "is_active (r\<lparr>ro_tombstones := t\<rparr>) k = is_active r k"
  "is_active (r\<lparr>ro_epoch := e\<rparr>) k = is_active r k"
  "is_active (r\<lparr>ro_churn := c\<rparr>) k = is_active r k"
  "is_active (r\<lparr>ro_held := h\<rparr>) k = is_active r k"
  "is_active (r\<lparr>ro_removed_me := x\<rparr>) k = is_active r k"
  by (simp_all add: is_active_def)

lemma is_active_set_state_removed:
  "is_active (r\<lparr>ro_devices := set_state DsRemoved i (ro_devices r)\<rparr>) k \<longleftrightarrow> k \<noteq> i \<and> is_active r k"
  by (auto simp: is_active_def bt_get_set_state record_is_active_def split: option.split)

lemma is_active_contains: "is_active r k \<Longrightarrow> bt_contains (ro_devices r) k"
  by (auto simp: is_active_def bt_contains_def split: option.splits)

text \<open>What \<^verbatim>\<open>apply_tombstone\<close> leaves in each field.\<close>

lemma apply_tombstone_fields [simp]:
  "ro_self_id (fst (apply_tombstone r s why at by e)) = ro_self_id r"
  "ro_tombstones (fst (apply_tombstone r s why at by e)) =
     bt_insert s \<lparr>ts_subject = s, ts_reason = why, ts_removed_at = at, ts_removed_by = by,
       ts_epoch = e\<rparr> (ro_tombstones r)"
  "ro_devices (fst (apply_tombstone r s why at by e)) = set_state DsRemoved s (ro_devices r)"
  "ro_held (fst (apply_tombstone r s why at by e)) = bt_remove s (ro_held r)"
  "ro_epoch (fst (apply_tombstone r s why at by e)) = max (ro_epoch r) e"
  "ro_churn (fst (apply_tombstone r s why at by e)) = churn_forget (ro_churn r) s"
  "ro_removed_me (fst (apply_tombstone r s why at by e)) = ro_removed_me r"
  by (simp_all add: apply_tombstone_def Let_def)

lemma is_active_apply_tombstone [simp]:
  "is_active (fst (apply_tombstone r s why at by e)) k \<longleftrightarrow> k \<noteq> s \<and> is_active r k"
  using is_active_cong [of "fst (apply_tombstone r s why at by e)"
      "r\<lparr>ro_devices := set_state DsRemoved s (ro_devices r)\<rparr>" k]
  by (simp add: is_active_set_state_removed)

lemma admit_fields [simp]:
  "ro_self_id (fst (admit r s i)) = ro_self_id r"
  "ro_tombstones (fst (admit r s i)) = ro_tombstones r"
  "ro_devices (fst (admit r s i)) = bt_insert (vs_device_id s) (from_vouch s i) (ro_devices r)"
  "ro_held (fst (admit r s i)) = ro_held r"
  "ro_epoch (fst (admit r s i)) = ro_epoch r"
  "ro_removed_me (fst (admit r s i)) = ro_removed_me r"
  "ro_churn (fst (admit r s i)) = ro_churn r"
  by (simp_all add: admit_def)

lemma from_vouch_simps [simp]:
  "dr_device_id (from_vouch s i) = vs_device_id s" "record_is_active (from_vouch s i)"
  "dr_identity_pk (from_vouch s i) = vs_identity_pk s" "dr_introduced_by (from_vouch s i) = i"
  by (simp_all add: from_vouch_def record_is_active_def)

lemma is_active_admit [simp]: "is_active (fst (admit r s i)) k \<longleftrightarrow> k = vs_device_id s \<or> is_active r k"
  by (auto simp: admit_def is_active_def)

section \<open>The contract\<close>

definition roster_inv :: "roster \<Rightarrow> bool" where
  "roster_inv r \<longleftrightarrow>
     (\<forall>k d. bt_get (ro_devices r) k = Some d \<longrightarrow> dr_device_id d = k) \<and>
     (\<forall>k t. bt_get (ro_tombstones r) k = Some t \<longrightarrow> ts_subject t = k) \<and>
     (\<forall>k h. bt_get (ro_held r) k = Some h \<longrightarrow> vs_device_id (ri_subject (ha_message h)) = k) \<and>
     (\<forall>k. bt_contains (ro_tombstones r) k \<longrightarrow> \<not> is_active r k \<and> \<not> bt_contains (ro_held r) k) \<and>
     bt_contains (ro_devices r) (ro_self_id r)"

definition extends :: "roster \<Rightarrow> roster \<Rightarrow> bool" where
  "extends r r' \<longleftrightarrow>
     ro_self_id r' = ro_self_id r \<and> ro_epoch r \<le> ro_epoch r' \<and>
     (\<forall>k. bt_contains (ro_tombstones r) k \<longrightarrow> bt_contains (ro_tombstones r') k) \<and>
     (\<forall>k. bt_contains (ro_devices r) k \<longrightarrow> bt_contains (ro_devices r') k) \<and>
     (\<forall>k. bt_contains (ro_removed_me r) k \<longrightarrow> bt_contains (ro_removed_me r') k)"

lemma roster_invI:
  assumes "\<And>k d. bt_get (ro_devices r) k = Some d \<Longrightarrow> dr_device_id d = k"
    and "\<And>k t. bt_get (ro_tombstones r) k = Some t \<Longrightarrow> ts_subject t = k"
    and "\<And>k h. bt_get (ro_held r) k = Some h \<Longrightarrow> vs_device_id (ri_subject (ha_message h)) = k"
    and "\<And>k. bt_contains (ro_tombstones r) k \<Longrightarrow> \<not> is_active r k"
    and "\<And>k. bt_contains (ro_tombstones r) k \<Longrightarrow> \<not> bt_contains (ro_held r) k"
    and "bt_contains (ro_devices r) (ro_self_id r)"
  shows "roster_inv r"
  using assms by (auto simp: roster_inv_def)

lemma roster_invD:
  assumes "roster_inv r"
  shows "\<And>k d. bt_get (ro_devices r) k = Some d \<Longrightarrow> dr_device_id d = k"
    and "\<And>k t. bt_get (ro_tombstones r) k = Some t \<Longrightarrow> ts_subject t = k"
    and "\<And>k h. bt_get (ro_held r) k = Some h \<Longrightarrow> vs_device_id (ri_subject (ha_message h)) = k"
    and "\<And>k. bt_contains (ro_tombstones r) k \<Longrightarrow> \<not> is_active r k"
    and "\<And>k. bt_contains (ro_tombstones r) k \<Longrightarrow> \<not> bt_contains (ro_held r) k"
    and "bt_contains (ro_devices r) (ro_self_id r)"
  using assms by (auto simp: roster_inv_def)

lemma extends_refl [simp, intro]: "extends r r"
  by (simp add: extends_def)

lemma extends_trans [trans]: "extends r q \<Longrightarrow> extends q s \<Longrightarrow> extends r s"
  unfolding extends_def by (metis order_trans)

locale membership_op =
  fixes run :: "roster \<Rightarrow> roster"
  assumes keeps_inv: "roster_inv r \<Longrightarrow> roster_inv (run r)"
    and run_extends: "extends r (run r)"
begin

lemma tombstone_stays: "bt_contains (ro_tombstones r) k \<Longrightarrow> bt_contains (ro_tombstones (run r)) k"
  using run_extends [of r] by (simp add: extends_def)

lemma tombstoned_stays_out:
  "roster_inv r \<Longrightarrow> bt_contains (ro_tombstones r) k \<Longrightarrow> \<not> is_active (run r) k"
  by (metis keeps_inv roster_invD(4) tombstone_stays)

lemma epoch_monotone: "ro_epoch r \<le> ro_epoch (run r)"
  using run_extends [of r] by (simp add: extends_def)

lemma iterated: "roster_inv r \<Longrightarrow> roster_inv ((run ^^ n) r) \<and> extends r ((run ^^ n) r)"
  by (induction n) (auto intro: keeps_inv extends_trans run_extends)

end

section \<open>The operations keep it\<close>

lemma apply_tombstone_inv:
  assumes "roster_inv r"
  shows "roster_inv (fst (apply_tombstone r s why at by e))"
proof (rule roster_invI)
  fix k d
  assume "bt_get (ro_devices (fst (apply_tombstone r s why at by e))) k = Some d"
  then show "dr_device_id d = k"
    using roster_invD(1) [OF assms] by (auto simp: bt_get_set_state split: if_splits)
qed (use roster_invD [OF assms] in \<open>auto split: if_splits\<close>)

lemma apply_tombstone_extends: "extends r (fst (apply_tombstone r s why at by e))"
  by (simp add: extends_def)

lemma admit_inv:
  assumes "roster_inv r" and "\<not> bt_contains (ro_tombstones r) (vs_device_id s)"
  shows "roster_inv (fst (admit r s i))"
  by (rule roster_invI) (use roster_invD [OF assms(1)] assms(2) in \<open>auto split: if_splits\<close>)

lemma admit_extends: "extends r (fst (admit r s i))"
  by (simp add: extends_def)

lemma inv_churn [simp]: "roster_inv (r\<lparr>ro_churn := c\<rparr>) = roster_inv r"
  by (simp add: roster_inv_def)

lemma inv_epoch [simp]: "roster_inv (r\<lparr>ro_epoch := e\<rparr>) = roster_inv r"
  by (simp add: roster_inv_def)

lemma inv_removed_me [simp]: "roster_inv (r\<lparr>ro_removed_me := x\<rparr>) = roster_inv r"
  by (simp add: roster_inv_def)

lemma inv_unhold: "roster_inv r \<Longrightarrow> roster_inv (r\<lparr>ro_held := bt_remove s (ro_held r)\<rparr>)"
  by (auto simp: roster_inv_def split: if_splits)

lemma extends_churn [simp]: "extends r (q\<lparr>ro_churn := c\<rparr>) = extends r q"
  by (simp add: extends_def)

lemma extends_held [simp]: "extends r (q\<lparr>ro_held := h\<rparr>) = extends r q"
  by (simp add: extends_def)

lemma extends_from_held [simp]: "extends (r\<lparr>ro_held := h\<rparr>) q = extends r q"
  by (simp add: extends_def)

lemma extends_from_churn [simp]: "extends (r\<lparr>ro_churn := c\<rparr>) q = extends r q"
  by (simp add: extends_def)

subsection \<open>Admission\<close>

text \<open>
  The rules a vouch is held to, in the order the code checks them: the first one violated, if
  any. It is a specification of the refusals alone; \<^verbatim>\<open>receive_introduce_eq\<close> shows that the
  code refuses by it and acts otherwise.
\<close>

definition vouch_violation :: "crypto \<Rightarrow> roster \<Rightarrow> roster_introduce \<Rightarrow> string \<Rightarrow> vouch_refusal option"
where
  "vouch_violation cr r m introducer =
     (let sid = vs_device_id (ri_subject m);
          first = (\<lambda>rules. map_option snd (find fst rules))
      in first
           [(\<not> is_active r introducer, IntroducerNotActive introducer),
            (bt_contains (ro_tombstones r) sid, SubjectTombstoned sid),
            (sid = introducer, SelfVouch sid),
            (map_option dr_identity_pk (bt_get (ro_devices r) sid)
               \<notin> {None, Some (vs_identity_pk (ri_subject m))}, IdentityChanged sid),
            (\<not> is_active r sid \<and> active_count r \<ge> max_active_devices,
             SizeCapReached (active_count r)),
            (identity_of cr r introducer = None, MalformedIdentityKey),
            (\<not> is_ok (verify_vouch cr (the (identity_of cr r introducer)) m), BadVouchSignature),
            (\<not> is_ok (parse_identity cr (vs_identity_pk (ri_subject m))), MalformedIdentityKey)])"

lemma verify_vouch_cases: "verify_vouch cr k m = Inr () \<or> verify_vouch cr k m = Inl BadVouchSignature"
  by (cases "identity_verify cr k PurposeVouch (Inr (vouch_payload m)) (ri_vouch m)")
    (auto simp: verify_vouch_def)

lemma parse_identity_cases:
  "(\<exists>k. parse_identity cr s = Inr k) \<or> parse_identity cr s = Inl MalformedIdentityKey"
  by (cases "public_from_base64 cr s") (auto simp: parse_identity_def)

definition quarantine :: "roster \<Rightarrow> roster_introduce \<Rightarrow> string \<Rightarrow> nat \<Rightarrow> roster" where
  "quarantine r m introducer n =
     r\<lparr>ro_held := bt_insert (vs_device_id (ri_subject m))
         \<lparr>ha_message = m, ha_introducer = introducer, ha_events_in_window = n\<rparr> (ro_held r)\<rparr>"

definition charge :: "roster \<Rightarrow> string \<Rightarrow> string \<Rightarrow> system_time \<Rightarrow> roster" where
  "charge r signer signed_at now =
     r\<lparr>ro_churn := churn_record (ro_churn r) signer (timestamp_or signed_at now) now\<rparr>"

lemma receive_introduce_eq:
  "receive_introduce cr r m introducer now =
     (let sid = vs_device_id (ri_subject m);
          n = count_in_window (ro_churn r) introducer now
      in case vouch_violation cr r m introducer of
           Some refusal \<Rightarrow> refuse_vouch r sid refusal
         | None \<Rightarrow>
             if is_active r sid then (r, applied AlreadyKnown [])
             else if would_exceed (ro_churn r) introducer now
             then (quarantine r m introducer n,
                   applied (Held n) [le_inbound sid None (EvAdmissionHeld n)])
             else (fst (admit (charge r introducer (vs_joined_at (ri_subject m)) now)
                          (ri_subject m) introducer),
                   applied Admitted [le_inbound sid None (EvDeviceJoined introducer)]))"
proof -
  have pk: "(case bt_get (ro_devices r) sid of None \<Rightarrow> False | Some e \<Rightarrow> dr_identity_pk e \<noteq> p)
      \<longleftrightarrow> map_option dr_identity_pk (bt_get (ro_devices r) sid) \<notin> {None, Some p}" for sid p
    by (auto split: option.split)
  show ?thesis
    unfolding receive_introduce_def Let_def pk
    using verify_vouch_cases [of cr "the (identity_of cr r introducer)" m]
      parse_identity_cases [of cr "vs_identity_pk (ri_subject m)"]
    by (cases "identity_of cr r introducer")
      (auto simp: vouch_violation_def quarantine_def charge_def admit_def)
qed

lemma vouch_violation_None:
  "vouch_violation cr r m introducer = None \<longleftrightarrow>
     is_active r introducer \<and> \<not> bt_contains (ro_tombstones r) (vs_device_id (ri_subject m)) \<and>
     vs_device_id (ri_subject m) \<noteq> introducer \<and>
     (\<forall>e. bt_get (ro_devices r) (vs_device_id (ri_subject m)) = Some e \<longrightarrow>
        dr_identity_pk e = vs_identity_pk (ri_subject m)) \<and>
     (is_active r (vs_device_id (ri_subject m)) \<or> active_count r < max_active_devices) \<and>
     (\<exists>k. identity_of cr r introducer = Some k \<and> verify_vouch cr k m = Inr ()) \<and>
     (\<exists>k. parse_identity cr (vs_identity_pk (ri_subject m)) = Inr k)"
  using verify_vouch_cases [of cr "the (identity_of cr r introducer)" m]
    parse_identity_cases [of cr "vs_identity_pk (ri_subject m)"]
  by (cases "bt_get (ro_devices r) (vs_device_id (ri_subject m))")
    (auto simp: vouch_violation_def Let_def not_le)

lemma refuse_vouch_fst [simp]: "fst (refuse_vouch r s x) = r"
  by (simp add: refuse_vouch_def)

text \<open>The three ways the roster itself can come out of \<^verbatim>\<open>receive_introduce\<close>.\<close>

lemma receive_introduce_fst:
  "fst (receive_introduce cr r m introducer now) =
     (if vouch_violation cr r m introducer \<noteq> None \<or> is_active r (vs_device_id (ri_subject m)) then r
      else if would_exceed (ro_churn r) introducer now
      then quarantine r m introducer (count_in_window (ro_churn r) introducer now)
      else fst (admit (charge r introducer (vs_joined_at (ri_subject m)) now) (ri_subject m) introducer))"
  by (simp add: receive_introduce_eq Let_def split: option.split)

lemma quarantine_inv:
  assumes "roster_inv r" and "\<not> bt_contains (ro_tombstones r) (vs_device_id (ri_subject m))"
  shows "roster_inv (quarantine r m i n)"
  by (rule roster_invI)
    (use roster_invD [OF assms(1)] assms(2) in \<open>auto simp: quarantine_def split: if_splits\<close>)

lemma charge_simps [simp]:
  "ro_tombstones (charge r s at now) = ro_tombstones r" "ro_devices (charge r s at now) = ro_devices r"
  "ro_held (charge r s at now) = ro_held r" "ro_epoch (charge r s at now) = ro_epoch r"
  "ro_self_id (charge r s at now) = ro_self_id r"
  "ro_removed_me (charge r s at now) = ro_removed_me r"
  "is_active (charge r s at now) k = is_active r k" "roster_inv (charge r s at now) = roster_inv r"
  by (simp_all add: charge_def)

interpretation introduce: membership_op "\<lambda>r. fst (receive_introduce cr r m introducer now)"
  for cr m introducer now
proof
  fix r
  show "roster_inv (fst (receive_introduce cr r m introducer now))" if inv: "roster_inv r"
    using inv admit_inv [of "charge r introducer (vs_joined_at (ri_subject m)) now" "ri_subject m"]
    by (auto simp: receive_introduce_fst vouch_violation_None intro: quarantine_inv)
  show "extends r (fst (receive_introduce cr r m introducer now))"
    by (simp add: receive_introduce_fst quarantine_def extends_def)
qed

lemma approve_refused_fst [simp]: "fst (approve_refused r s x) = r"
  by (simp add: approve_refused_def)

lemma approve_held_fst:
  "fst (approve_held r s) =
     (case bt_get (ro_held r) s of
        None \<Rightarrow> r
      | Some h \<Rightarrow>
          let q = r\<lparr>ro_held := bt_remove s (ro_held r)\<rparr>
          in if is_active r (ha_introducer h) \<and> \<not> bt_contains (ro_tombstones r) s
             then fst (admit q (ri_subject (ha_message h)) (ha_introducer h)) else q)"
  by (simp add: approve_held_def Let_def admit_def split: option.split)

interpretation approve: membership_op "\<lambda>r. fst (approve_held r subject)" for subject
proof
  fix r
  show "roster_inv (fst (approve_held r subject))" if inv: "roster_inv r"
  proof (cases "bt_get (ro_held r) subject")
    case (Some h)
    then have "vs_device_id (ri_subject (ha_message h)) = subject"
      by (rule roster_invD(3) [OF inv])
    with Some inv show ?thesis
      using admit_inv [OF inv_unhold [OF inv, of subject], of "ri_subject (ha_message h)"]
        inv_unhold [OF inv, of subject]
      by (simp add: approve_held_fst Let_def)
  qed (simp add: approve_held_fst inv)
  show "extends r (fst (approve_held r subject))"
    by (auto simp: approve_held_fst Let_def extends_def split: option.split)
qed

lemma deny_held_fst:
  "fst (deny_held r s) = (if bt_contains (ro_held r) s then r\<lparr>ro_held := bt_remove s (ro_held r)\<rparr> else r)"
  by (simp add: deny_held_def)

interpretation deny: membership_op "\<lambda>r. fst (deny_held r subject)" for subject
  by unfold_locales (auto simp: deny_held_fst intro: inv_unhold)

subsection \<open>Removal\<close>

lemma refuse_removal_fst [simp]: "fst (refuse_removal r s x why) = r"
  by (simp add: refuse_removal_def)

definition removal_verifies :: "crypto \<Rightarrow> identity_public_key \<Rightarrow> roster_remove \<Rightarrow> bool" where
  "removal_verifies cr k m \<longleftrightarrow>
     is_ok (identity_verify cr k PurposeRemoval (Inr (removal_payload m)) (rr_sig m))"

definition recorded_key :: "crypto \<Rightarrow> roster \<Rightarrow> string \<Rightarrow> identity_public_key option" where
  "recorded_key cr r device_id =
     Option.bind (bt_get (ro_devices r) device_id)
       (\<lambda>d. case public_from_base64 cr (dr_identity_pk d) of Inl _ \<Rightarrow> None | Inr k \<Rightarrow> Some k)"

lemma identity_of_recorded:
  "identity_of cr r d = (if is_active r d then recorded_key cr r d else None)"
  by (simp add: identity_of_def recorded_key_def is_active_def split: option.split)

lemma receive_removal_of_self_fst:
  "fst (receive_removal_of_self cr r m remover) =
     (case recorded_key cr r remover of
        None \<Rightarrow> r
      | Some k \<Rightarrow>
          if removal_verifies cr k m
          then r\<lparr>ro_removed_me := bt_insert remover () (ro_removed_me r),
                 ro_epoch := max (ro_epoch r) (rr_epoch m)\<rparr>
          else r)"
proof -
  have "(case bt_get (ro_devices r) remover of
           None \<Rightarrow> None
         | Some d \<Rightarrow> (case public_from_base64 cr (dr_identity_pk d) of
                        Inl _ \<Rightarrow> None | Inr k \<Rightarrow> Some k)) = recorded_key cr r remover"
    by (simp add: recorded_key_def split: option.split)
  then show ?thesis
    by (auto simp: receive_removal_of_self_def removal_verifies_def Let_def split: option.split)
qed

text \<open>When the removal of another device is acted on.\<close>

definition removal_accepted :: "crypto \<Rightarrow> roster \<Rightarrow> roster_remove \<Rightarrow> string \<Rightarrow> bool" where
  "removal_accepted cr r m remover \<longleftrightarrow>
     is_active r remover \<and> (\<exists>k. recorded_key cr r remover = Some k \<and> removal_verifies cr k m)"

definition charge_removal :: "roster \<Rightarrow> roster_remove \<Rightarrow> string \<Rightarrow> system_time \<Rightarrow> roster" where
  "charge_removal r m remover now =
     (if rr_subject m = remover then r else charge r remover (rr_removed_at m) now)"

lemma charge_removal_simps [simp]:
  "ro_tombstones (charge_removal r m x now) = ro_tombstones r"
  "ro_devices (charge_removal r m x now) = ro_devices r"
  "ro_held (charge_removal r m x now) = ro_held r"
  "ro_epoch (charge_removal r m x now) = ro_epoch r"
  "ro_self_id (charge_removal r m x now) = ro_self_id r"
  "ro_removed_me (charge_removal r m x now) = ro_removed_me r"
  "is_active (charge_removal r m x now) k = is_active r k"
  "roster_inv (charge_removal r m x now) = roster_inv r"
  by (simp_all add: charge_removal_def)

lemma receive_remove_fst:
  "fst (receive_remove cr r m remover now) =
     (if rr_subject m = ro_self_id r then fst (receive_removal_of_self cr r m remover)
      else if \<not> removal_accepted cr r m remover then r
      else if bt_contains (ro_tombstones r) (rr_subject m) then charge_removal r m remover now
      else fst (apply_tombstone (charge_removal r m remover now) (rr_subject m) (rr_reason m)
             (rr_removed_at m) remover (rr_epoch m)))"
proof (cases "rr_subject m = ro_self_id r \<or> \<not> is_active r remover")
  case True
  then show ?thesis by (auto simp: receive_remove_def removal_accepted_def)
next
  case False
  then have id: "identity_of cr r remover = recorded_key cr r remover"
    by (simp add: identity_of_recorded)
  show ?thesis
  proof (cases "recorded_key cr r remover")
    case None
    with False id show ?thesis by (simp add: receive_remove_def removal_accepted_def)
  next
    case (Some k)
    with False id show ?thesis
      by (simp add: receive_remove_def removal_accepted_def removal_verifies_def Let_def
          charge_removal_def charge_def split: prod.split)
  qed
qed

interpretation removal: membership_op "\<lambda>r. fst (receive_remove cr r m remover now)"
  for cr m remover now
proof
  fix r
  show "roster_inv (fst (receive_remove cr r m remover now))" if inv: "roster_inv r"
    using inv by (auto simp: receive_remove_fst receive_removal_of_self_fst
        intro!: apply_tombstone_inv split: option.split)
  show "extends r (fst (receive_remove cr r m remover now))"
    by (auto simp: receive_remove_fst receive_removal_of_self_fst extends_def split: option.split)
qed

lemma remove_fst:
  "fst (remove cr r s why at k now) =
     (if is_ok (snd (remove cr r s why at k now))
      then fst (apply_tombstone (if s = ro_self_id r then r else charge r (ro_self_id r) at now)
             s why at (ro_self_id r) (ro_epoch r + 1))
      else r)"
  by (simp add: remove_def Let_def charge_def split: sum.split prod.split)

interpretation remove_own: membership_op "\<lambda>r. fst (remove cr r s why at k now)"
  for cr s why at k now
proof
  fix r
  show "roster_inv (fst (remove cr r s why at k now))" if inv: "roster_inv r"
    using inv by (auto simp: remove_fst intro!: apply_tombstone_inv)
  show "extends r (fst (remove cr r s why at k now))"
    by (simp add: remove_fst extends_def)
qed

subsection \<open>Synchronization\<close>

lemma merge_reported_fst:
  "fst (merge_reported r e sender d) =
     (if bt_contains (ro_devices r) (sd_device_id d) \<and> sd_state d = DsRemoved
      then if sd_device_id d = ro_self_id r
           then r\<lparr>ro_removed_me := bt_insert sender () (ro_removed_me r)\<rparr>
           else if bt_contains (ro_tombstones r) (sd_device_id d) then r
           else fst (apply_tombstone r (sd_device_id d) RrRemoved [] sender (max (ro_epoch r) e))
      else r)"
  by (auto simp: merge_reported_def bt_contains_def Let_def split: option.split prod.split)

interpretation merge_one: membership_op "\<lambda>r. fst (merge_reported r e sender d)" for e sender d
proof
  fix r
  show "roster_inv (fst (merge_reported r e sender d))" if inv: "roster_inv r"
    using inv by (auto simp: merge_reported_fst intro!: apply_tombstone_inv)
  show "extends r (fst (merge_reported r e sender d))"
    by (simp add: merge_reported_fst extends_def)
qed

lemma merge_devices_fst:
  "fst (merge_devices r e sender ds) = fold (\<lambda>d r. fst (merge_reported r e sender d)) ds r"
  by (induction ds arbitrary: r) (simp_all add: Let_def case_prod_beta)

lemma merge_devices_keeps:
  "roster_inv r \<Longrightarrow> roster_inv (fst (merge_devices r e sender ds))"
  "extends r (fst (merge_devices r e sender ds))"
  unfolding merge_devices_fst
  by (induction ds arbitrary: r)
    (auto intro: merge_one.keeps_inv extends_trans [OF merge_one.run_extends])

lemma receive_sync_fst:
  "fst (receive_sync cr r m sender) =
     (if digest_of cr (rs_epoch m) (rs_devices m) \<noteq> rs_digest m \<or> \<not> is_active r sender
         \<or> rs_epoch m = ro_epoch r \<and> rs_devices m = sync_devices r
      then r
      else let q = fst (merge_devices r (rs_epoch m) sender (rs_devices m))
           in if ro_epoch q < rs_epoch m then q\<lparr>ro_epoch := rs_epoch m\<rparr> else q)"
  by (simp add: receive_sync_def Let_def split: prod.split)

interpretation synced: membership_op "\<lambda>r. fst (receive_sync cr r m sender)" for cr m sender
proof
  fix r
  show "roster_inv (fst (receive_sync cr r m sender))" if inv: "roster_inv r"
    using merge_devices_keeps(1) [OF inv] inv by (simp add: receive_sync_fst Let_def)
  show "extends r (fst (receive_sync cr r m sender))"
    using merge_devices_keeps(2) [of r "rs_epoch m" sender "rs_devices m"]
    by (auto simp: receive_sync_fst Let_def extends_def)
qed

subsection \<open>Labels and the server's list\<close>

lemma update_labels_fst:
  "fst (update_labels r i dn mg ro) =
     (case bt_get (ro_devices r) i of
        None \<Rightarrow> r
      | Some d \<Rightarrow> r\<lparr>ro_devices := bt_insert i
          (d\<lparr>dr_display_name := fst (relabel i ''display_name'' dn (dr_display_name d)),
             dr_member_group := fst (relabel i ''member_group'' mg (dr_member_group d)),
             dr_role := fst (relabel i ''role'' ro (dr_role d))\<rparr>) (ro_devices r)\<rparr>)"
  by (simp add: update_labels_def Let_def split: option.split prod.split)

lemma is_active_update_labels [simp]:
  "is_active (fst (update_labels r i dn mg ro)) k = is_active r k"
  by (auto simp: update_labels_fst is_active_def record_is_active_def split: option.split)

interpretation labels: membership_op "\<lambda>r. fst (update_labels r i dn mg ro)" for i dn mg ro
proof
  fix r
  show "roster_inv (fst (update_labels r i dn mg ro))" if inv: "roster_inv r"
  proof (rule roster_invI)
    fix k
    assume "bt_contains (ro_tombstones (fst (update_labels r i dn mg ro))) k"
    then have "bt_contains (ro_tombstones r) k"
      by (simp add: update_labels_fst split: option.splits)
    then show "\<not> is_active (fst (update_labels r i dn mg ro)) k"
      using roster_invD(4) [OF inv] by simp
  qed (use roster_invD [OF inv] in \<open>auto simp: update_labels_fst split: option.splits if_splits\<close>)
  show "extends r (fst (update_labels r i dn mg ro))"
    by (auto simp: update_labels_fst extends_def split: option.split)
qed

lemma reconcile_one_fst:
  "fst (reconcile_one r d) =
     (if sv_revoked d \<and> is_active r (sv_device_id d)
      then r\<lparr>ro_devices := set_state DsRemoved (sv_device_id d) (ro_devices r)\<rparr> else r)"
  by (simp add: reconcile_one_def is_active_def split: option.split)

interpretation reconcile_step: membership_op "\<lambda>r. fst (reconcile_one r d)" for d
proof
  fix r
  show "roster_inv (fst (reconcile_one r d))" if inv: "roster_inv r"
  proof (rule roster_invI)
    fix k x
    assume "bt_get (ro_devices (fst (reconcile_one r d))) k = Some x"
    then show "dr_device_id x = k"
      using roster_invD(1) [OF inv]
      by (auto simp: reconcile_one_fst bt_get_set_state split: if_splits)
  next
    fix k
    assume "bt_contains (ro_tombstones (fst (reconcile_one r d))) k"
    then show "\<not> is_active (fst (reconcile_one r d)) k"
      using roster_invD(4) [OF inv]
      by (auto simp: reconcile_one_fst is_active_set_state_removed split: if_splits)
  qed (use roster_invD [OF inv] in \<open>auto simp: reconcile_one_fst split: if_splits\<close>)
  show "extends r (fst (reconcile_one r d))"
    by (simp add: reconcile_one_fst extends_def)
qed

lemma reconcile_server_list_fst:
  "fst (reconcile_server_list r ds) = fold (\<lambda>d r. fst (reconcile_one r d)) ds r"
proof -
  have "fst (reconcile_listed r ds) = fold (\<lambda>d r. fst (reconcile_one r d)) ds r"
    by (induction ds arbitrary: r) (simp_all add: Let_def case_prod_beta)
  then show ?thesis by (simp add: reconcile_server_list_def Let_def case_prod_beta)
qed

interpretation reconcile: membership_op "\<lambda>r. fst (reconcile_server_list r ds)" for ds
proof
  fix r
  show "roster_inv (fst (reconcile_server_list r ds))" if inv: "roster_inv r"
    using inv unfolding reconcile_server_list_fst
    by (induction ds arbitrary: r) (auto intro: reconcile_step.keeps_inv)
  show "extends r (fst (reconcile_server_list r ds))"
    unfolding reconcile_server_list_fst
    by (induction ds arbitrary: r) (auto intro: extends_trans [OF reconcile_step.run_extends])
qed

end
