(* ===== verification/Family.thy ===== *)
theory Family
  imports Membership
begin

text \<open>
  Histories of a family roster. Every operation of \<^verbatim>\<open>roster.rs\<close> that takes
  \<^verbatim>\<open>&mut self\<close> is one constructor of \<^verbatim>\<open>roster_op\<close>; \<^verbatim>\<open>roster_step\<close> runs one, and
  \<^verbatim>\<open>family_state\<close> is what can be reached from founding, adopting and restoring. The
  properties of the membership layer are stated over these: permanence of removal, the chain of
  vouches, the size cap, the ledger, and what a sync or a server list can and cannot do.
\<close>

section \<open>Steps\<close>

datatype roster_op =
    RoIntroduce roster_introduce string system_time
  | RoApprove string
  | RoDeny string
  | RoReceiveRemove roster_remove string system_time
  | RoRemove string removal_reason string identity_key system_time
  | RoSync roster_sync string
  | RoLabels string "string option" "string option" "string option"
  | RoReconcile "server_device list"

definition with_ledger :: "roster \<times> 'a applied \<Rightarrow> roster \<times> ledger_entry list" where
  "with_ledger x = (fst x, ap_ledger (snd x))"

fun step_result :: "crypto \<Rightarrow> roster \<Rightarrow> roster_op \<Rightarrow> roster \<times> ledger_entry list" where
  "step_result cr r (RoIntroduce m i now) = with_ledger (receive_introduce cr r m i now)"
| "step_result cr r (RoApprove s) = with_ledger (approve_held r s)"
| "step_result cr r (RoDeny s) = with_ledger (deny_held r s)"
| "step_result cr r (RoReceiveRemove m x now) = with_ledger (receive_remove cr r m x now)"
| "step_result cr r (RoRemove s why at k now) =
     (case remove cr r s why at k now of
        (r', Inl _) \<Rightarrow> (r', [])
      | (r', Inr a) \<Rightarrow> (r', ap_ledger a))"
| "step_result cr r (RoSync m s) = with_ledger (receive_sync cr r m s)"
| "step_result cr r (RoLabels i dn mg ro) = with_ledger (update_labels r i dn mg ro)"
| "step_result cr r (RoReconcile ds) = with_ledger (reconcile_server_list r ds)"

lemma fst_with_ledger [simp]: "fst (with_ledger x) = fst x"
  by (simp add: with_ledger_def)

lemma step_result_remove_fst [simp]:
  "fst (step_result cr r (RoRemove s why at k now)) = fst (remove cr r s why at k now)"
  by (simp split: prod.split sum.split)

inductive roster_step :: "crypto \<Rightarrow> roster \<Rightarrow> roster_op \<Rightarrow> ledger_entry list \<Rightarrow> roster \<Rightarrow> bool" where
  step: "step_result cr r op = (r', l) \<Longrightarrow> roster_step cr r op l r'"

inductive_cases roster_stepE: "roster_step cr r op l r'"
inductive_simps roster_step_iff: "roster_step cr r op l r'"

inductive roster_run :: "crypto \<Rightarrow> roster \<Rightarrow> roster_op list \<Rightarrow> roster \<Rightarrow> bool" where
  run_nil: "roster_run cr r [] r"
| run_cons: "roster_step cr r op l r' \<Longrightarrow> roster_run cr r' ops r'' \<Longrightarrow> roster_run cr r (op # ops) r''"

inductive_cases roster_run_NilE: "roster_run cr r [] r'"
inductive_cases roster_run_ConsE: "roster_run cr r (op # ops) r'"

interpretation any_step: membership_op "\<lambda>r. fst (step_result cr r op)" for cr op
proof
  fix r
  show "roster_inv (fst (step_result cr r op))" if inv: "roster_inv r"
    by (cases op) (simp_all add: inv introduce.keeps_inv approve.keeps_inv deny.keeps_inv
        removal.keeps_inv remove_own.keeps_inv synced.keeps_inv labels.keeps_inv
        reconcile.keeps_inv del: step_result.simps(5))
  show "extends r (fst (step_result cr r op))"
    by (cases op) (simp_all add: introduce.run_extends approve.run_extends deny.run_extends
        removal.run_extends remove_own.run_extends synced.run_extends labels.run_extends
        reconcile.run_extends del: step_result.simps(5))
qed

lemma roster_step_keeps:
  assumes "roster_step cr r op l r'"
  shows "roster_inv r \<Longrightarrow> roster_inv r'" and "extends r r'"
  using assms any_step.keeps_inv any_step.run_extends
  by (metis fst_conv roster_stepE)+

lemma roster_run_keeps:
  "roster_run cr r ops r' \<Longrightarrow> (roster_inv r \<longrightarrow> roster_inv r') \<and> extends r r'"
proof (induction rule: roster_run.induct)
  case (run_cons cr r op l r' ops r'')
  then show ?case
    using roster_step_keeps [OF run_cons.hyps(1)] extends_trans by blast
qed simp

section \<open>Founding, adopting, restoring\<close>

lemma roster_import_export:
  assumes "roster_inv r"
  shows "roster_import (roster_export r) (ro_self_id r) = Inr r"
proof -
  note D = roster_invD [OF assms]
  have "bt_of_list (map (\<lambda>d. (dr_device_id d, d)) (bt_values (ro_devices r))) = ro_devices r"
    by (rule bt_rebuild) (rule D(1))
  moreover have "bt_of_list (map (\<lambda>t. (ts_subject t, t)) (bt_values (ro_tombstones r)))
      = ro_tombstones r"
    by (rule bt_rebuild) (rule D(2))
  moreover have "bt_of_list (map (\<lambda>h. (vs_device_id (ri_subject (ha_message h)), h))
      (bt_values (ro_held r))) = ro_held r"
    by (rule bt_rebuild) (rule D(3))
  ultimately show ?thesis
    by (simp add: roster_import_def roster_export_def bt_rebuild_keys)
qed

interpretation roster_disk: snapshot roster_export "\<lambda>s. roster_import s self_id"
  "\<lambda>r. roster_inv r \<and> ro_self_id r = self_id" for self_id
  by unfold_locales (auto simp: roster_import_export)

lemma found_inv: "roster_inv (ap_outcome (found cr me k))"
  by (rule roster_invI) (auto simp: found_def Let_def split: if_splits)

text \<open>The introducer hands over the records and tombstones of its own roster.\<close>

lemma adopt_inv:
  assumes inv: "roster_inv q"
    and intro: "bt_get (ro_devices q) (dr_device_id introducer) = Some introducer"
    and ok: "adopt cr self_id introducer (bt_values (ro_devices q)) (tombstones q) (ro_epoch q) v
      = Inr a"
  shows "roster_inv (ap_outcome a)"
    and "ro_devices (ap_outcome a) =
      bt_insert self_id (from_vouch (ri_subject v) (dr_device_id introducer)) (ro_devices q)"
    and "ro_self_id (ap_outcome a) = self_id" and "ro_held (ap_outcome a) = bt_empty"
    and "\<exists>k. parse_identity cr (dr_identity_pk introducer) = Inr k \<and> verify_vouch cr k v = Inr ()"
    and "vs_device_id (ri_subject v) = self_id"
proof -
  note D = roster_invD [OF inv]
  have d: "bt_of_list (map (\<lambda>d. (dr_device_id d, d)) (bt_values (ro_devices q))) = ro_devices q"
    by (rule bt_rebuild) (rule D(1))
  have t: "bt_of_list (map (\<lambda>t. (ts_subject t, t)) (tombstones q)) = ro_tombstones q"
    unfolding tombstones_def by (rule bt_rebuild) (rule D(2))
  have c: "bt_contains (ro_devices q) (dr_device_id introducer)"
    using intro by (rule bt_contains_Some)
  have id: "vs_device_id (ri_subject v) = self_id"
    using ok by (auto simp: adopt_def split: if_splits)
  have ex: "\<exists>k. parse_identity cr (dr_identity_pk introducer) = Inr k \<and> verify_vouch cr k v = Inr ()"
    using ok by (auto simp: adopt_def rbind_Inr_iff split: if_splits)
  have a: "\<not> bt_contains (ro_tombstones q) self_id \<and> ap_outcome a =
    \<lparr>ro_self_id = self_id,
     ro_devices = bt_insert self_id (from_vouch (ri_subject v) (dr_device_id introducer)) (ro_devices q),
     ro_tombstones = ro_tombstones q, ro_epoch = ro_epoch q, ro_churn = churn_new,
     ro_held = bt_empty, ro_removed_me = bt_empty\<rparr>"
    using ok id c by (auto simp: adopt_def rbind_Inr_iff d t Let_def split: if_splits)
  have act: "is_active (ap_outcome a) k \<longleftrightarrow> k = self_id \<or> is_active q k" for k
    using a by (simp add: is_active_def)
  show "roster_inv (ap_outcome a)"
    by (rule roster_invI) (use a act D id in \<open>auto split: if_splits\<close>)
  show "ro_devices (ap_outcome a) =
      bt_insert self_id (from_vouch (ri_subject v) (dr_device_id introducer)) (ro_devices q)"
    "ro_self_id (ap_outcome a) = self_id" "ro_held (ap_outcome a) = bt_empty"
    using a by simp_all
  show "\<exists>k. parse_identity cr (dr_identity_pk introducer) = Inr k \<and> verify_vouch cr k v = Inr ()"
    by (rule ex)
  show "vs_device_id (ri_subject v) = self_id" by (rule id)
qed

text \<open>
  The rosters of one family, from its founding: each member's roster starts by founding or by
  adopting another member's, and goes on by steps and restarts. The string is the founder's
  identity key.
\<close>

inductive family_state :: "crypto \<Rightarrow> string \<Rightarrow> roster \<Rightarrow> bool" for cr root where
  founded: "public_to_base64 cr (identity_public_key cr k) = root \<Longrightarrow>
     family_state cr root (ap_outcome (found cr me k))"
| adopted: "family_state cr root q \<Longrightarrow>
     bt_get (ro_devices q) (dr_device_id introducer) = Some introducer \<Longrightarrow>
     adopt cr self_id introducer (bt_values (ro_devices q)) (tombstones q) (ro_epoch q) v = Inr a \<Longrightarrow>
     family_state cr root (ap_outcome a)"
| stepped: "family_state cr root r \<Longrightarrow> roster_step cr r op l r' \<Longrightarrow> family_state cr root r'"
| restored: "family_state cr root r \<Longrightarrow> roster_import (roster_export r) self_id = Inr r' \<Longrightarrow>
     family_state cr root r'"

lemma restored_same:
  assumes "roster_inv r" and "roster_import (roster_export r) self_id = Inr r'"
  shows "r' = r"
proof -
  have "self_id = ro_self_id r"
    using assms(2) by (auto simp: roster_import_def roster_export_def split: if_splits)
  then show ?thesis using roster_import_export [OF assms(1)] assms(2) by simp
qed

lemma family_state_inv: "family_state cr root r \<Longrightarrow> roster_inv r"
proof (induction rule: family_state.induct)
  case (adopted q introducer self_id v a)
  then show ?case by (intro adopt_inv(1))
next
  case (stepped r op l r')
  then show ?case by (blast dest: roster_step_keeps(1))
next
  case (restored r self_id r')
  then show ?case by (metis restored_same)
qed (rule found_inv)

section \<open>The chain of vouches\<close>

text \<open>
  An identity key is endorsed when it is the founder's or a vouch naming it verifies under an
  endorsed key.
\<close>

inductive endorsed :: "crypto \<Rightarrow> string \<Rightarrow> string \<Rightarrow> bool" for cr root where
  endorsed_root: "endorsed cr root root"
| endorsed_vouch: "endorsed cr root pk \<Longrightarrow> public_from_base64 cr pk = Inr key \<Longrightarrow>
     verify_vouch cr key m = Inr () \<Longrightarrow> endorsed cr root (vs_identity_pk (ri_subject m))"

definition chained :: "crypto \<Rightarrow> string \<Rightarrow> roster \<Rightarrow> bool" where
  "chained cr root r \<longleftrightarrow>
     (\<forall>k d. bt_get (ro_devices r) k = Some d \<longrightarrow> endorsed cr root (dr_identity_pk d)) \<and>
     (\<forall>k h. bt_get (ro_held r) k = Some h \<longrightarrow>
        endorsed cr root (vs_identity_pk (ri_subject (ha_message h))))"

lemma chainedD:
  assumes "chained cr root r"
  shows "\<And>k d. bt_get (ro_devices r) k = Some d \<Longrightarrow> endorsed cr root (dr_identity_pk d)"
    and "\<And>k h. bt_get (ro_held r) k = Some h \<Longrightarrow>
      endorsed cr root (vs_identity_pk (ri_subject (ha_message h)))"
  using assms by (auto simp: chained_def)

lemma chainedI:
  assumes "\<And>k d. bt_get (ro_devices r) k = Some d \<Longrightarrow> endorsed cr root (dr_identity_pk d)"
    and "\<And>k h. bt_get (ro_held r) k = Some h \<Longrightarrow>
      endorsed cr root (vs_identity_pk (ri_subject (ha_message h)))"
  shows "chained cr root r"
  using assms by (auto simp: chained_def)

lemma identity_of_Some:
  "identity_of cr r d = Some key \<Longrightarrow>
     \<exists>x. bt_get (ro_devices r) d = Some x \<and> public_from_base64 cr (dr_identity_pk x) = Inr key"
  by (auto simp: identity_of_def split: option.splits if_splits sum.splits)

lemma accepted_vouch_endorsed:
  assumes "chained cr root r" and "vouch_violation cr r m i = None"
  shows "endorsed cr root (vs_identity_pk (ri_subject m))"
proof -
  obtain key where "identity_of cr r i = Some key" and v: "verify_vouch cr key m = Inr ()"
    using assms(2) by (auto simp: vouch_violation_None)
  then obtain x where "bt_get (ro_devices r) i = Some x"
    and pk: "public_from_base64 cr (dr_identity_pk x) = Inr key"
    using identity_of_Some by blast
  then have "endorsed cr root (dr_identity_pk x)" using chainedD(1) [OF assms(1)] by blast
  then show ?thesis using pk v by (rule endorsed_vouch)
qed

lemma chained_same:
  "chained cr root r \<Longrightarrow> ro_devices q = ro_devices r \<Longrightarrow> ro_held q = ro_held r \<Longrightarrow> chained cr root q"
  by (simp add: chained_def)

lemma chained_updates [simp]:
  "chained cr root (r\<lparr>ro_epoch := e\<rparr>) = chained cr root r"
  "chained cr root (r\<lparr>ro_removed_me := x\<rparr>) = chained cr root r"
  "chained cr root (r\<lparr>ro_churn := c\<rparr>) = chained cr root r"
  by (simp_all add: chained_def)

lemma chained_apply_tombstone:
  "chained cr root r \<Longrightarrow> chained cr root (fst (apply_tombstone r s why at by e))"
  by (auto simp: chained_def bt_get_set_state split: if_splits)

lemma chained_admit:
  "chained cr root r \<Longrightarrow> endorsed cr root (vs_identity_pk s) \<Longrightarrow> chained cr root (fst (admit r s i))"
  by (auto simp: chained_def split: if_splits)

lemma chained_unhold:
  "chained cr root r \<Longrightarrow> chained cr root (r\<lparr>ro_held := bt_remove s (ro_held r)\<rparr>)"
  by (auto simp: chained_def split: if_splits)

lemma chained_introduce:
  assumes "chained cr root r"
  shows "chained cr root (fst (receive_introduce cr r m i now))"
proof (cases "vouch_violation cr r m i = None \<and> \<not> is_active r (vs_device_id (ri_subject m))")
  case True
  then have e: "endorsed cr root (vs_identity_pk (ri_subject m))"
    using accepted_vouch_endorsed [OF assms] by blast
  have q: "chained cr root (quarantine r m i n)" for n
    using assms e by (auto simp: chained_def quarantine_def split: if_splits)
  have "chained cr root (charge r i (vs_joined_at (ri_subject m)) now)"
    by (rule chained_same [OF assms]) simp_all
  from chained_admit [OF this e] q True show ?thesis by (simp add: receive_introduce_fst)
next
  case False
  with assms show ?thesis by (auto simp: receive_introduce_fst)
qed

lemma chained_approve:
  assumes "chained cr root r"
  shows "chained cr root (fst (approve_held r s))"
  using assms chained_unhold [OF assms, of s] chainedD(2) [OF assms]
  by (auto simp: approve_held_fst Let_def intro!: chained_admit split: option.split)

lemma chained_remove_paths:
  assumes "chained cr root r"
  shows "chained cr root (fst (receive_remove cr r m x now))"
    and "chained cr root (fst (remove cr r s why at k now))"
proof -
  have c: "chained cr root (charge_removal r m x now)" "chained cr root (charge r y at now)" for y
    using assms by (auto intro: chained_same)
  show "chained cr root (fst (receive_remove cr r m x now))"
    using assms c(1) by (auto simp: receive_remove_fst receive_removal_of_self_fst
        intro!: chained_apply_tombstone intro: chained_same split: option.split)
  show "chained cr root (fst (remove cr r s why at k now))"
    using assms c(2) by (auto simp: remove_fst intro!: chained_apply_tombstone)
qed

lemma chained_sync:
  assumes "chained cr root r"
  shows "chained cr root (fst (receive_sync cr r m s))"
proof -
  have one: "chained cr root (fst (merge_reported q e s d))" if "chained cr root q" for q e d
    using that by (auto simp: merge_reported_fst intro!: chained_apply_tombstone
        intro: chained_same)
  have "chained cr root (fst (merge_devices r e s ds))" for e ds
    using assms unfolding merge_devices_fst by (induction ds arbitrary: r) (auto intro: one)
  then show ?thesis
    using assms by (auto simp: receive_sync_fst Let_def intro: chained_same)
qed

lemma chained_reconcile:
  assumes "chained cr root r"
  shows "chained cr root (fst (reconcile_server_list r ds))"
proof -
  have one: "chained cr root (fst (reconcile_one q d))" if "chained cr root q" for q d
    using that by (auto simp: chained_def reconcile_one_fst bt_get_set_state split: if_splits)
  show ?thesis
    using assms unfolding reconcile_server_list_fst
    by (induction ds arbitrary: r) (auto intro: one)
qed

lemma chained_labels:
  assumes "chained cr root r"
  shows "chained cr root (fst (update_labels r i dn mg ro))"
  using assms by (auto simp: chained_def update_labels_fst split: option.splits if_splits)

lemma chained_step:
  assumes "chained cr root r" and "roster_step cr r op l r'"
  shows "chained cr root r'"
proof -
  have "r' = fst (step_result cr r op)" using assms(2) by (auto elim: roster_stepE)
  then show ?thesis
    using assms(1) chained_unhold [OF assms(1)]
    by (cases op) (simp_all add: chained_introduce chained_approve chained_remove_paths
        chained_sync chained_labels chained_reconcile deny_held_fst del: step_result.simps(5))
qed

lemma family_state_chained: "family_state cr root r \<Longrightarrow> chained cr root r"
proof (induction rule: family_state.induct)
  case (founded k me)
  then show ?case by (auto simp: found_def Let_def chained_def intro: endorsed_root)
next
  case (adopted q introducer self_id v a)
  have inv: "roster_inv q" using adopted.hyps(1) by (rule family_state_inv)
  note A = adopt_inv [OF inv adopted.hyps(2,3)]
  obtain key where k: "parse_identity cr (dr_identity_pk introducer) = Inr key"
    and v: "verify_vouch cr key v = Inr ()" using A(5) by blast
  have "endorsed cr root (dr_identity_pk introducer)"
    using chainedD(1) [OF adopted.IH adopted.hyps(2)] .
  moreover have "public_from_base64 cr (dr_identity_pk introducer) = Inr key"
    using k by (simp add: parse_identity_def)
  ultimately have "endorsed cr root (vs_identity_pk (ri_subject v))"
    using v by (rule endorsed_vouch)
  with A(2,4) adopted.IH show ?case by (auto simp: chained_def split: if_splits)
next
  case (stepped r op l r')
  then show ?case by (blast dest: chained_step)
next
  case (restored r self_id r')
  then show ?case by (metis restored_same family_state_inv)
qed

section \<open>What can make a device active\<close>

lemma merge_devices_active:
  "is_active (fst (merge_devices r e s ds)) k \<Longrightarrow> is_active r k"
proof -
  have one: "is_active (fst (merge_reported q e s d)) k \<Longrightarrow> is_active q k" for q d
    by (auto simp: merge_reported_fst split: if_splits)
  show "is_active (fst (merge_devices r e s ds)) k \<Longrightarrow> is_active r k"
    unfolding merge_devices_fst by (induction ds arbitrary: r) (auto dest: one)
qed

lemma reconcile_active:
  "is_active (fst (reconcile_server_list r ds)) k \<Longrightarrow> is_active r k"
proof -
  have one: "is_active (fst (reconcile_one q d)) k \<Longrightarrow> is_active q k" for q d
    by (auto simp: reconcile_one_fst is_active_set_state_removed split: if_splits)
  show "is_active (fst (reconcile_server_list r ds)) k \<Longrightarrow> is_active r k"
    unfolding reconcile_server_list_fst by (induction ds arbitrary: r) (auto dest: one)
qed

text \<open>The two admitting operations, with what each has checked.\<close>

definition admits :: "crypto \<Rightarrow> roster \<Rightarrow> roster_op \<Rightarrow> string \<Rightarrow> bool" where
  "admits cr r op k \<longleftrightarrow>
     (\<exists>m i now. op = RoIntroduce m i now \<and> k = vs_device_id (ri_subject m) \<and>
        vouch_violation cr r m i = None \<and> \<not> would_exceed (ro_churn r) i now) \<or>
     (\<exists>s h. op = RoApprove s \<and> bt_get (ro_held r) s = Some h \<and>
        k = vs_device_id (ri_subject (ha_message h)) \<and>
        is_active r (ha_introducer h) \<and> \<not> bt_contains (ro_tombstones r) s)"

lemma receive_remove_active: "is_active (fst (receive_remove cr r m x now)) k \<Longrightarrow> is_active r k"
  by (auto simp: receive_remove_fst receive_removal_of_self_fst split: if_splits option.splits)

lemma activation:
  assumes "roster_step cr r op l r'" and "is_active r' k" and "\<not> is_active r k"
  shows "admits cr r op k"
proof -
  have r': "r' = fst (step_result cr r op)" using assms(1) by (auto elim: roster_stepE)
  show ?thesis
  proof (cases op)
    case (RoIntroduce m i now)
    with r' assms(2,3) show ?thesis
      by (auto simp: receive_introduce_fst admits_def quarantine_def split: if_splits)
  next
    case (RoApprove s)
    with r' assms(2,3) show ?thesis
      by (auto simp: approve_held_fst admits_def Let_def split: if_splits option.splits)
  next
    case (RoDeny s)
    with r' assms(2,3) show ?thesis by (auto simp: deny_held_fst split: if_splits)
  next
    case (RoReceiveRemove m x now)
    with r' assms(2,3) show ?thesis by (auto dest: receive_remove_active)
  next
    case (RoRemove s why at key now)
    with r' assms(2,3) show ?thesis
      by (auto simp: remove_fst split: if_splits simp del: step_result.simps)
  next
    case (RoSync m s)
    with r' assms(2,3) show ?thesis
      by (auto simp: receive_sync_fst Let_def dest: merge_devices_active split: if_splits)
  next
    case (RoLabels i dn mg ro)
    with r' assms(2,3) show ?thesis by simp
  next
    case (RoReconcile ds)
    with r' assms(2,3) show ?thesis by (auto dest: reconcile_active)
  qed
qed

section \<open>The ledger is complete\<close>

definition reports_join :: "ledger_entry list \<Rightarrow> string \<Rightarrow> bool" where
  "reports_join l k \<longleftrightarrow> (\<exists>e \<in> set l. le_peer e = k \<and> (\<exists>by. le_event e = EvDeviceJoined by))"

definition reports_removal :: "ledger_entry list \<Rightarrow> string \<Rightarrow> bool" where
  "reports_removal l k \<longleftrightarrow> (\<exists>e \<in> set l. le_peer e = k \<and> (\<exists>by why. le_event e = EvDeviceRemoved by why))"

lemma reports_append [simp]:
  "reports_join (l1 @ l2) k \<longleftrightarrow> reports_join l1 k \<or> reports_join l2 k"
  "reports_removal (l1 @ l2) k \<longleftrightarrow> reports_removal l1 k \<or> reports_removal l2 k"
  by (auto simp: reports_join_def reports_removal_def)

lemma reports_joined [simp]: "reports_join (le_inbound k None (EvDeviceJoined by) # l) k"
  by (simp add: reports_join_def)

lemma reports_join_Cons: "reports_join l k \<Longrightarrow> reports_join (e # l) k"
  by (auto simp: reports_join_def)

lemma reports_removal_Cons: "reports_removal l k \<Longrightarrow> reports_removal (e # l) k"
  by (auto simp: reports_removal_def)

lemma reports_tombstone: "reports_removal (snd (apply_tombstone r s why at by e)) s"
  by (simp add: apply_tombstone_def Let_def reports_removal_def)

lemma admit_ledger: "snd (admit r s i) = [le_inbound (vs_device_id s) None (EvDeviceJoined i)]"
  by (simp add: admit_def)

text \<open>What an operation on one device can have done to activity, with its ledger.\<close>

definition accounted :: "roster \<Rightarrow> ledger_entry list \<Rightarrow> roster \<Rightarrow> bool" where
  "accounted r l r' \<longleftrightarrow>
     (\<forall>k. (is_active r' k \<longrightarrow> is_active r k \<or> reports_join l k) \<and>
          (is_active r k \<longrightarrow> is_active r' k \<or> reports_removal l k))"

lemma accounted_same: "(\<And>k. is_active r' k = is_active r k) \<Longrightarrow> accounted r l r'"
  by (simp add: accounted_def)

lemma accounted_trans: "accounted r l1 q \<Longrightarrow> accounted q l2 s \<Longrightarrow> accounted r (l1 @ l2) s"
  by (auto simp: accounted_def)

lemma accounted_tombstone:
  assumes "\<And>k. is_active q k = is_active r k" and "apply_tombstone q s why at by e = (r', l)"
  shows "accounted r l r'"
proof -
  have "r' = fst (apply_tombstone q s why at by e)" "l = snd (apply_tombstone q s why at by e)"
    using assms(2) by simp_all
  then show ?thesis
    using assms(1) reports_tombstone [of q s why at "by" e] by (auto simp: accounted_def)
qed

lemma accounted_introduce:
  "accounted r (ap_ledger (snd (receive_introduce cr r m i now))) (fst (receive_introduce cr r m i now))"
  by (auto simp: receive_introduce_eq Let_def accounted_def refuse_vouch_def quarantine_def
      split: option.split)

lemma accounted_approve:
  "accounted r (ap_ledger (snd (approve_held r s))) (fst (approve_held r s))"
proof (cases "bt_get (ro_held r) s")
  case (Some h)
  let ?q = "r\<lparr>ro_held := bt_remove s (ro_held r)\<rparr>"
  let ?sub = "ri_subject (ha_message h)"
  have j: "reports_join [le_inbound s None (EvAdmissionResolved True),
      le_inbound (vs_device_id ?sub) None (EvDeviceJoined i)] (vs_device_id ?sub)" for i
    by (simp add: reports_join_def)
  from Some j show ?thesis
    by (auto simp: approve_held_def Let_def approve_refused_def case_prod_beta admit_ledger accounted_def)
qed (simp add: approve_held_def accounted_def)

lemma accounted_deny: "accounted r (ap_ledger (snd (deny_held r s))) (fst (deny_held r s))"
  by (rule accounted_same) (simp add: deny_held_fst)

lemma accounted_receive_remove:
  "accounted r (ap_ledger (snd (receive_remove cr r m x now))) (fst (receive_remove cr r m x now))"
proof (cases "rr_subject m = ro_self_id r \<or> \<not> removal_accepted cr r m x
    \<or> bt_contains (ro_tombstones r) (rr_subject m)")
  case True
  then show ?thesis
    by (intro accounted_same)
      (auto simp: receive_remove_fst receive_removal_of_self_fst split: option.split)
next
  case False
  then obtain key where k: "identity_of cr r x = Some key" "removal_verifies cr key m"
      and a: "is_active r x"
    by (auto simp: removal_accepted_def identity_of_recorded)
  obtain q l where q: "apply_tombstone (charge_removal r m x now) (rr_subject m) (rr_reason m)
      (rr_removed_at m) x (rr_epoch m) = (q, l)" by fastforce
  have "receive_remove cr r m x now = (q, applied RemovalApplied l)"
    using False k a q by (simp add: receive_remove_def removal_verifies_def Let_def
        charge_removal_def charge_def split: if_splits)
  then show ?thesis using accounted_tombstone [OF _ q] by simp
qed

lemma accounted_remove:
  assumes "remove cr r s why at k now = (r', Inr a)"
  shows "accounted r (ap_ledger a) r'"
proof -
  obtain q l where q: "apply_tombstone (if s = ro_self_id r then r else charge r (ro_self_id r) at now)
      s why at (ro_self_id r) (ro_epoch r + 1) = (q, l)" by fastforce
  then have "r' = q \<and> ap_ledger a = l"
    using assms by (auto simp: remove_def Let_def charge_def split: if_splits sum.splits prod.splits)
  then show ?thesis using accounted_tombstone [OF _ q, of r] by auto
qed

lemma remove_error: "remove cr r s why at k now = (r', Inl e) \<Longrightarrow> r' = r"
  using remove_fst [of cr r s why at k now] by simp

lemma accounted_merge:
  assumes "merge_devices r e s ds = (r', an, n, l)"
  shows "accounted r l r'"
  using assms
proof (induction ds arbitrary: r an n l)
  case (Cons d ds)
  obtain q an1 n1 l1 where one: "merge_reported r e s d = (q, an1, n1, l1)"
    by (cases "merge_reported r e s d")
  obtain an2 n2 l2 where rest: "merge_devices q e s ds = (r', an2, n2, l2)" and l: "l = l1 @ l2"
    using Cons.prems one by (auto split: prod.splits)
  have "accounted r l1 q"
    using one by (auto simp: merge_reported_def Let_def split: option.splits if_splits prod.splits
        intro: accounted_same accounted_tombstone [OF refl])
  then show ?case unfolding l using Cons.IH [OF rest] by (rule accounted_trans)
qed (simp add: accounted_same)

lemma accounted_sync:
  "accounted r (ap_ledger (snd (receive_sync cr r m s))) (fst (receive_sync cr r m s))"
proof -
  obtain q an n l where q: "merge_devices r (rs_epoch m) s (rs_devices m) = (q, an, n, l)"
    by (cases "merge_devices r (rs_epoch m) s (rs_devices m)")
  have "accounted r (l @ extra) (q\<lparr>ro_epoch := e\<rparr>)" "accounted r l q" for e extra
    using accounted_merge [OF q] by (auto simp: accounted_def)
  then show ?thesis using q by (auto simp: receive_sync_def accounted_same)
qed

lemma accounted_labels:
  "accounted r (ap_ledger (snd (update_labels r i dn mg ro))) (fst (update_labels r i dn mg ro))"
  by (rule accounted_same) simp

lemma accounted_reconcile:
  "accounted r (ap_ledger (snd (reconcile_server_list r ds))) (fst (reconcile_server_list r ds))"
proof -
  have one: "accounted q l1 q1" if "reconcile_one q d = (q1, f, l1)" for q d q1 f l1
    using that by (auto simp: reconcile_one_def accounted_def is_active_set_state_removed
        reports_removal_def split: option.splits if_splits)
  have "accounted r l r'" if "reconcile_listed r ds = (r', f, l)" for r' f l
    using that
  proof (induction ds arbitrary: r f l)
    case (Cons d ds)
    obtain q f1 l1 where q: "reconcile_one r d = (q, f1, l1)" by (cases "reconcile_one r d")
    obtain f2 l2 where rest: "reconcile_listed q ds = (r', f2, l2)" and l: "l = l1 @ l2"
      using Cons.prems q by (auto split: prod.splits)
    show ?case unfolding l using one [OF q] Cons.IH [OF rest] by (rule accounted_trans)
  qed (simp add: accounted_same)
  then show ?thesis by (simp add: reconcile_server_list_def split: prod.split)
qed

lemma accounted_step:
  assumes "roster_step cr r op l r'"
  shows "accounted r l r'"
  using assms
proof (rule roster_stepE)
  assume "step_result cr r op = (r', l)"
  then show ?thesis
    using accounted_introduce accounted_approve accounted_deny accounted_receive_remove
      accounted_remove accounted_sync accounted_labels accounted_reconcile
    by (cases op) (auto simp: with_ledger_def accounted_same dest: remove_error
        split: prod.splits sum.splits)
qed

end
