(* ===== verification/Policy.thy ===== *)
theory Policy
  imports Family
begin

text \<open>
  The bounds and the merge rules of the membership layer: the size cap and the churn budget on
  admissions, what a merged sync leaves behind, what the server's list reports, and the
  detection of mutual eviction.
\<close>

section \<open>The size cap\<close>

lemma active_count_card: "active_count r = card {k. is_active r k}"
proof -
  have "{k. \<exists>v. bt_get (ro_devices r) k = Some v \<and> record_is_active v} = {k. is_active r k}"
    by (auto simp: is_active_def split: option.splits)
  then show ?thesis by (simp add: active_count_def count_bt_values)
qed

lemma finite_active: "finite {k. is_active r k}"
  by (rule finite_subset [OF _ finite_bt_keys [of "ro_devices r"]]) (auto intro: is_active_contains)

lemma active_count_mono: "(\<And>k. is_active q k \<Longrightarrow> is_active r k) \<Longrightarrow> active_count q \<le> active_count r"
  unfolding active_count_card by (rule card_mono [OF finite_active]) auto

lemma active_count_cong: "(\<And>k. is_active q k = is_active r k) \<Longrightarrow> active_count q = active_count r"
  using active_count_mono [of q r] active_count_mono [of r q] by (simp add: order_antisym)

lemma active_count_admit:
  "active_count (fst (admit r s i)) =
     (if is_active r (vs_device_id s) then active_count r else Suc (active_count r))"
proof -
  have "{k. is_active (fst (admit r s i)) k} = insert (vs_device_id s) {k. is_active r k}" by auto
  then have "active_count (fst (admit r s i)) = card (insert (vs_device_id s) {k. is_active r k})"
    unfolding active_count_card by (rule arg_cong)
  then show ?thesis
    by (simp add: card_insert_if finite_active active_count_card)
qed

lemma active_count_charge [simp]: "active_count (charge r s at now) = active_count r"
  by (rule active_count_cong) simp

lemma active_count_unhold [simp]: "active_count (r\<lparr>ro_held := h\<rparr>) = active_count r"
  by (rule active_count_cong) simp

lemma introduce_count:
  "active_count (fst (receive_introduce cr r m i now)) \<le> max max_active_devices (active_count r)"
proof (cases "vouch_violation cr r m i = None \<and> \<not> is_active r (vs_device_id (ri_subject m))
    \<and> \<not> would_exceed (ro_churn r) i now")
  case True
  then have "active_count r < max_active_devices" by (auto simp: vouch_violation_None)
  with True show ?thesis by (simp add: receive_introduce_fst active_count_admit)
next
  case False
  then have "active_count (fst (receive_introduce cr r m i now)) = active_count r"
    by (auto simp: receive_introduce_fst quarantine_def)
  then show ?thesis by simp
qed

definition is_approval :: "roster_op \<Rightarrow> bool" where
  "is_approval op = (case op of RoApprove _ \<Rightarrow> True | _ \<Rightarrow> False)"

lemma step_count:
  assumes "roster_step cr r op l r'" and "\<not> is_approval op"
  shows "active_count r' \<le> max max_active_devices (active_count r)"
proof (cases op)
  case (RoIntroduce m i now)
  with assms(1) show ?thesis using introduce_count [of cr r m i now]
    by (auto elim: roster_stepE simp: with_ledger_def)
next
  case (RoApprove s)
  with assms(2) show ?thesis by (simp add: is_approval_def)
next
  case (RoDeny s)
  with assms show ?thesis using activation [OF assms(1)]
    by (intro max.coboundedI2 active_count_mono) (auto simp: admits_def)
next
  case (RoReceiveRemove m x now)
  with assms show ?thesis using activation [OF assms(1)]
    by (intro max.coboundedI2 active_count_mono) (auto simp: admits_def)
next
  case (RoRemove s why at k now)
  with assms show ?thesis using activation [OF assms(1)]
    by (intro max.coboundedI2 active_count_mono) (auto simp: admits_def)
next
  case (RoSync m s)
  with assms show ?thesis using activation [OF assms(1)]
    by (intro max.coboundedI2 active_count_mono) (auto simp: admits_def)
next
  case (RoLabels i dn mg ro)
  with assms show ?thesis using activation [OF assms(1)]
    by (intro max.coboundedI2 active_count_mono) (auto simp: admits_def)
next
  case (RoReconcile ds)
  with assms show ?thesis using activation [OF assms(1)]
    by (intro max.coboundedI2 active_count_mono) (auto simp: admits_def)
qed

lemma run_count:
  "roster_run cr r ops r' \<Longrightarrow> list_all (\<lambda>op. \<not> is_approval op) ops \<Longrightarrow>
     active_count r' \<le> max max_active_devices (active_count r)"
proof (induction rule: roster_run.induct)
  case (run_cons cr r op l r' ops r'')
  then show ?case using step_count [OF run_cons.hyps(1)] by fastforce
qed simp

text \<open>Approval checks no cap: it admits one more device whatever the count.\<close>

lemma approve_count:
  assumes "roster_inv r" and "bt_get (ro_held r) s = Some h" and "is_active r (ha_introducer h)"
    and "\<not> is_active r s" and "\<not> bt_contains (ro_tombstones r) s"
  shows "active_count (fst (approve_held r s)) = Suc (active_count r)"
  using assms roster_invD(3) [OF assms(1,2)]
  by (simp add: approve_held_fst Let_def active_count_admit)

section \<open>The churn budget\<close>

text \<open>A run of vouches from one introducer, all received on one clock.\<close>

fun introduce_all ::
  "crypto \<Rightarrow> roster \<Rightarrow> roster_introduce list \<Rightarrow> string \<Rightarrow> system_time \<Rightarrow> roster \<times> nat"
where
  "introduce_all cr r [] i now = (r, 0)"
| "introduce_all cr r (m # ms) i now =
     (let (r1, a) = receive_introduce cr r m i now;
          (r2, n) = introduce_all cr r1 ms i now
      in (r2, (if ap_outcome a = Admitted then 1 else 0) + n))"

definition recent :: "system_time \<Rightarrow> roster_introduce \<Rightarrow> bool" where
  "recent now m \<longleftrightarrow>
     churn_cutoff now \<le> unix_seconds (clamp_to_now (timestamp_or (vs_joined_at (ri_subject m)) now) now)"

lemma introduce_admitted:
  "ap_outcome (snd (receive_introduce cr r m i now)) = Admitted \<longleftrightarrow>
     vouch_violation cr r m i = None \<and> \<not> is_active r (vs_device_id (ri_subject m))
       \<and> \<not> would_exceed (ro_churn r) i now"
  by (auto simp: receive_introduce_eq Let_def refuse_vouch_def split: option.split)

lemma introduce_charges:
  assumes "recent now m"
  shows "count_in_window (ro_churn (fst (receive_introduce cr r m i now))) i now =
    count_in_window (ro_churn r) i now
      + (if ap_outcome (snd (receive_introduce cr r m i now)) = Admitted then 1 else 0)"
  using assms unfolding introduce_admitted
  by (auto simp: receive_introduce_fst quarantine_def charge_def recent_def count_after_record)

lemma introduce_budget:
  "list_all (recent now) ms \<Longrightarrow>
     count_in_window (ro_churn r) i now \<le> max_membership_events \<Longrightarrow>
     count_in_window (ro_churn r) i now + snd (introduce_all cr r ms i now) \<le> max_membership_events"
proof (induction ms arbitrary: r)
  case (Cons m ms)
  obtain r1 a where one: "receive_introduce cr r m i now = (r1, a)" by fastforce
  have c: "count_in_window (ro_churn r1) i now =
      count_in_window (ro_churn r) i now + (if ap_outcome a = Admitted then 1 else 0)"
    using introduce_charges [of now m cr r i] Cons.prems(1) one by simp
  have "count_in_window (ro_churn r1) i now \<le> max_membership_events"
    using c Cons.prems(2) introduce_admitted [of cr r m i now] one
    by (auto simp: would_exceed_def)
  then show ?case
    using Cons.IH [of r1] Cons.prems(1) c one by (simp add: case_prod_beta)
qed simp

text \<open>A vouch dated before the window is admitted and charged to nobody.\<close>

lemma backdated_free:
  assumes "\<not> recent now m"
  shows "count_in_window (ro_churn (fst (receive_introduce cr r m i now))) i now =
    count_in_window (ro_churn r) i now"
  using assms
  by (auto simp: receive_introduce_fst quarantine_def charge_def recent_def count_after_record)

section \<open>What a sync merges\<close>

text \<open>Which devices a sync reports as removed that this roster will act on.\<close>

definition reported_removed :: "roster \<Rightarrow> sync_device list \<Rightarrow> string \<Rightarrow> bool" where
  "reported_removed r ds k \<longleftrightarrow>
     (\<exists>d \<in> set ds. sd_device_id d = k \<and> sd_state d = DsRemoved) \<and> bt_contains (ro_devices r) k"

lemma merge_reported_fields:
  "bt_contains (ro_devices (fst (merge_reported r e s d))) k = bt_contains (ro_devices r) k"
  "ro_self_id (fst (merge_reported r e s d)) = ro_self_id r"
  "bt_contains (ro_tombstones (fst (merge_reported r e s d))) k \<longleftrightarrow>
     bt_contains (ro_tombstones r) k \<or> reported_removed r [d] k \<and> k \<noteq> ro_self_id r"
  "bt_contains (ro_removed_me (fst (merge_reported r e s d))) k \<longleftrightarrow>
     bt_contains (ro_removed_me r) k \<or> k = s \<and> reported_removed r [d] (ro_self_id r)"
  "ro_epoch (fst (merge_reported r e s d)) \<in> {ro_epoch r, max (ro_epoch r) e}"
  by (auto simp: merge_reported_fst reported_removed_def)

lemma merge_devices_fields:
  "bt_contains (ro_devices (fst (merge_devices r e s ds))) k = bt_contains (ro_devices r) k \<and>
   ro_self_id (fst (merge_devices r e s ds)) = ro_self_id r \<and>
   (bt_contains (ro_tombstones (fst (merge_devices r e s ds))) k \<longleftrightarrow>
      bt_contains (ro_tombstones r) k \<or> reported_removed r ds k \<and> k \<noteq> ro_self_id r) \<and>
   (bt_contains (ro_removed_me (fst (merge_devices r e s ds))) k \<longleftrightarrow>
      bt_contains (ro_removed_me r) k \<or> k = s \<and> reported_removed r ds (ro_self_id r)) \<and>
   ro_epoch (fst (merge_devices r e s ds)) \<in> {ro_epoch r, max (ro_epoch r) e}"
proof (induction ds arbitrary: r)
  case Nil
  then show ?case by (simp add: reported_removed_def)
next
  case (Cons d ds)
  let ?q = "fst (merge_reported r e s d)"
  have eq: "fst (merge_devices r e s (d # ds)) = fst (merge_devices ?q e s ds)"
    by (simp add: merge_devices_fst del: merge_devices.simps)
  have rr: "reported_removed r (d # ds) j \<longleftrightarrow> reported_removed r [d] j \<or> reported_removed ?q ds j" for j
    by (auto simp: reported_removed_def merge_reported_fields(1))
  have ep: "ro_epoch (fst (merge_devices ?q e s ds)) \<in> {ro_epoch r, max (ro_epoch r) e}"
    using Cons.IH [of ?q] merge_reported_fields(5) [of r e s d] by (auto simp: max_def split: if_splits)
  note I = Cons.IH [of ?q, unfolded merge_reported_fields(1-4)]
  show ?case
    unfolding eq rr using I ep by blast
qed

text \<open>A sync that is neither malformed nor from a stranger.\<close>

definition sync_accepted :: "crypto \<Rightarrow> roster \<Rightarrow> roster_sync \<Rightarrow> string \<Rightarrow> bool" where
  "sync_accepted cr r m s \<longleftrightarrow>
     digest_of cr (rs_epoch m) (rs_devices m) = rs_digest m \<and> is_active r s"

lemma sync_devices_state:
  assumes "roster_inv r" and "d \<in> set (sync_devices r)" and "sd_state d = DsRemoved"
  shows "\<not> is_active r (sd_device_id d) \<and> bt_contains (ro_devices r) (sd_device_id d)"
proof -
  obtain k x where x: "bt_get (ro_devices r) k = Some x"
    and d: "d = \<lparr>sd_device_id = dr_device_id x, sd_identity_pk = dr_identity_pk x,
      sd_state = dr_state x\<rparr>"
    using assms(2) by (auto simp: sync_devices_def set_bt_values)
  with roster_invD(1) [OF assms(1) x] assms(3) show ?thesis
    by (auto simp: is_active_def record_is_active_def bt_contains_def)
qed

lemma receive_sync_fields:
  assumes "sync_accepted cr r m s" and "rs_devices m \<noteq> sync_devices r \<or> rs_epoch m \<noteq> ro_epoch r"
  shows "bt_contains (ro_tombstones (fst (receive_sync cr r m s))) k \<longleftrightarrow>
      bt_contains (ro_tombstones r) k \<or> reported_removed r (rs_devices m) k \<and> k \<noteq> ro_self_id r"
    and "bt_contains (ro_removed_me (fst (receive_sync cr r m s))) k \<longleftrightarrow>
      bt_contains (ro_removed_me r) k \<or> k = s \<and> reported_removed r (rs_devices m) (ro_self_id r)"
    and "ro_epoch (fst (receive_sync cr r m s)) = max (ro_epoch r) (rs_epoch m)"
  using assms merge_devices_fields [of r "rs_epoch m" s "rs_devices m" k]
  by (auto simp: receive_sync_fst sync_accepted_def Let_def max_def split: if_splits)

lemma merge_devices_fixed:
  assumes "\<And>d. d \<in> set ds \<Longrightarrow> fst (merge_reported r e s d) = r"
  shows "fst (merge_devices r e s ds) = r"
  using assms by (induction ds) (simp_all add: merge_devices_fst del: merge_devices.simps)

lemma bt_insert_same: "bt_contains m k \<Longrightarrow> bt_insert k () m = m"
  by (rule bt_ext) (auto simp: bt_contains_def)

lemma merge_reported_fixed:
  assumes "sd_state d = DsRemoved \<Longrightarrow> bt_contains (ro_devices r) (sd_device_id d) \<Longrightarrow>
      (if sd_device_id d = ro_self_id r then bt_contains (ro_removed_me r) s
       else bt_contains (ro_tombstones r) (sd_device_id d))"
  shows "fst (merge_reported r e s d) = r"
  using assms by (auto simp: merge_reported_fst bt_insert_same split: if_splits)

lemma sync_idempotent_lemma:
  "fst (receive_sync cr (fst (receive_sync cr r m s)) m s) = fst (receive_sync cr r m s)"
proof (cases "sync_accepted cr r m s \<and> (rs_devices m \<noteq> sync_devices r \<or> rs_epoch m \<noteq> ro_epoch r)")
  case False
  then have "fst (receive_sync cr r m s) = r"
    by (auto simp: receive_sync_fst sync_accepted_def)
  then show ?thesis by simp
next
  case True
  define q where "q = fst (receive_sync cr r m s)"
  have F: "bt_contains (ro_tombstones q) k \<longleftrightarrow>
      bt_contains (ro_tombstones r) k \<or> reported_removed r (rs_devices m) k \<and> k \<noteq> ro_self_id r"
    "bt_contains (ro_removed_me q) k \<longleftrightarrow>
      bt_contains (ro_removed_me r) k \<or> k = s \<and> reported_removed r (rs_devices m) (ro_self_id r)"
    "ro_epoch q = max (ro_epoch r) (rs_epoch m)" for k
    unfolding q_def using True by (simp_all only: receive_sync_fields)
  have D: "bt_contains (ro_devices q) k = bt_contains (ro_devices r) k" "ro_self_id q = ro_self_id r" for k
    using True merge_devices_fields [of r "rs_epoch m" s "rs_devices m" k]
    by (auto simp: q_def receive_sync_fst Let_def)
  have "fst (merge_devices q (rs_epoch m) s (rs_devices m)) = q"
  proof (rule merge_devices_fixed)
    fix d
    assume "d \<in> set (rs_devices m)"
    then show "fst (merge_reported q (rs_epoch m) s d) = q"
      by (intro merge_reported_fixed) (auto simp: F(1,2) D reported_removed_def)
  qed
  moreover have "\<not> ro_epoch q < rs_epoch m" using F(3) by simp
  ultimately have "fst (receive_sync cr q m s) = q" by (simp add: receive_sync_fst Let_def)
  then show ?thesis by (simp add: q_def)
qed

section \<open>Server revocation and sync\<close>

text \<open>
  A device the server revokes is deactivated without a tombstone, and the roster's next sync
  lists it as removed; the receiver cannot tell that from a signed removal.
\<close>

lemma reconcile_tombstones:
  "ro_tombstones (fst (reconcile_server_list r ds)) = ro_tombstones r"
  unfolding reconcile_server_list_fst by (induction ds arbitrary: r) (simp_all add: reconcile_one_fst)

lemma reconcile_deactivates:
  assumes "\<exists>d \<in> set ds. sv_device_id d = k \<and> sv_revoked d"
  shows "\<not> is_active (fst (reconcile_server_list r ds)) k"
proof -
  have stays: "\<not> is_active (fold (\<lambda>d r. fst (reconcile_one r d)) xs q) k" if "\<not> is_active q k" for q xs
    using that reconcile_active [of q xs k] by (auto simp: reconcile_server_list_fst)
  show ?thesis
    using assms unfolding reconcile_server_list_fst
  proof (induction ds arbitrary: r)
    case (Cons d ds)
    show ?case
    proof (cases "sv_device_id d = k \<and> sv_revoked d")
      case True
      then have "\<not> is_active (fst (reconcile_one r d)) k"
        by (auto simp: reconcile_one_fst is_active_set_state_removed)
      then show ?thesis using stays by simp
    next
      case False
      with Cons show ?thesis by auto
    qed
  qed simp
qed

lemma sync_lists_inactive:
  assumes "roster_inv r" and "bt_contains (ro_devices r) k" and "\<not> is_active r k"
  shows "\<exists>d \<in> set (rs_devices (sync cr r)). sd_device_id d = k \<and> sd_state d = DsRemoved"
proof -
  obtain x where x: "bt_get (ro_devices r) k = Some x" using assms(2) by (auto simp: bt_contains_def)
  then have "dr_device_id x = k" by (rule roster_invD(1) [OF assms(1)])
  moreover have "dr_state x = DsRemoved"
    using x assms(3) by (cases "dr_state x") (auto simp: is_active_def record_is_active_def)
  moreover have "x \<in> set (bt_values (ro_devices r))" using x by (auto simp: set_bt_values)
  ultimately show ?thesis by (force simp: sync_def sync_devices_def)
qed

lemma sync_own_accepted: "is_active rb s \<Longrightarrow> sync_accepted cr rb (sync cr ra) s"
  by (simp add: sync_accepted_def sync_def)

lemma revocation_spreads:
  assumes "roster_inv ra" and "roster_inv rb"
    and "\<exists>d \<in> set listed. sv_device_id d = k \<and> sv_revoked d" and "bt_contains (ro_devices ra) k"
    and "is_active rb s" and "is_active rb k" and "k \<noteq> ro_self_id rb"
  shows "bt_contains (ro_tombstones
    (fst (receive_sync cr rb (sync cr (fst (reconcile_server_list ra listed))) s))) k"
proof -
  let ?q = "fst (reconcile_server_list ra listed)"
  have q: "roster_inv ?q" using assms(1) by (rule reconcile.keeps_inv)
  have c: "bt_contains (ro_devices ?q) k"
    using assms(4) reconcile.run_extends [of ra listed] by (simp add: extends_def)
  have rem: "\<exists>d \<in> set (rs_devices (sync cr ?q)). sd_device_id d = k \<and> sd_state d = DsRemoved"
    by (rule sync_lists_inactive [OF q c reconcile_deactivates [OF assms(3)]])
  then have "rs_devices (sync cr ?q) \<noteq> sync_devices rb"
    using sync_devices_state [OF assms(2)] assms(6) by metis
  moreover have "reported_removed rb (rs_devices (sync cr ?q)) k"
    using rem is_active_contains [OF assms(6)] by (auto simp: reported_removed_def)
  ultimately show ?thesis
    using receive_sync_fields(1) [OF sync_own_accepted [OF assms(5)]] assms(7) by blast
qed

section \<open>Mutual eviction\<close>

lemma splits_iff:
  "p \<in> set (splits r) \<longleftrightarrow> bt_contains (ro_removed_me r) p \<and> bt_contains (ro_tombstones r) p"
  by (auto simp: splits_def set_bt_keys)

definition reports_split :: "ledger_entry list \<Rightarrow> string \<Rightarrow> bool" where
  "reports_split l p \<longleftrightarrow> le_local p (EvFamilySplit p) \<in> set l"

lemma split_ledger_reports:
  "reports_split (split_ledger r p) p \<longleftrightarrow> bt_contains (ro_removed_me r) p \<and> bt_contains (ro_tombstones r) p"
  by (simp add: split_ledger_def reports_split_def)

lemma tombstone_reports_split:
  "reports_split (snd (apply_tombstone r s why at by e)) s \<longleftrightarrow> bt_contains (ro_removed_me r) s"
  by (auto simp: apply_tombstone_def Let_def reports_split_def split_ledger_def le_local_def
      le_inbound_def)

lemma recorded_key_tombstone [simp]:
  "recorded_key cr (fst (apply_tombstone r s why at by e)) d = recorded_key cr r d"
  by (cases "bt_get (ro_devices r) d")
    (auto simp: recorded_key_def bt_get_set_state)

lemma recorded_key_charge [simp]: "recorded_key cr (charge r s at now) d = recorded_key cr r d"
  by (simp add: recorded_key_def)

lemma recorded_key_remove [simp]:
  "recorded_key cr (fst (remove cr r s why at k now)) d = recorded_key cr r d"
  by (simp add: remove_fst)

lemma remove_effect:
  assumes "remove cr r s why at k now = (r', Inr a)"
  shows "bt_contains (ro_tombstones r') s" and "ro_removed_me r' = ro_removed_me r"
    and "ro_self_id r' = ro_self_id r" and "\<not> is_active r' s"
    and "reports_split (ap_ledger a) s \<longleftrightarrow> bt_contains (ro_removed_me r) s"
    and "ro_epoch r' = max (ro_epoch r) (ro_epoch r + 1)"
proof -
  have r': "r' = fst (remove cr r s why at k now)" and ok: "is_ok (snd (remove cr r s why at k now))"
    using assms by simp_all
  from ok r' show "bt_contains (ro_tombstones r') s" "ro_removed_me r' = ro_removed_me r"
    "ro_self_id r' = ro_self_id r" "\<not> is_active r' s" "ro_epoch r' = max (ro_epoch r) (ro_epoch r + 1)"
    by (simp_all add: remove_fst)
  obtain q l where q: "apply_tombstone (if s = ro_self_id r then r else charge r (ro_self_id r) at now)
      s why at (ro_self_id r) (ro_epoch r + 1) = (q, l)" by fastforce
  then have "ap_ledger a = l"
    using assms by (auto simp: remove_def Let_def charge_def split: if_splits sum.splits prod.splits)
  moreover have "reports_split l s \<longleftrightarrow> bt_contains (ro_removed_me r) s"
    using tombstone_reports_split [of "if s = ro_self_id r then r else charge r (ro_self_id r) at now"
        s why at "ro_self_id r" "ro_epoch r + 1"]
    by (simp add: q split: if_splits)
  ultimately show "reports_split (ap_ledger a) s \<longleftrightarrow> bt_contains (ro_removed_me r) s" by simp
qed

lemma about_self_effect:
  assumes "rr_subject m = ro_self_id r" and "recorded_key cr r p = Some key"
    and "removal_verifies cr key m" and "receive_remove cr r m p now = (r', a)"
  shows "ap_outcome a = AboutSelf" and "bt_contains (ro_removed_me r') p"
    and "ro_tombstones r' = ro_tombstones r" and "ro_devices r' = ro_devices r"
    and "reports_split (ap_ledger a) p \<longleftrightarrow> bt_contains (ro_tombstones r) p"
proof -
  have "(case bt_get (ro_devices r) p of
           None \<Rightarrow> None
         | Some d \<Rightarrow> (case public_from_base64 cr (dr_identity_pk d) of
                        Inl _ \<Rightarrow> None | Inr k \<Rightarrow> Some k)) = recorded_key cr r p"
    by (simp add: recorded_key_def split: option.split)
  then have "(r', a) =
     (let r1 = r\<lparr>ro_removed_me := bt_insert p () (ro_removed_me r), ro_epoch := max (ro_epoch r) (rr_epoch m)\<rparr>
      in (r1, applied AboutSelf (le_inbound p None (EvDeviceRemoved p (rr_reason m)) # split_ledger r1 p)))"
    using assms by (auto simp: receive_remove_def receive_removal_of_self_def removal_verifies_def Let_def)
  then show "ap_outcome a = AboutSelf" "bt_contains (ro_removed_me r') p"
    "ro_tombstones r' = ro_tombstones r" "ro_devices r' = ro_devices r"
    "reports_split (ap_ledger a) p \<longleftrightarrow> bt_contains (ro_tombstones r) p"
    by (auto simp: Let_def reports_split_def split_ledger_def le_local_def le_inbound_def)
qed

section \<open>A removal the receiver has no record for\<close>

text \<open>
  A sync that reports a device as removed changes nothing about a device the receiver has not
  met: no tombstone is learned, so a later vouch for it is judged as if it had never left.
\<close>

lemma unknown_removal_ignored:
  assumes "\<not> bt_contains (ro_devices r) k" and "\<not> bt_contains (ro_tombstones r) k"
  shows "\<not> bt_contains (ro_tombstones (fst (receive_sync cr r m s))) k"
  using assms merge_devices_fields [of r "rs_epoch m" s "rs_devices m" k]
  by (auto simp: receive_sync_fst Let_def reported_removed_def)

end
