(* ===== verification/Exchange.thy ===== *)
theory Exchange
  imports Policy
begin

text \<open>
  Two replicas of the roster and what one issues against what the other applies: a vouch signed
  by \<^verbatim>\<open>Roster::vouch_for\<close> and a removal signed by \<^verbatim>\<open>Roster::remove\<close> carry exactly what
  the receiving side checks, and the split of a family shows at whichever side acted second.
\<close>

section \<open>What the issuing side has signed\<close>

lemma vouch_payload_unsigned [simp]: "vouch_payload (m\<lparr>ri_vouch := v\<rparr>) = vouch_payload m"
  by (simp add: vouch_payload_def)

lemma removal_payload_unsigned [simp]: "removal_payload (m\<lparr>rr_sig := s\<rparr>) = removal_payload m"
  by (simp add: removal_payload_def)

lemma vouch_for_Inr:
  assumes "vouch_for cr r subject k = Inr m"
  shows "ri_subject m = subject" and "ri_epoch m = ro_epoch r"
    and "\<not> bt_contains (ro_tombstones r) (vs_device_id subject)"
    and "\<exists>pk. parse_identity cr (vs_identity_pk subject) = Inr pk"
    and "is_active r (vs_device_id subject) \<or> active_count r < max_active_devices"
    and "identity_sign cr k PurposeVouch (Inr (vouch_payload m)) = Inr (ri_vouch m)"
  using assms
  by (auto simp: vouch_for_def Let_def rbind_Inr_iff vouch_payload_def split: if_splits)

lemma remove_Inr:
  assumes "remove cr r subject why at k now = (r', Inr a)"
  shows "is_active r (ro_self_id r)"
    and "rr_subject (ap_outcome a) = subject" and "rr_epoch (ap_outcome a) = ro_epoch r + 1"
    and "rr_reason (ap_outcome a) = why" and "rr_removed_at (ap_outcome a) = at"
    and "identity_sign cr k PurposeRemoval (Inr (removal_payload (ap_outcome a)))
      = Inr (rr_sig (ap_outcome a))"
  using assms
  by (auto simp: remove_def Let_def removal_payload_def split: if_splits sum.splits prod.splits)

section \<open>What the receiving side makes of it\<close>

lemma own_vouch_verifies:
  assumes "signs_correctly cr" and "vouch_for cr r subject k = Inr m"
  shows "verify_vouch cr (identity_public_key cr k) m = Inr ()"
  using verify_own_signature [OF assms(1) vouch_for_Inr(6) [OF assms(2)]]
  by (simp add: verify_vouch_def)

lemma own_removal_verifies:
  assumes "signs_correctly cr" and "remove cr r subject why at k now = (r', Inr a)"
  shows "removal_verifies cr (identity_public_key cr k) (ap_outcome a)"
  using verify_own_signature [OF assms(1) remove_Inr(6) [OF assms(2)]]
  by (simp add: removal_verifies_def)

lemma issued_vouch_passes:
  assumes "signs_correctly cr" and "vouch_for cr ra subject k = Inr m"
    and "identity_of cr rb i = Some (identity_public_key cr k)" and "is_active rb i"
    and "vs_device_id subject \<noteq> i" and "\<not> bt_contains (ro_tombstones rb) (vs_device_id subject)"
    and "bt_get (ro_devices rb) (vs_device_id subject) = None"
    and "active_count rb < max_active_devices"
  shows "vouch_violation cr rb m i = None"
  using assms own_vouch_verifies [OF assms(1,2)] vouch_for_Inr [OF assms(2)]
  by (simp add: vouch_violation_None)

lemma issued_removal_accepted:
  assumes "signs_correctly cr" and "remove cr ra s why at k now = (ra', Inr a)"
    and "identity_of cr rb i = Some (identity_public_key cr k)"
  shows "removal_accepted cr rb (ap_outcome a) i"
  using assms(3) own_removal_verifies [OF assms(1,2)]
  by (auto simp: removal_accepted_def identity_of_recorded split: if_splits)

lemma issued_removal_removes:
  assumes "signs_correctly cr" and "remove cr ra s why at k now = (ra', Inr a)"
    and "identity_of cr rb i = Some (identity_public_key cr k)" and "s \<noteq> ro_self_id rb"
    and "roster_inv rb"
  shows "bt_contains (ro_tombstones (fst (receive_remove cr rb (ap_outcome a) i later))) s"
    and "\<not> is_active (fst (receive_remove cr rb (ap_outcome a) i later)) s"
proof -
  show *: "bt_contains (ro_tombstones (fst (receive_remove cr rb (ap_outcome a) i later))) s"
    using issued_removal_accepted [OF assms(1-3)] remove_Inr(2) [OF assms(2)] assms(4)
    by (auto simp: receive_remove_fst)
  then show "\<not> is_active (fst (receive_remove cr rb (ap_outcome a) i later)) s"
    using roster_invD(4) [OF removal.keeps_inv [OF assms(5)]] by blast
qed

section \<open>Who can take a device out\<close>

lemma removal_deactivates:
  assumes "is_active r k" and "\<not> is_active (fst (receive_remove cr r m x now)) k"
  shows "k = rr_subject m \<and> k \<noteq> ro_self_id r \<and> removal_accepted cr r m x"
  using assms
  by (auto simp: receive_remove_fst receive_removal_of_self_fst split: if_splits option.splits)

section \<open>The split\<close>

lemma split_either_order:
  assumes "rr_subject m = ro_self_id r" and "recorded_key cr r p = Some key"
    and "removal_verifies cr key m"
  shows evict_first: "remove cr r p why at k now = (r1, Inr a) \<Longrightarrow>
      receive_remove cr r1 m p later = (r2, b) \<Longrightarrow>
      p \<in> set (splits r2) \<and> reports_split (ap_ledger b) p"
    and evicted_first: "receive_remove cr r m p now = (r1, b) \<Longrightarrow>
      remove cr r1 p why at k later = (r2, Inr a) \<Longrightarrow>
      p \<in> set (splits r2) \<and> reports_split (ap_ledger a) p"
proof -
  assume rem: "remove cr r p why at k now = (r1, Inr a)"
    and rcv: "receive_remove cr r1 m p later = (r2, b)"
  have "rr_subject m = ro_self_id r1"
    using assms(1) remove_effect(3) [OF rem] by simp
  moreover have "recorded_key cr r1 p = Some key"
    using assms(2) recorded_key_remove [of cr r p why at k now p] rem by simp
  ultimately show "p \<in> set (splits r2) \<and> reports_split (ap_ledger b) p"
    using about_self_effect [OF _ _ assms(3) rcv] remove_effect(1) [OF rem] by (simp add: splits_iff)
next
  assume rcv: "receive_remove cr r m p now = (r1, b)"
    and rem: "remove cr r1 p why at k later = (r2, Inr a)"
  show "p \<in> set (splits r2) \<and> reports_split (ap_ledger a) p"
    using about_self_effect [OF assms rcv] remove_effect [OF rem] by (simp add: splits_iff)
qed

end
