(* ===== verification/Pairing.thy ===== *)
theory Pairing
  imports Policy
begin

text \<open>
  Channel offers, \<^verbatim>\<open>core/beacon-roster/src/pairing.rs\<close>: which peers are owed an address,
  whether an arriving offer may be acted on, and where one that is only being carried goes.
\<close>

section \<open>Definitions\<close>

datatype offer_refusal =
    OfNotForMe string | OfOwnerNotActive string | OfRelayerNotActive string | OfOwnerIsSelf

definition display_offer_refusal :: "offer_refusal \<Rightarrow> string" where
  "display_offer_refusal r = (case r of
     OfNotForMe intended \<Rightarrow> ''the offer is addressed to `'' @ intended @ ''`''
   | OfOwnerNotActive owner \<Rightarrow> ''`'' @ owner @ ''` is not an active member''
   | OfRelayerNotActive relayer \<Rightarrow> ''`'' @ relayer @ ''` is not an active member''
   | OfOwnerIsSelf \<Rightarrow> ''the offer claims to come from this device'')"

record accepted_offer =
  ao_owner :: string
  ao_direct :: bool

definition peers_needing_offers :: "roster \<Rightarrow> string list \<Rightarrow> string list" where
  "peers_needing_offers r already_addressed =
     filter (\<lambda>device_id. device_id \<noteq> ro_self_id r \<and> device_id \<notin> set already_addressed)
       (map dr_device_id (active r))"

definition refuse_offer :: "string \<Rightarrow> offer_refusal \<Rightarrow> (offer_refusal + accepted_offer) applied" where
  "refuse_offer relayed_by refusal =
     applied (Inl refusal)
       [le_inbound relayed_by None (EvChannelOfferRefused (display_offer_refusal refusal))]"

definition accept_offer ::
  "roster \<Rightarrow> channel_offer \<Rightarrow> string \<Rightarrow> (offer_refusal + accepted_offer) applied"
where
  "accept_offer r offer relayed_by =
     (if co_for_device offer \<noteq> ro_self_id r
      then refuse_offer relayed_by (OfNotForMe (co_for_device offer))
      else if co_of offer = ro_self_id r then refuse_offer relayed_by OfOwnerIsSelf
      else if \<not> is_active r relayed_by then refuse_offer relayed_by (OfRelayerNotActive relayed_by)
      else if \<not> is_active r (co_of offer) then refuse_offer relayed_by (OfOwnerNotActive (co_of offer))
      else applied (Inr \<lparr>ao_owner = co_of offer, ao_direct = (co_of offer = relayed_by)\<rparr>)
             [le_inbound (co_of offer) None (EvChannelEstablished True)])"

datatype relay_refusal =
    RelayForMe | NotFromItsOwner (rl_from: string) (rl_owner: string) | NotAFamilyMatter string

definition display_relay_refusal :: "relay_refusal \<Rightarrow> string" where
  "display_relay_refusal r = (case r of
     RelayForMe \<Rightarrow> ''the offer is addressed to this device''
   | NotFromItsOwner from_dev owner \<Rightarrow> ''`'' @ from_dev @ ''` offered an address belonging to `''
       @ owner @ ''`; only its owner may hand it over''
   | NotAFamilyMatter stranger \<Rightarrow> ''`'' @ stranger @ ''` is not an active member'')"

definition relay_target :: "roster \<Rightarrow> channel_offer \<Rightarrow> string \<Rightarrow> relay_refusal + string" where
  "relay_target r offer from_dev =
     (if co_for_device offer = ro_self_id r then Inl RelayForMe
      else if co_of offer \<noteq> from_dev then Inl (NotFromItsOwner from_dev (co_of offer))
      else if \<not> is_active r (co_of offer) then Inl (NotAFamilyMatter (co_of offer))
      else if \<not> is_active r (co_for_device offer) then Inl (NotAFamilyMatter (co_for_device offer))
      else Inr (co_for_device offer))"

definition offered :: "string \<Rightarrow> ledger_entry" where
  "offered peer = le_outbound peer None (EvChannelEstablished False)"

section \<open>Laws\<close>

lemma accept_offer_ok:
  "(\<exists>ao. ap_outcome (accept_offer r offer relayed_by) = Inr ao \<and> ao_owner ao = co_of offer
      \<and> (ao_direct ao \<longleftrightarrow> co_of offer = relayed_by)) \<longleftrightarrow>
   co_for_device offer = ro_self_id r \<and> co_of offer \<noteq> ro_self_id r
     \<and> is_active r relayed_by \<and> is_active r (co_of offer)"
  by (simp add: accept_offer_def refuse_offer_def)

lemma relay_target_Inr:
  "relay_target r offer from_dev = Inr d \<longleftrightarrow>
     d = co_for_device offer \<and> d \<noteq> ro_self_id r \<and> co_of offer = from_dev
       \<and> is_active r from_dev \<and> is_active r d"
  by (auto simp: relay_target_def)

text \<open>Accepting and relaying are exclusive: no device both acts on an offer and forwards it.\<close>

lemma accept_xor_relay:
  "\<not> (is_ok (ap_outcome (accept_offer r offer p)) \<and> is_ok (relay_target r offer q))"
  by (simp add: accept_offer_def relay_target_def refuse_offer_def)

lemma peers_needing_offers_iff:
  assumes "roster_inv r"
  shows "d \<in> set (peers_needing_offers r addressed) \<longleftrightarrow>
     is_active r d \<and> d \<noteq> ro_self_id r \<and> d \<notin> set addressed"
proof -
  have "d \<in> dr_device_id ` set (active r) \<longleftrightarrow> is_active r d"
  proof
    assume "d \<in> dr_device_id ` set (active r)"
    then obtain k x where "bt_get (ro_devices r) k = Some x" "record_is_active x" "dr_device_id x = d"
      by (auto simp: active_def set_bt_values)
    then show "is_active r d" using roster_invD(1) [OF assms] by (auto simp: is_active_def)
  next
    assume "is_active r d"
    then obtain x where x: "bt_get (ro_devices r) d = Some x" "record_is_active x"
      by (auto simp: is_active_def split: option.splits)
    then have "dr_device_id x = d" using roster_invD(1) [OF assms] by blast
    with x show "d \<in> dr_device_id ` set (active r)"
      by (force simp: active_def set_bt_values)
  qed
  then show ?thesis by (auto simp: peers_needing_offers_def)
qed

lemma distinct_active_ids:
  assumes "roster_inv r"
  shows "distinct (map dr_device_id (active r))"
proof -
  have "map dr_device_id (bt_values (ro_devices r)) = bt_keys (ro_devices r)"
    unfolding bt_values_def bt_keys_def map_map
    by (rule map_cong [OF refl]) (use roster_invD(1) [OF assms] in \<open>auto simp: bt.entries_iff\<close>)
  then have "distinct (map dr_device_id (bt_values (ro_devices r)))"
    using keys_sorted_distinct [OF bt_entries_sorted, of "ro_devices r"] by (simp add: bt_keys_def)
  then show ?thesis by (simp add: active_def distinct_map_filter)
qed

text \<open>The relay end to end: what an owner hands over, the relayer carries and the target accepts.\<close>

lemma relay_accepted:
  assumes "relay_target relayer offer (co_of offer) = Inr target"
    and "ro_self_id r = target" and "is_active r (ro_self_id relayer)" and "is_active r (co_of offer)"
    and "co_of offer \<noteq> target"
  shows "ap_outcome (accept_offer r offer (ro_self_id relayer)) =
    Inr \<lparr>ao_owner = co_of offer, ao_direct = (co_of offer = ro_self_id relayer)\<rparr>"
  using assms by (auto simp: relay_target_Inr accept_offer_def)

end
