(* ===== verification/Session.thy ===== *)
theory Session
  imports Identity Wire
begin

text \<open>
  Key bundles, the session layer and its store: \<^verbatim>\<open>core/sund-client/src/bundle.rs\<close>,
  \<^verbatim>\<open>session.rs\<close> and \<^verbatim>\<open>session_store.rs\<close>. The double ratchet is vodozemac's; its
  accounts and sessions are opaque types and its operations the fields of the record
  \<^verbatim>\<open>olm\<close>. Randomness it draws is part of those functions. Parsing a \<^verbatim>\<open>SignedBundle\<close>
  from bytes is \<^verbatim>\<open>serde_json::from_slice\<close> and stays a parameter.
\<close>

section \<open>The ratchet library\<close>

datatype olm_message = PreKey bytes | NormalMessage bytes

datatype decryption_error = MissingMessageKey string | TooBigMessageGap string | OtherDecryption string

text \<open>
  \<^verbatim>\<open>Curve25519PublicKey\<close> is its bytes. \<^verbatim>\<open>om_fallback\<close> lists the unpublished fallback
  key with its id in base64, if there is one; errors are their rendered text.
\<close>

record ('acc, 'ses) olm =
  om_account_new :: 'acc
  om_curve25519 :: "'acc \<Rightarrow> bytes"
  om_fallback :: "'acc \<Rightarrow> (string \<times> bytes) list"
  om_generate_fallback :: "'acc \<Rightarrow> 'acc"
  om_forget_fallback :: "'acc \<Rightarrow> 'acc \<times> bool"
  om_mark_published :: "'acc \<Rightarrow> 'acc"
  om_outbound :: "'acc \<Rightarrow> bytes \<Rightarrow> bytes \<Rightarrow> string + 'ses"
  om_inbound :: "'acc \<Rightarrow> bytes \<Rightarrow> bytes \<Rightarrow> 'acc \<times> (string + 'ses \<times> bytes)"
  om_session_id :: "'ses \<Rightarrow> string"
  om_prekey_session_id :: "bytes \<Rightarrow> string"
  om_encrypt :: "'ses \<Rightarrow> bytes \<Rightarrow> 'ses \<times> (string + olm_message)"
  om_decrypt :: "'ses \<Rightarrow> olm_message \<Rightarrow> 'ses \<times> (decryption_error + bytes)"
  om_to_parts :: "olm_message \<Rightarrow> nat \<times> bytes"
  om_from_parts :: "nat \<Rightarrow> bytes \<Rightarrow> string + olm_message"
  om_key_b64 :: "bytes \<Rightarrow> string"
  om_key_parse :: "string \<Rightarrow> string + bytes"
  om_pickle_account :: "'acc \<Rightarrow> bytes \<Rightarrow> string"
  om_unpickle_account :: "string \<Rightarrow> bytes \<Rightarrow> string + 'acc"
  om_pickle_session :: "'ses \<Rightarrow> bytes \<Rightarrow> string"
  om_unpickle_session :: "string \<Rightarrow> bytes \<Rightarrow> string + 'ses"

definition decryption_error_text :: "decryption_error \<Rightarrow> string" where
  "decryption_error_text e = (case e of MissingMessageKey d \<Rightarrow> d | TooBigMessageGap d \<Rightarrow> d
     | OtherDecryption d \<Rightarrow> d)"

section \<open>Bundles\<close>

definition max_bundle_bytes :: nat where
  "max_bundle_bytes = 8 * 1024"

definition bundle_version :: u8 where
  "bundle_version = 1"

record key_bundle =
  bu_v :: u8
  bu_device_id :: string
  bu_identity_pk :: string
  bu_curve25519 :: string
  bu_fallback_key :: string
  bu_fallback_key_id :: string
  bu_published_at :: string

record signed_bundle =
  sb_bundle :: key_bundle
  sb_sig :: string

datatype bundle_error =
    BuMalformed string
  | BuUnsupportedVersion u8
  | BuWrongIdentity (bu_expected: string) (bu_found: string)
  | BuBadSignature verify_error
  | BuBadKeyMaterial string
  | BuTooLarge nat
  | BuCanonical canonical_error

definition display_bundle_error :: "bundle_error \<Rightarrow> string" where
  "display_bundle_error e = (case e of
     BuMalformed detail \<Rightarrow> ''malformed bundle: '' @ detail
   | BuUnsupportedVersion found \<Rightarrow> ''unsupported bundle version '' @ dec_digits (unat found)
   | BuWrongIdentity expected found \<Rightarrow>
       ''bundle is signed by `'' @ found @ ''`, expected the vouched `'' @ expected @ ''`''
   | BuBadSignature error \<Rightarrow> ''bundle signature: '' @ display_verify_error error
   | BuBadKeyMaterial detail \<Rightarrow> ''bad key material: '' @ detail
   | BuTooLarge n \<Rightarrow> ''bundle is '' @ dec_digits n @ '' bytes, over the ''
       @ dec_digits max_bundle_bytes @ '' cap''
   | BuCanonical error \<Rightarrow> display_canonical_error error)"

definition bundle_value :: "key_bundle \<Rightarrow> json" where
  "bundle_value b = json_object
     [(''v'', JNumber (PosInt (ucast (bu_v b)))), (''device_id'', JString (bu_device_id b)),
      (''identity_pk'', JString (bu_identity_pk b)), (''curve25519'', JString (bu_curve25519 b)),
      (''fallback_key'', JString (bu_fallback_key b)),
      (''fallback_key_id'', JString (bu_fallback_key_id b)),
      (''published_at'', JString (bu_published_at b))]"

definition bundle_decode :: "(bytes \<Rightarrow> string + signed_bundle) \<Rightarrow> bytes \<Rightarrow> bundle_error + signed_bundle"
where
  "bundle_decode from_slice b =
     (if length b > max_bundle_bytes then Inl (BuTooLarge (length b))
      else rbind (map_err BuMalformed (from_slice b)) (\<lambda>sbun.
        if bu_v (sb_bundle sbun) \<noteq> bundle_version
        then Inl (BuUnsupportedVersion (bu_v (sb_bundle sbun))) else Inr sbun))"

definition bundle_encode :: "(signed_bundle \<Rightarrow> string + bytes) \<Rightarrow> signed_bundle \<Rightarrow> bundle_error + bytes"
where
  "bundle_encode to_vec sbun =
     rbind (map_err BuMalformed (to_vec sbun)) (\<lambda>b.
       if length b > max_bundle_bytes then Inl (BuTooLarge (length b)) else Inr b)"

record peer_keys =
  pk_device_id :: string
  pk_identity :: identity_public_key
  pk_curve25519 :: bytes
  pk_fallback_key :: bytes
  pk_fallback_key_id :: string

definition parse_curve25519 :: "('acc, 'ses) olm \<Rightarrow> string \<Rightarrow> string \<Rightarrow> bundle_error + bytes" where
  "parse_curve25519 om encoded field =
     (if encoded = [] then Inl (BuBadKeyMaterial (''`'' @ field @ ''` is empty''))
      else map_err (\<lambda>e. BuBadKeyMaterial (''`'' @ field @ ''`: '' @ e)) (om_key_parse om encoded))"

definition bundle_verify ::
  "crypto \<Rightarrow> ('acc, 'ses) olm \<Rightarrow> signed_bundle \<Rightarrow> string \<Rightarrow> identity_public_key
     \<Rightarrow> bundle_error + peer_keys"
where
  "bundle_verify cr om sbun expected_device_id expected_identity =
     (let b = sb_bundle sbun;
          expected_b64 = public_to_base64 cr expected_identity
      in if bu_identity_pk b \<noteq> expected_b64
         then Inl (BuWrongIdentity expected_b64 (bu_identity_pk b))
         else if bu_device_id b \<noteq> expected_device_id
         then Inl (BuMalformed (''bundle is for device `'' @ bu_device_id b @ ''`, expected `''
                     @ expected_device_id @ ''`''))
         else
           rbind (map_err BuCanonical (to_canonical_json (cr_to_vec cr) (Inr (bundle_value b))))
             (\<lambda>canonical.
           rbind (map_err BuBadSignature
                    (verify_canonical cr expected_identity PurposeBundle canonical (sb_sig sbun)))
             (\<lambda>_.
           rbind (parse_curve25519 om (bu_curve25519 b) ''curve25519'') (\<lambda>curve25519.
           rbind (parse_curve25519 om (bu_fallback_key b) ''fallback_key'') (\<lambda>fallback.
             Inr \<lparr>pk_device_id = bu_device_id b, pk_identity = expected_identity,
                  pk_curve25519 = curve25519, pk_fallback_key = fallback,
                  pk_fallback_key_id = bu_fallback_key_id b\<rparr>)))))"

section \<open>Sessions\<close>

definition frame_version :: u8 where
  "frame_version = 1"

datatype session_error =
    SeUnknownPeer string
  | SeFrame string
  | SeUnsupportedFrameVersion u8
  | SeSessionLost (se_peer: string) (se_detail: string)
  | SeNoSession string
  | SeOlm string
  | SeBundle bundle_error
  | SeCanonical canonical_error

definition display_session_error :: "session_error \<Rightarrow> string" where
  "display_session_error e = (case e of
     SeUnknownPeer peer \<Rightarrow> ''no verified key material for `'' @ peer @ ''`''
   | SeFrame detail \<Rightarrow> ''malformed session frame: '' @ detail
   | SeUnsupportedFrameVersion found \<Rightarrow>
       ''unsupported session frame version '' @ dec_digits (unat found)
   | SeSessionLost peer detail \<Rightarrow>
       ''session with `'' @ peer @ ''` must be re-established: '' @ detail
   | SeNoSession peer \<Rightarrow> ''no session with `'' @ peer @ ''` to decrypt with''
   | SeOlm detail \<Rightarrow> ''olm: '' @ detail
   | SeBundle error \<Rightarrow> display_bundle_error error
   | SeCanonical error \<Rightarrow> display_canonical_error error)"

record decrypted =
  dc_authenticated_sender :: string
  dc_plaintext :: bytes
  dc_new_session :: bool

record 'ses peer_state =
  ps_keys :: peer_keys
  ps_session :: "'ses option"

record ('acc, 'ses) session_manager =
  sm_device_id :: string
  sm_identity :: identity_key
  sm_account :: 'acc
  sm_peers :: "(string, 'ses peer_state) btree"

definition session_create ::
  "('acc, 'ses) olm \<Rightarrow> string \<Rightarrow> identity_key \<Rightarrow> ('acc, 'ses) session_manager" where
  "session_create om device_id k =
     \<lparr>sm_device_id = device_id, sm_identity = k, sm_account = om_account_new om, sm_peers = bt_empty\<rparr>"

definition from_account :: "string \<Rightarrow> identity_key \<Rightarrow> 'acc \<Rightarrow> ('acc, 'ses) session_manager" where
  "from_account device_id k account =
     \<lparr>sm_device_id = device_id, sm_identity = k, sm_account = account, sm_peers = bt_empty\<rparr>"

definition known_peers :: "('acc, 'ses) session_manager \<Rightarrow> string list" where
  "known_peers s = bt_keys (sm_peers s)"

definition has_session :: "('acc, 'ses) session_manager \<Rightarrow> string \<Rightarrow> bool" where
  "has_session s peer =
     (case bt_get (sm_peers s) peer of None \<Rightarrow> False | Some st \<Rightarrow> ps_session st \<noteq> None)"

definition publish_bundle ::
  "crypto \<Rightarrow> ('acc, 'ses) olm \<Rightarrow> ('acc, 'ses) session_manager \<Rightarrow> string
     \<Rightarrow> ('acc, 'ses) session_manager \<times> (session_error + signed_bundle)"
where
  "publish_bundle cr om s published_at =
     (let s = (if om_fallback om (sm_account s) = []
               then s\<lparr>sm_account := om_generate_fallback om (sm_account s)\<rparr> else s)
      in case om_fallback om (sm_account s) of
           [] \<Rightarrow> (s, Inl (SeOlm ''no fallback key available''))
         | (key_id, fallback) # _ \<Rightarrow>
             (let b = \<lparr>bu_v = bundle_version, bu_device_id = sm_device_id s,
                       bu_identity_pk = public_to_base64 cr (identity_public_key cr (sm_identity s)),
                       bu_curve25519 = om_key_b64 om (om_curve25519 om (sm_account s)),
                       bu_fallback_key = om_key_b64 om fallback, bu_fallback_key_id = key_id,
                       bu_published_at = published_at\<rparr>
              in case identity_sign cr (sm_identity s) PurposeBundle (Inr (bundle_value b)) of
                   Inl e \<Rightarrow> (s, Inl (SeCanonical e))
                 | Inr sig \<Rightarrow>
                     (s\<lparr>sm_account := om_mark_published om (sm_account s)\<rparr>,
                      Inr \<lparr>sb_bundle = b, sb_sig = sig\<rparr>)))"

definition rotate_fallback_key ::
  "crypto \<Rightarrow> ('acc, 'ses) olm \<Rightarrow> ('acc, 'ses) session_manager \<Rightarrow> string
     \<Rightarrow> ('acc, 'ses) session_manager \<times> (session_error + signed_bundle)"
where
  "rotate_fallback_key cr om s published_at =
     publish_bundle cr om (s\<lparr>sm_account := om_generate_fallback om (sm_account s)\<rparr>) published_at"

definition forget_previous_fallback_key ::
  "('acc, 'ses) olm \<Rightarrow> ('acc, 'ses) session_manager \<Rightarrow> ('acc, 'ses) session_manager \<times> bool" where
  "forget_previous_fallback_key om s =
     (let (acc, had) = om_forget_fallback om (sm_account s) in (s\<lparr>sm_account := acc\<rparr>, had))"

definition learn_peer ::
  "('acc, 'ses) session_manager \<Rightarrow> peer_keys \<Rightarrow> ('acc, 'ses) session_manager" where
  "learn_peer s keys =
     s\<lparr>sm_peers := bt_insert (pk_device_id keys)
         (case bt_get (sm_peers s) (pk_device_id keys) of
            Some st \<Rightarrow>
              if pk_curve25519 (ps_keys st) = pk_curve25519 keys then st\<lparr>ps_keys := keys\<rparr>
              else st\<lparr>ps_keys := keys, ps_session := None\<rparr>
          | None \<Rightarrow> \<lparr>ps_keys = keys, ps_session = None\<rparr>) (sm_peers s)\<rparr>"

definition session_forget_peer ::
  "('acc, 'ses) session_manager \<Rightarrow> string \<Rightarrow> ('acc, 'ses) session_manager \<times> bool" where
  "session_forget_peer s peer =
     (s\<lparr>sm_peers := bt_remove peer (sm_peers s)\<rparr>, bt_contains (sm_peers s) peer)"

definition set_session ::
  "('acc, 'ses) session_manager \<Rightarrow> string \<Rightarrow> 'ses peer_state \<Rightarrow> 'ses \<Rightarrow> ('acc, 'ses) session_manager"
where
  "set_session s peer st ses =
     s\<lparr>sm_peers := bt_insert peer (st\<lparr>ps_session := Some ses\<rparr>) (sm_peers s)\<rparr>"

definition establish_outbound ::
  "('acc, 'ses) olm \<Rightarrow> ('acc, 'ses) session_manager \<Rightarrow> string
     \<Rightarrow> ('acc, 'ses) session_manager \<times> (session_error + unit)"
where
  "establish_outbound om s peer =
     (case bt_get (sm_peers s) peer of
        None \<Rightarrow> (s, Inl (SeUnknownPeer peer))
      | Some st \<Rightarrow>
          (case om_outbound om (sm_account s) (pk_curve25519 (ps_keys st))
                  (pk_fallback_key (ps_keys st)) of
             Inl e \<Rightarrow> (s, Inl (SeOlm e))
           | Inr ses \<Rightarrow> (set_session s peer st ses, Inr ())))"

section \<open>Frames\<close>

text \<open>\<^verbatim>\<open>u8::try_from(message_type).unwrap_or(u8::MAX)\<close> on the message type.\<close>

definition encode_frame :: "('acc, 'ses) olm \<Rightarrow> olm_message \<Rightarrow> bytes" where
  "encode_frame om m =
     (let (message_type, ciphertext) = om_to_parts om m
      in frame_version # (if message_type \<le> 255 then of_nat message_type else 255) # ciphertext)"

definition decode_frame :: "('acc, 'ses) olm \<Rightarrow> bytes \<Rightarrow> session_error + olm_message" where
  "decode_frame om frame =
     (case frame of
        [] \<Rightarrow> Inl (SeFrame ''empty frame'')
      | version # rest \<Rightarrow>
          if version \<noteq> frame_version then Inl (SeUnsupportedFrameVersion version)
          else (case rest of
                  [] \<Rightarrow> Inl (SeFrame ''frame has no message type'')
                | message_type # ciphertext \<Rightarrow>
                    map_err SeFrame (om_from_parts om (unat message_type) ciphertext)))"

section \<open>Encrypting and decrypting\<close>

definition session_encrypt ::
  "('acc, 'ses) olm \<Rightarrow> ('acc, 'ses) session_manager \<Rightarrow> string \<Rightarrow> bytes
     \<Rightarrow> ('acc, 'ses) session_manager \<times> (session_error + bytes)"
where
  "session_encrypt om s peer plaintext =
     (let (s1, r) = (if has_session s peer then (s, Inr ()) else establish_outbound om s peer)
      in case r of
           Inl e \<Rightarrow> (s1, Inl e)
         | Inr _ \<Rightarrow>
             (case bt_get (sm_peers s1) peer of
                None \<Rightarrow> (s1, Inl (SeUnknownPeer peer))
              | Some st \<Rightarrow>
                  (case ps_session st of
                     None \<Rightarrow> (s1, Inl (SeNoSession peer))
                   | Some ses \<Rightarrow>
                       (let (ses', m) = om_encrypt om ses plaintext
                        in (set_session s1 peer st ses',
                            case m of Inl e \<Rightarrow> Inl (SeOlm e) | Inr msg \<Rightarrow> Inr (encode_frame om msg))))))"

definition lost :: "string \<Rightarrow> decryption_error \<Rightarrow> session_error" where
  "lost peer e = (case e of
     MissingMessageKey _ \<Rightarrow> SeSessionLost peer (decryption_error_text e)
   | TooBigMessageGap _ \<Rightarrow> SeSessionLost peer (decryption_error_text e)
   | OtherDecryption _ \<Rightarrow> SeOlm (decryption_error_text e))"

text \<open>Decrypting on the session held for the peer.\<close>

definition decrypt_current ::
  "('acc, 'ses) olm \<Rightarrow> ('acc, 'ses) session_manager \<Rightarrow> string \<Rightarrow> 'ses peer_state \<Rightarrow> olm_message
     \<Rightarrow> ('acc, 'ses) session_manager \<times> (session_error + decrypted)"
where
  "decrypt_current om s peer st m =
     (case ps_session st of
        None \<Rightarrow> (s, Inl (SeNoSession peer))
      | Some ses \<Rightarrow>
          (let (ses', r) = om_decrypt om ses m
           in (set_session s peer st ses',
               case r of
                 Inl e \<Rightarrow> Inl (lost peer e)
               | Inr plaintext \<Rightarrow>
                   Inr \<lparr>dc_authenticated_sender = peer, dc_plaintext = plaintext,
                        dc_new_session = False\<rparr>)))"

definition session_decrypt ::
  "('acc, 'ses) olm \<Rightarrow> ('acc, 'ses) session_manager \<Rightarrow> string \<Rightarrow> bytes
     \<Rightarrow> ('acc, 'ses) session_manager \<times> (session_error + decrypted)"
where
  "session_decrypt om s peer frame =
     (case bt_get (sm_peers s) peer of
        None \<Rightarrow> (s, Inl (SeUnknownPeer peer))
      | Some st \<Rightarrow>
          (case decode_frame om frame of
             Inl e \<Rightarrow> (s, Inl e)
           | Inr (PreKey pre_key) \<Rightarrow>
               if (case ps_session st of None \<Rightarrow> False
                   | Some ses \<Rightarrow> om_session_id om ses = om_prekey_session_id om pre_key)
               then decrypt_current om s peer st (PreKey pre_key)
               else
                 (let (acc, r) = om_inbound om (sm_account s) (pk_curve25519 (ps_keys st)) pre_key;
                      s1 = s\<lparr>sm_account := acc\<rparr>
                  in case r of
                       Inl e \<Rightarrow> (s1, Inl (SeOlm e))
                     | Inr (ses, plaintext) \<Rightarrow>
                         (set_session s1 peer st ses,
                          Inr \<lparr>dc_authenticated_sender = peer, dc_plaintext = plaintext,
                               dc_new_session = True\<rparr>))
           | Inr (NormalMessage m) \<Rightarrow> decrypt_current om s peer st (NormalMessage m)))"

section \<open>The store\<close>

definition store_version :: u8 where
  "store_version = 1"

datatype store_error =
    StUnsupportedVersion u8
  | StWrongDevice (so_expected: string) (so_found: string)
  | StWrongIdentity (so_expected_pk: string) (so_found_pk: string)
  | StUndecryptable string
  | StBadKeyMaterial string

definition display_store_error :: "store_error \<Rightarrow> string" where
  "display_store_error e = (case e of
     StUnsupportedVersion found \<Rightarrow> ''unsupported store version '' @ dec_digits (unat found)
   | StWrongDevice expected found \<Rightarrow>
       ''store belongs to `'' @ found @ ''`, restoring as `'' @ expected @ ''`''
   | StWrongIdentity expected found \<Rightarrow>
       ''store was written under identity `'' @ found @ ''`, restoring with `'' @ expected @ ''`''
   | StUndecryptable detail \<Rightarrow> ''could not decrypt store: '' @ detail
   | StBadKeyMaterial detail \<Rightarrow> ''bad stored key material: '' @ detail)"

record stored_peer =
  sp_device_id :: string
  sp_identity_pk :: string
  sp_curve25519 :: string
  sp_fallback_key :: string
  sp_fallback_key_id :: string
  sp_session :: "string option"

record session_store =
  ss_v :: u8
  ss_device_id :: string
  ss_identity_pk :: string
  ss_account :: string
  ss_peers :: "stored_peer list"

definition store_peer ::
  "crypto \<Rightarrow> ('acc, 'ses) olm \<Rightarrow> bytes \<Rightarrow> string \<times> 'ses peer_state \<Rightarrow> stored_peer" where
  "store_peer cr om pickle_key p =
     (let keys = ps_keys (snd p)
      in \<lparr>sp_device_id = fst p, sp_identity_pk = public_to_base64 cr (pk_identity keys),
          sp_curve25519 = om_key_b64 om (pk_curve25519 keys),
          sp_fallback_key = om_key_b64 om (pk_fallback_key keys),
          sp_fallback_key_id = pk_fallback_key_id keys,
          sp_session = map_option (\<lambda>ses. om_pickle_session om ses pickle_key) (ps_session (snd p))\<rparr>)"

definition store_export ::
  "crypto \<Rightarrow> ('acc, 'ses) olm \<Rightarrow> ('acc, 'ses) session_manager \<Rightarrow> bytes \<Rightarrow> session_store" where
  "store_export cr om s pickle_key =
     \<lparr>ss_v = store_version, ss_device_id = sm_device_id s,
      ss_identity_pk = public_to_base64 cr (identity_public_key cr (sm_identity s)),
      ss_account = om_pickle_account om (sm_account s) pickle_key,
      ss_peers = map (store_peer cr om pickle_key) (bt_entries (sm_peers s))\<rparr>"

definition store_curve :: "('acc, 'ses) olm \<Rightarrow> string \<Rightarrow> string \<Rightarrow> string \<Rightarrow> store_error + bytes" where
  "store_curve om encoded device_id field =
     map_err (\<lambda>e. StBadKeyMaterial (''`'' @ device_id @ ''` '' @ field @ '': '' @ e))
       (om_key_parse om encoded)"

definition restore_peer ::
  "('acc, 'ses) session_manager \<Rightarrow> peer_keys \<Rightarrow> 'ses option \<Rightarrow> ('acc, 'ses) session_manager" where
  "restore_peer s keys session =
     s\<lparr>sm_peers := bt_insert (pk_device_id keys) \<lparr>ps_keys = keys, ps_session = session\<rparr> (sm_peers s)\<rparr>"

definition load_peer ::
  "crypto \<Rightarrow> ('acc, 'ses) olm \<Rightarrow> bytes \<Rightarrow> stored_peer \<Rightarrow> store_error + peer_keys \<times> 'ses option" where
  "load_peer cr om pickle_key p =
     rbind (map_err (\<lambda>e. StBadKeyMaterial (''`'' @ sp_device_id p @ ''` identity_pk: ''
              @ display_verify_error e)) (public_from_base64 cr (sp_identity_pk p))) (\<lambda>k.
     rbind (store_curve om (sp_curve25519 p) (sp_device_id p) ''curve25519'') (\<lambda>curve25519.
     rbind (store_curve om (sp_fallback_key p) (sp_device_id p) ''fallback_key'') (\<lambda>fallback.
     rbind (case sp_session p of
              None \<Rightarrow> Inr None
            | Some pickle \<Rightarrow> map_err StUndecryptable
                (rbind (om_unpickle_session om pickle pickle_key) (\<lambda>ses. Inr (Some ses)))) (\<lambda>session.
       Inr (\<lparr>pk_device_id = sp_device_id p, pk_identity = k, pk_curve25519 = curve25519,
             pk_fallback_key = fallback, pk_fallback_key_id = sp_fallback_key_id p\<rparr>, session)))))"

fun load_peers ::
  "crypto \<Rightarrow> ('acc, 'ses) olm \<Rightarrow> bytes \<Rightarrow> stored_peer list \<Rightarrow> ('acc, 'ses) session_manager
     \<Rightarrow> store_error + ('acc, 'ses) session_manager"
where
  "load_peers cr om pickle_key [] s = Inr s"
| "load_peers cr om pickle_key (p # ps) s =
     rbind (load_peer cr om pickle_key p) (\<lambda>(keys, session).
       load_peers cr om pickle_key ps (restore_peer s keys session))"

definition store_import ::
  "crypto \<Rightarrow> ('acc, 'ses) olm \<Rightarrow> session_store \<Rightarrow> string \<Rightarrow> identity_key \<Rightarrow> bytes
     \<Rightarrow> store_error + ('acc, 'ses) session_manager"
where
  "store_import cr om store device_id k pickle_key =
     (if ss_v store \<noteq> store_version then Inl (StUnsupportedVersion (ss_v store))
      else if ss_device_id store \<noteq> device_id
      then Inl (StWrongDevice device_id (ss_device_id store))
      else
        (let identity_pk = public_to_base64 cr (identity_public_key cr k)
         in if ss_identity_pk store \<noteq> identity_pk
            then Inl (StWrongIdentity identity_pk (ss_identity_pk store))
            else
              rbind (map_err StUndecryptable (om_unpickle_account om (ss_account store) pickle_key))
                (\<lambda>account. load_peers cr om pickle_key (ss_peers store)
                             (from_account device_id k account))))"

section \<open>Laws\<close>

text \<open>What the ratchet library documents about its encodings.\<close>

definition olm_encodings :: "('acc, 'ses) olm \<Rightarrow> bool" where
  "olm_encodings om \<longleftrightarrow>
     (\<forall>k. om_key_parse om (om_key_b64 om k) = Inr k) \<and>
     (\<forall>a key. om_unpickle_account om (om_pickle_account om a key) key = Inr a) \<and>
     (\<forall>s key. om_unpickle_session om (om_pickle_session om s key) key = Inr s) \<and>
     (\<forall>m. fst (om_to_parts om m) \<le> 1 \<and>
        om_from_parts om (fst (om_to_parts om m)) (snd (om_to_parts om m)) = Inr m)"

lemma olm_encodingsD:
  assumes "olm_encodings om"
  shows "om_key_parse om (om_key_b64 om k) = Inr k"
    and "om_unpickle_account om (om_pickle_account om a key) key = Inr a"
    and "om_unpickle_session om (om_pickle_session om s key) key = Inr s"
    and "fst (om_to_parts om m) \<le> 1"
    and "om_from_parts om (fst (om_to_parts om m)) (snd (om_to_parts om m)) = Inr m"
  using assms by (auto simp: olm_encodings_def)

lemma decode_encode_frame:
  assumes "olm_encodings om"
  shows "decode_frame om (encode_frame om m) = Inr m"
proof -
  obtain t c where p: "om_to_parts om m = (t, c)" by fastforce
  then have t: "t \<le> 1" and f: "om_from_parts om t c = Inr m"
    using olm_encodingsD(4,5) [OF assms, of m] by simp_all
  have "unat (word_of_nat t :: u8) = t" using t by (auto simp: le_Suc_eq)
  then show ?thesis using p t f by (simp add: encode_frame_def decode_frame_def frame_version_def)
qed

text \<open>A verified bundle yields only what the expected identity signed.\<close>

lemma bundle_verify_Inr:
  assumes "bundle_verify cr om sb device_id k = Inr keys"
  shows "pk_device_id keys = device_id" and "pk_identity keys = k"
    and "bu_device_id (sb_bundle sb) = device_id"
    and "identity_verify cr k PurposeBundle (Inr (bundle_value (sb_bundle sb))) (sb_sig sb) = Inr ()"
    and "om_key_parse om (bu_curve25519 (sb_bundle sb)) = Inr (pk_curve25519 keys)"
    and "om_key_parse om (bu_fallback_key (sb_bundle sb)) = Inr (pk_fallback_key keys)"
  using assms
  by (auto simp: bundle_verify_def Let_def rbind_Inr_iff identity_verify_def parse_curve25519_def
      split: if_splits)

lemma bundle_value_inject: "bundle_value a = bundle_value b \<longleftrightarrow> a = b"
proof
  assume "bundle_value a = bundle_value b"
  note eq = json_object_eq [OF this [unfolded bundle_value_def]]
  have up: "uint (ucast x :: u64) = uint x" for x :: u8
  proof -
    have "uint x < 256" by (rule less_le_trans [OF unsigned_less]) simp
    then show ?thesis by (simp add: unsigned_ucast_eq take_bit_int_eq_self_iff)
  qed
  have "ucast (bu_v a) = (ucast (bu_v b) :: u64)" using eq [of "''v''"] by simp
  then have "bu_v a = bu_v b" using up by (metis word_uint_eq_iff)
  then show "a = b"
    using eq [of "''device_id''"] eq [of "''identity_pk''"] eq [of "''curve25519''"]
      eq [of "''fallback_key''"] eq [of "''fallback_key_id''"] eq [of "''published_at''"]
    by simp
qed simp

text \<open>A bundle published and fetched yields the publisher's keys.\<close>

lemma publish_bundle_verifies:
  assumes "signs_correctly cr" and "olm_encodings om" and "\<And>k. om_key_b64 om k \<noteq> []"
    and "publish_bundle cr om s at = (s', Inr sb)"
  shows "\<exists>keys. bundle_verify cr om sb (sm_device_id s) (identity_public_key cr (sm_identity s)) = Inr keys
    \<and> pk_device_id keys = sm_device_id s"
proof -
  obtain acc where s1: "(if om_fallback om (sm_account s) = []
      then s\<lparr>sm_account := om_generate_fallback om (sm_account s)\<rparr> else s) = s\<lparr>sm_account := acc\<rparr>"
    by (cases "om_fallback om (sm_account s) = []") (auto intro: that [of "sm_account s"] that)
  obtain key_id fallback rest where f: "om_fallback om acc = (key_id, fallback) # rest"
    using assms(4) unfolding publish_bundle_def s1 Let_def
    by (cases "om_fallback om acc") (auto split: prod.splits)
  then have sb: "identity_sign cr (sm_identity s) PurposeBundle (Inr (bundle_value (sb_bundle sb))) = Inr (sb_sig sb)"
    and b: "bu_identity_pk (sb_bundle sb) = public_to_base64 cr (identity_public_key cr (sm_identity s))"
      "bu_device_id (sb_bundle sb) = sm_device_id s"
      "bu_curve25519 (sb_bundle sb) = om_key_b64 om (om_curve25519 om acc)"
      "bu_fallback_key (sb_bundle sb) = om_key_b64 om fallback"
    using assms(4) unfolding publish_bundle_def s1 Let_def by (auto split: sum.splits)
  have "identity_verify cr (identity_public_key cr (sm_identity s)) PurposeBundle
      (Inr (bundle_value (sb_bundle sb))) (sb_sig sb) = Inr ()"
    by (rule verify_own_signature [OF assms(1) sb])
  then show ?thesis
    using b assms(3) olm_encodingsD(1) [OF assms(2)]
    by (auto simp: bundle_verify_def Let_def identity_verify_def rbind_Inr_iff parse_curve25519_def)
qed

text \<open>The peer table holds a record under the device id its keys name.\<close>

definition session_inv :: "('acc, 'ses) session_manager \<Rightarrow> bool" where
  "session_inv s \<longleftrightarrow> (\<forall>k st. bt_get (sm_peers s) k = Some st \<longrightarrow> pk_device_id (ps_keys st) = k)"

lemma learn_peer_inv: "session_inv s \<Longrightarrow> session_inv (learn_peer s keys)"
  by (auto simp: session_inv_def learn_peer_def split: option.splits if_splits)

lemma set_session_inv:
  "session_inv s \<Longrightarrow> bt_get (sm_peers s) peer = Some st \<Longrightarrow> session_inv (set_session s peer st ses)"
  by (auto simp: session_inv_def set_session_def split: if_splits)

lemma session_forget_inv: "session_inv s \<Longrightarrow> session_inv (fst (session_forget_peer s peer))"
  by (auto simp: session_inv_def session_forget_peer_def split: if_splits)

lemma set_session_fields [simp]:
  "sm_device_id (set_session s peer st ses) = sm_device_id s"
  "sm_identity (set_session s peer st ses) = sm_identity s"
  "sm_account (set_session s peer st ses) = sm_account s"
  "bt_get (sm_peers (set_session s peer st ses)) k =
     (if k = peer then Some (st\<lparr>ps_session := Some ses\<rparr>) else bt_get (sm_peers s) k)"
  by (simp_all add: set_session_def)

text \<open>
  The keys held for a peer. Encrypting and decrypting move sessions and never touch them, so
  they are always what \<^verbatim>\<open>learn_peer\<close> was last given.
\<close>

definition peer_keys_of :: "('acc, 'ses) session_manager \<Rightarrow> string \<Rightarrow> peer_keys option" where
  "peer_keys_of s k = map_option ps_keys (bt_get (sm_peers s) k)"

lemma peer_keys_set_session:
  "bt_get (sm_peers s) peer = Some st \<Longrightarrow> peer_keys_of (set_session s peer st ses) = peer_keys_of s"
  by (auto simp: peer_keys_of_def fun_eq_iff)

lemma peer_keys_learn: "peer_keys_of (learn_peer s keys) = (peer_keys_of s)(pk_device_id keys \<mapsto> keys)"
  by (auto simp: peer_keys_of_def learn_peer_def fun_eq_iff split: option.split)

lemma establish_keeps:
  assumes "establish_outbound om s peer = (s', r)"
  shows "peer_keys_of s' = peer_keys_of s" and "session_inv s \<Longrightarrow> session_inv s'"
  using assms
  by (auto simp: establish_outbound_def peer_keys_set_session split: option.splits sum.splits
      intro: set_session_inv)

lemma encrypt_keeps:
  assumes "session_encrypt om s peer plaintext = (s', r)"
  shows "peer_keys_of s' = peer_keys_of s" and "session_inv s \<Longrightarrow> session_inv s'"
proof -
  obtain s1 r1 where e: "(if has_session s peer then (s, Inr ()) else establish_outbound om s peer) = (s1, r1)"
    by fastforce
  then have k1: "peer_keys_of s1 = peer_keys_of s" and i1: "session_inv s \<Longrightarrow> session_inv s1"
    using establish_keeps [of om s peer] by (auto split: if_splits)
  have "s' = s1 \<or> (\<exists>st ses. bt_get (sm_peers s1) peer = Some st \<and> s' = set_session s1 peer st ses)"
    using assms e by (auto simp: session_encrypt_def split: sum.splits option.splits prod.splits)
  then show "peer_keys_of s' = peer_keys_of s" "session_inv s \<Longrightarrow> session_inv s'"
    using k1 i1 by (auto simp: peer_keys_set_session intro: set_session_inv)
qed

lemma decrypt_shape:
  assumes "session_decrypt om s peer frame = (s', r)"
  shows "s' = s \<or> (\<exists>acc. s' = s\<lparr>sm_account := acc\<rparr>) \<or>
    (\<exists>st acc ses. bt_get (sm_peers s) peer = Some st \<and> s' = set_session (s\<lparr>sm_account := acc\<rparr>) peer st ses)"
proof (cases "bt_get (sm_peers s) peer")
  case None
  with assms show ?thesis by (simp add: session_decrypt_def)
next
  case (Some st)
  have cur: "q = s \<or> (\<exists>ses. q = set_session s peer st ses)"
    if "decrypt_current om s peer st m = (q, x)" for m q x
    using that by (auto simp: decrypt_current_def split: option.splits prod.splits)
  have same: "s\<lparr>sm_account := sm_account s\<rparr> = s" by simp
  have cur': ?thesis if "decrypt_current om s peer st m = (s', r)" for m
    using cur [OF that] Some same by metis
  show ?thesis
  proof (cases "decode_frame om frame")
    case (Inl e)
    with assms Some show ?thesis by (simp add: session_decrypt_def)
  next
    case (Inr m)
    show ?thesis
    proof (cases m)
      case (NormalMessage b)
      with assms Some Inr show ?thesis by (intro cur') (simp add: session_decrypt_def)
    next
      case (PreKey b)
      let ?matches = "case ps_session st of None \<Rightarrow> False
        | Some ses \<Rightarrow> om_session_id om ses = om_prekey_session_id om b"
      obtain acc x where x: "om_inbound om (sm_account s) (pk_curve25519 (ps_keys st)) b = (acc, x)"
        by fastforce
      show ?thesis
      proof (cases ?matches)
        case True
        with assms Some Inr PreKey show ?thesis by (intro cur') (simp add: session_decrypt_def)
      next
        case False
        with assms Some Inr PreKey x show ?thesis
          by (cases x) (auto simp: session_decrypt_def)
      qed
    qed
  qed
qed

lemma decrypt_keeps:
  assumes "session_decrypt om s peer frame = (s', r)"
  shows "peer_keys_of s' = peer_keys_of s" and "session_inv s \<Longrightarrow> session_inv s'"
proof -
  have *: "peer_keys_of (q\<lparr>sm_account := acc\<rparr>) = peer_keys_of q"
    "session_inv (q\<lparr>sm_account := acc\<rparr>) = session_inv q" for q acc
    by (simp_all add: peer_keys_of_def session_inv_def fun_eq_iff)
  show "peer_keys_of s' = peer_keys_of s"
    using decrypt_shape [OF assms] by (auto simp: * peer_keys_set_session)
  show "session_inv s'" if "session_inv s"
    using decrypt_shape [OF assms] that by (auto simp: * intro: set_session_inv)
qed

lemma decrypt_attributes:
  assumes "session_decrypt om s peer frame = (s', Inr d)"
  shows "dc_authenticated_sender d = peer" and "peer_keys_of s peer \<noteq> None"
proof -
  obtain st where st: "bt_get (sm_peers s) peer = Some st"
    using assms by (cases "bt_get (sm_peers s) peer") (auto simp: session_decrypt_def)
  then show "peer_keys_of s peer \<noteq> None" by (simp add: peer_keys_of_def)
  have cur: "dc_authenticated_sender x = peer"
    if "decrypt_current om s peer st m = (q, Inr x)" for m q x
    using that by (auto simp: decrypt_current_def split: option.splits prod.splits sum.splits)
  show "dc_authenticated_sender d = peer"
    using assms st cur
    by (auto simp: session_decrypt_def Let_def split: sum.splits olm_message.splits if_splits prod.splits)
qed

text \<open>Every peer's identity key came through \<^verbatim>\<open>public_from_base64\<close>, so it parses again.\<close>

definition identities_parse :: "crypto \<Rightarrow> ('acc, 'ses) session_manager \<Rightarrow> bool" where
  "identities_parse cr s \<longleftrightarrow>
     (\<forall>k st. bt_get (sm_peers s) k = Some st \<longrightarrow>
        public_from_base64 cr (public_to_base64 cr (pk_identity (ps_keys st))) = Inr (pk_identity (ps_keys st)))"

lemma load_store_peer:
  assumes "olm_encodings om" and "pk_device_id (ps_keys st) = k"
    and "public_from_base64 cr (public_to_base64 cr (pk_identity (ps_keys st))) = Inr (pk_identity (ps_keys st))"
  shows "load_peer cr om key (store_peer cr om key (k, st)) = Inr (ps_keys st, ps_session st)"
  using assms(2,3) olm_encodingsD [OF assms(1)]
  by (cases "ps_session st") (simp_all add: load_peer_def store_peer_def Let_def store_curve_def)

lemma load_store_peers:
  assumes "olm_encodings om"
    and "\<forall>(k, st) \<in> set xs. pk_device_id (ps_keys st) = k \<and>
      public_from_base64 cr (public_to_base64 cr (pk_identity (ps_keys st))) = Inr (pk_identity (ps_keys st))"
  shows "load_peers cr om key (map (store_peer cr om key) xs) s =
    Inr (s\<lparr>sm_peers := foldl (\<lambda>m (k, v). bt_insert k v m) (sm_peers s) xs\<rparr>)"
  using assms(2)
proof (induction xs arbitrary: s)
  case (Cons x xs)
  obtain k st where x: "x = (k, st)" by fastforce
  have one: "load_peer cr om key (store_peer cr om key x) = Inr (ps_keys st, ps_session st)"
    unfolding x using Cons.prems x by (intro load_store_peer [OF assms(1)]) auto
  have eta: "\<lparr>ps_keys = ps_keys st, ps_session = ps_session st\<rparr> = st" by simp
  have "sm_peers (restore_peer s (ps_keys st) (ps_session st)) = bt_insert k st (sm_peers s)"
    using Cons.prems x by (simp add: restore_peer_def eta)
  then show ?case
    using Cons.IH [of "restore_peer s (ps_keys st) (ps_session st)"] Cons.prems x one
    by (simp add: restore_peer_def)
qed simp

lemma store_import_export:
  assumes "olm_encodings om" and "session_inv s" and "identities_parse cr s"
  shows "store_import cr om (store_export cr om s key) (sm_device_id s) (sm_identity s) key = Inr s"
proof -
  have "\<forall>(k, st) \<in> set (bt_entries (sm_peers s)). pk_device_id (ps_keys st) = k \<and>
      public_from_base64 cr (public_to_base64 cr (pk_identity (ps_keys st))) = Inr (pk_identity (ps_keys st))"
    using assms(2,3) by (auto simp: session_inv_def identities_parse_def bt.entries_iff)
  note L = load_store_peers [OF assms(1) this]
  have "foldl (\<lambda>m (k, v). bt_insert k v m) bt_empty (bt_entries (sm_peers s)) = sm_peers s"
    by (rule bt.collect_entries)
  then show ?thesis
    using olm_encodingsD(2) [OF assms(1)] by (simp add: store_import_def store_export_def L from_account_def)
qed

interpretation session_disk: snapshot "\<lambda>s. store_export cr om s key"
  "\<lambda>img. store_import cr om img device_id k key"
  "\<lambda>s. olm_encodings om \<and> session_inv s \<and> identities_parse cr s \<and> sm_device_id s = device_id
     \<and> sm_identity s = k"
  for cr om key device_id k
  by unfold_locales (auto simp: store_import_export)

text \<open>A store is only ever opened under the identity and the device it was written for.\<close>

lemma store_import_identity:
  assumes "store_import cr om img device_id k key = Inr s"
  shows "ss_device_id img = device_id"
    and "ss_identity_pk img = public_to_base64 cr (identity_public_key cr k)"
    and "ss_v img = store_version"
  using assms by (auto simp: store_import_def Let_def split: if_splits)

text \<open>
  A frame sent on a session reaches the peer that holds the matching session, as the ratchet
  promises; the sender it is attributed to is the channel's owner.
\<close>

lemma decrypt_on_current:
  assumes "olm_encodings om" and "bt_get (sm_peers s) peer = Some st" and "ps_session st = Some ses"
    and "om_decrypt om ses (NormalMessage b) = (ses', Inr plaintext)"
  shows "session_decrypt om s peer (encode_frame om (NormalMessage b)) =
    (set_session s peer st ses',
     Inr \<lparr>dc_authenticated_sender = peer, dc_plaintext = plaintext, dc_new_session = False\<rparr>)"
  using assms by (simp add: session_decrypt_def decode_encode_frame decrypt_current_def)

text \<open>A new inbound session is opened against the verified key and no other.\<close>

lemma new_session_key:
  assumes "session_decrypt om s peer frame = (s', Inr d)" and "dc_new_session d"
  shows "\<exists>st pre_key acc ses. bt_get (sm_peers s) peer = Some st \<and> decode_frame om frame = Inr (PreKey pre_key)
    \<and> om_inbound om (sm_account s) (pk_curve25519 (ps_keys st)) pre_key = (acc, Inr (ses, dc_plaintext d))"
proof -
  obtain st where st: "bt_get (sm_peers s) peer = Some st"
    using assms(1) by (cases "bt_get (sm_peers s) peer") (auto simp: session_decrypt_def)
  have cur: "\<not> dc_new_session x" if "decrypt_current om s peer st m = (q, Inr x)" for m q x
    using that by (auto simp: decrypt_current_def split: option.splits prod.splits sum.splits)
  obtain m where m: "decode_frame om frame = Inr m"
    using assms(1) st by (cases "decode_frame om frame") (auto simp: session_decrypt_def)
  show ?thesis
  proof (cases m)
    case (NormalMessage b)
    with assms st m cur show ?thesis by (auto simp: session_decrypt_def)
  next
    case (PreKey b)
    obtain acc x where x: "om_inbound om (sm_account s) (pk_curve25519 (ps_keys st)) b = (acc, x)"
      by fastforce
    show ?thesis
      using assms st m PreKey x cur
      by (cases x) (auto simp: session_decrypt_def split: if_splits)
  qed
qed

end
