(* ===== verification/Transport.thy ===== *)
theory Transport
  imports Prelude
begin

text \<open>
  The transport port (\<^verbatim>\<open>core/sund-client/src/transport.rs\<close>) and its in-memory
  implementation (\<^verbatim>\<open>memory.rs\<close>). The trait's documented contract is the locale
  \<^verbatim>\<open>transport_port\<close>: an abstract view of each channel and what the four operations do to
  it. It is interpreted on the in-memory transport, whose shared \<^verbatim>\<open>Mutex\<close> state is
  passed explicitly.
\<close>

section \<open>The port's data\<close>

datatype priority = PrNormal | PrHigh

text \<open>A \<^verbatim>\<open>Duration\<close> is its nanoseconds.\<close>

type_synonym duration = nat

definition duration_from_secs :: "nat \<Rightarrow> duration" where
  "duration_from_secs s = s * 1000000000"

definition duration_as_secs :: "duration \<Rightarrow> nat" where
  "duration_as_secs d = d div 1000000000"

record outbound =
  ob_ciphertext :: bytes
  ob_priority :: priority
  ob_ttl :: "duration option"

definition outbound_new :: "bytes \<Rightarrow> outbound" where
  "outbound_new ciphertext = \<lparr>ob_ciphertext = ciphertext, ob_priority = PrNormal, ob_ttl = None\<rparr>"

definition with_priority :: "outbound \<Rightarrow> priority \<Rightarrow> outbound" where
  "with_priority ob p = ob\<lparr>ob_priority := p\<rparr>"

definition with_ttl :: "outbound \<Rightarrow> duration \<Rightarrow> outbound" where
  "with_ttl ob ttl = ob\<lparr>ob_ttl := Some ttl\<rparr>"

record delivery =
  dl_id :: string
  dl_ciphertext :: bytes
  dl_received_at :: system_time

datatype transport_error = TeUnknownChannel string | TeRetired string | TeBackend string

definition display_transport_error :: "transport_error \<Rightarrow> string" where
  "display_transport_error e = (case e of
     TeUnknownChannel c \<Rightarrow> ''unknown channel `'' @ c @ ''`''
   | TeRetired c \<Rightarrow> ''channel `'' @ c @ ''` is retired''
   | TeBackend detail \<Rightarrow> ''transport backend: '' @ detail)"

text \<open>The trait object: its operations as functions on the backend's state.\<close>

record 't port =
  po_open :: "'t \<Rightarrow> string \<Rightarrow> 't \<times> (transport_error + unit)"
  po_retire :: "'t \<Rightarrow> string \<Rightarrow> 't \<times> (transport_error + unit)"
  po_send :: "'t \<Rightarrow> string \<Rightarrow> outbound \<Rightarrow> 't \<times> (transport_error + string)"
  po_ack :: "'t \<Rightarrow> string \<Rightarrow> string \<Rightarrow> 't \<times> (transport_error + unit)"

section \<open>The contract\<close>

datatype channel_view = Never | Live "(string \<times> bytes) list" | Gone

text \<open>
  What every implementation owes: retirement is one-way. A retired channel refuses sends, and no
  operation of the port brings it back.
\<close>

locale retiring_port =
  fixes port :: "'t port"
    and gone :: "'t \<Rightarrow> string \<Rightarrow> bool"
  assumes retire_gone: "po_retire port t c = (t', Inr ()) \<Longrightarrow> gone t' c"
    and open_keeps: "po_open port t c' = (t', r) \<Longrightarrow> gone t c \<Longrightarrow> gone t' c"
    and retire_keeps: "po_retire port t c' = (t', r) \<Longrightarrow> gone t c \<Longrightarrow> gone t' c"
    and send_keeps: "po_send port t c' m = (t', sr) \<Longrightarrow> gone t c \<Longrightarrow> gone t' c"
    and ack_keeps: "po_ack port t c' i = (t', r) \<Longrightarrow> gone t c \<Longrightarrow> gone t' c"
    and send_gone: "po_send port t c m = (t', sr) \<Longrightarrow> gone t c \<Longrightarrow> sr = Inl (TeRetired c)"
begin

text \<open>One use of the port, and what a run of uses can do to one channel.\<close>

inductive used :: "'t \<Rightarrow> 't \<Rightarrow> bool" where
  used_open: "po_open port t c = (t', r) \<Longrightarrow> used t t'"
| used_retire: "po_retire port t c = (t', r) \<Longrightarrow> used t t'"
| used_send: "po_send port t c m = (t', sr) \<Longrightarrow> used t t'"
| used_ack: "po_ack port t c i = (t', r) \<Longrightarrow> used t t'"

lemma used_gone: "used t t' \<Longrightarrow> gone t c \<Longrightarrow> gone t' c"
  by (induction rule: used.induct) (auto intro: open_keeps retire_keeps send_keeps ack_keeps)

lemma retired_forever: "used\<^sup>*\<^sup>* t t' \<Longrightarrow> gone t c \<Longrightarrow> gone t' c"
  by (induction rule: rtranclp_induct) (auto intro: used_gone)

lemma send_after_retire:
  assumes "po_retire port t c = (t1, Inr ())" and "used\<^sup>*\<^sup>* t1 t2" and "po_send port t2 c m = (t3, r)"
  shows "r = Inl (TeRetired c)"
  using retired_forever [OF assms(2) retire_gone [OF assms(1)]] by (rule send_gone [OF assms(3)])

end

text \<open>The full contract, for a port that reaches both ends of a channel.\<close>

locale transport_port =
  fixes port :: "'t port"
    and view :: "'t \<Rightarrow> string \<Rightarrow> channel_view"
  assumes open_law: "po_open port t c = (t', r) \<Longrightarrow>
      view t' = (view t)(c := (if view t c = Never then Live [] else view t c)) \<and>
      r = (if view t c = Gone then Inl (TeRetired c) else Inr ())"
    and retire_law: "po_retire port t c = (t', r) \<Longrightarrow>
      view t' = (view t)(c := (if view t c = Never then Never else Gone)) \<and>
      r = (if view t c = Never then Inl (TeUnknownChannel c) else Inr ())"
    and send_law: "po_send port t c m = (t', sr) \<Longrightarrow>
      (case view t c of
         Never \<Rightarrow> view t' = view t \<and> sr = Inl (TeUnknownChannel c)
       | Gone \<Rightarrow> view t' = view t \<and> sr = Inl (TeRetired c)
       | Live ms \<Rightarrow> (\<exists>i. sr = Inr i \<and> view t' = (view t)(c := Live (ms @ [(i, ob_ciphertext m)]))))"
    and ack_law: "po_ack port t c i = (t', r) \<Longrightarrow>
      (case view t c of
         Never \<Rightarrow> view t' = view t \<and> r = Inl (TeUnknownChannel c)
       | Gone \<Rightarrow> view t' = view t \<and> r = Inl (TeRetired c)
       | Live ms \<Rightarrow> r = Inr () \<and> view t' = (view t)(c := Live (filter (\<lambda>p. fst p \<noteq> i) ms)))"
begin

sublocale retiring_port port "\<lambda>t c. view t c = Gone"
proof
  fix t t' :: 't and c c' i :: string and m :: outbound
    and r :: "transport_error + unit" and sr :: "transport_error + string"
  show "po_retire port t c = (t', Inr ()) \<Longrightarrow> view t' c = Gone"
    by (drule retire_law) (auto split: if_splits)
  show "po_open port t c' = (t', r) \<Longrightarrow> view t c = Gone \<Longrightarrow> view t' c = Gone"
    by (drule open_law) auto
  show "po_retire port t c' = (t', r) \<Longrightarrow> view t c = Gone \<Longrightarrow> view t' c = Gone"
    by (drule retire_law) auto
  show "po_send port t c' m = (t', sr) \<Longrightarrow> view t c = Gone \<Longrightarrow> view t' c = Gone"
    by (drule send_law) (auto split: channel_view.splits)
  show "po_ack port t c' i = (t', r) \<Longrightarrow> view t c = Gone \<Longrightarrow> view t' c = Gone"
    by (drule ack_law) (auto split: channel_view.splits)
  show "po_send port t c m = (t', sr) \<Longrightarrow> view t c = Gone \<Longrightarrow> sr = Inl (TeRetired c)"
    by (drule send_law) auto
qed

text \<open>Messages on a channel keep their order: sends append, acknowledgements only remove.\<close>

fun ciphertexts :: "channel_view \<Rightarrow> bytes list" where
  "ciphertexts (Live ms) = map snd ms"
| "ciphertexts v = []"

lemma sends_in_order:
  "view t c = Live ms \<Longrightarrow>
     ciphertexts (view (fold (\<lambda>m t. fst (po_send port t c m)) out t) c)
       = map snd ms @ map ob_ciphertext out"
proof (induction out arbitrary: t ms)
  case (Cons m out)
  obtain t' r where s: "po_send port t c m = (t', r)" by fastforce
  then obtain i where v: "view t' c = Live (ms @ [(i, ob_ciphertext m)])"
    using send_law [OF s] Cons.prems by auto
  then show ?case using Cons.IH [OF v] s by simp
qed simp

end

section \<open>The in-memory transport\<close>

record stored =
  st_id :: string
  st_ciphertext :: bytes
  st_received_at :: system_time

record channel =
  ch_pending :: "stored list"
  ch_retired :: bool

record memory =
  my_channels :: "string \<rightharpoonup> channel"
  my_next_id :: u64

definition memory_new :: memory where
  "memory_new = \<lparr>my_channels = Map.empty, my_next_id = 0\<rparr>"

definition memory_pending :: "memory \<Rightarrow> string \<Rightarrow> nat" where
  "memory_pending s c = (case my_channels s c of None \<Rightarrow> 0 | Some ch \<Rightarrow> length (ch_pending ch))"

definition with_channel ::
  "memory \<Rightarrow> string \<Rightarrow> (channel \<Rightarrow> channel \<times> (transport_error + 'a)) \<Rightarrow> memory \<times> (transport_error + 'a)"
where
  "with_channel s c f =
     (case my_channels s c of
        None \<Rightarrow> (s, Inl (TeUnknownChannel c))
      | Some ch \<Rightarrow>
          if ch_retired ch then (s, Inl (TeRetired c))
          else (let (ch', r) = f ch in (s\<lparr>my_channels := (my_channels s)(c \<mapsto> ch')\<rparr>, r)))"

definition memory_open :: "memory \<Rightarrow> string \<Rightarrow> memory \<times> (transport_error + unit)" where
  "memory_open s c =
     (case my_channels s c of
        Some existing \<Rightarrow> if ch_retired existing then (s, Inl (TeRetired c)) else (s, Inr ())
      | None \<Rightarrow> (s\<lparr>my_channels := (my_channels s)(c \<mapsto> \<lparr>ch_pending = [], ch_retired = False\<rparr>)\<rparr>, Inr ()))"

definition memory_retire :: "memory \<Rightarrow> string \<Rightarrow> memory \<times> (transport_error + unit)" where
  "memory_retire s c =
     (case my_channels s c of
        None \<Rightarrow> (s, Inl (TeUnknownChannel c))
      | Some entry \<Rightarrow>
          (s\<lparr>my_channels := (my_channels s)(c \<mapsto> entry\<lparr>ch_retired := True, ch_pending := []\<rparr>)\<rparr>, Inr ()))"

text \<open>\<^verbatim>\<open>now\<close> is the \<^verbatim>\<open>SystemTime::now()\<close> the message is stamped with.\<close>

definition memory_send ::
  "system_time \<Rightarrow> memory \<Rightarrow> string \<Rightarrow> outbound \<Rightarrow> memory \<times> (transport_error + string)"
where
  "memory_send now s c m =
     (let s = s\<lparr>my_next_id := my_next_id s + 1\<rparr>;
          id = ''m'' @ dec_digits (unat (my_next_id s))
      in case my_channels s c of
           None \<Rightarrow> (s, Inl (TeUnknownChannel c))
         | Some entry \<Rightarrow>
             if ch_retired entry then (s, Inl (TeRetired c))
             else (s\<lparr>my_channels := (my_channels s)(c \<mapsto> entry\<lparr>ch_pending := ch_pending entry
                       @ [\<lparr>st_id = id, st_ciphertext = ob_ciphertext m, st_received_at = now\<rparr>]\<rparr>)\<rparr>,
                   Inr id))"

definition memory_ack :: "memory \<Rightarrow> string \<Rightarrow> string \<Rightarrow> memory \<times> (transport_error + unit)" where
  "memory_ack s c message =
     with_channel s c (\<lambda>entry.
       (entry\<lparr>ch_pending := filter (\<lambda>m. st_id m \<noteq> message) (ch_pending entry)\<rparr>, Inr ()))"

record subscription =
  su_channel :: string
  su_cursor :: nat

definition memory_subscribe :: "memory \<Rightarrow> string \<Rightarrow> transport_error + subscription" where
  "memory_subscribe s c =
     (case snd (with_channel s c (\<lambda>ch. (ch, Inr ()))) of
        Inl e \<Rightarrow> Inl e | Inr _ \<Rightarrow> Inr \<lparr>su_channel = c, su_cursor = 0\<rparr>)"

definition next_delivery ::
  "memory \<Rightarrow> subscription \<Rightarrow> subscription \<times> (transport_error + delivery option)"
where
  "next_delivery s sub =
     (case snd (with_channel s (su_channel sub) (\<lambda>entry.
              (entry, Inr (if su_cursor sub < length (ch_pending entry)
                           then Some (ch_pending entry ! su_cursor sub) else None)))) of
        Inl e \<Rightarrow> (sub, Inl e)
      | Inr None \<Rightarrow> (sub, Inr None)
      | Inr (Some x) \<Rightarrow> (sub\<lparr>su_cursor := su_cursor sub + 1\<rparr>,
          Inr (Some \<lparr>dl_id = st_id x, dl_ciphertext = st_ciphertext x,
                     dl_received_at = st_received_at x\<rparr>)))"

definition memory_port :: "system_time \<Rightarrow> memory port" where
  "memory_port now =
     \<lparr>po_open = memory_open, po_retire = memory_retire, po_send = memory_send now,
      po_ack = memory_ack\<rparr>"

lemma memory_port_simps [simp]:
  "po_open (memory_port now) = memory_open" "po_retire (memory_port now) = memory_retire"
  "po_send (memory_port now) = memory_send now" "po_ack (memory_port now) = memory_ack"
  by (simp_all add: memory_port_def)

definition memory_view :: "memory \<Rightarrow> string \<Rightarrow> channel_view" where
  "memory_view s c =
     (case my_channels s c of
        None \<Rightarrow> Never
      | Some ch \<Rightarrow> if ch_retired ch then Gone
                   else Live (map (\<lambda>m. (st_id m, st_ciphertext m)) (ch_pending ch)))"

lemma memory_view_None: "my_channels s c = None \<Longrightarrow> memory_view s c = Never"
  by (simp add: memory_view_def)

lemma memory_view_update:
  "memory_view (s\<lparr>my_channels := (my_channels s)(c \<mapsto> ch)\<rparr>) =
     (memory_view s)(c := (if ch_retired ch then Gone
        else Live (map (\<lambda>m. (st_id m, st_ciphertext m)) (ch_pending ch))))"
  by (auto simp: memory_view_def fun_eq_iff)

lemma memory_view_next_id [simp]: "memory_view (s\<lparr>my_next_id := n\<rparr>) = memory_view s"
  by (simp add: memory_view_def fun_eq_iff)

lemma filter_pairs:
  "map (\<lambda>m. (st_id m, st_ciphertext m)) (filter (\<lambda>m. st_id m \<noteq> i) xs) =
     filter (\<lambda>p. fst p \<noteq> i) (map (\<lambda>m. (st_id m, st_ciphertext m)) xs)"
  by (simp add: filter_map comp_def)

interpretation mem: transport_port "memory_port now" memory_view for now
proof
  fix t :: memory and c i :: string and t' and m :: outbound
  note view = memory_view_update memory_view_None
  have v: "memory_view t c = (case my_channels t c of None \<Rightarrow> Never
      | Some ch \<Rightarrow> if ch_retired ch then Gone
                   else Live (map (\<lambda>m. (st_id m, st_ciphertext m)) (ch_pending ch)))"
    by (simp add: memory_view_def)
  show "memory_view t' = (memory_view t)(c := (if memory_view t c = Never then Live [] else memory_view t c)) \<and>
      r = (if memory_view t c = Gone then Inl (TeRetired c) else Inr ())"
    if "po_open (memory_port now) t c = (t', r)" for r
    using that by (auto simp: memory_port_def memory_open_def v view split: option.splits if_splits
        intro!: fun_upd_idem [symmetric]) (simp_all add: memory_view_def)
  show "memory_view t' = (memory_view t)(c := (if memory_view t c = Never then Never else Gone)) \<and>
      r = (if memory_view t c = Never then Inl (TeUnknownChannel c) else Inr ())"
    if "po_retire (memory_port now) t c = (t', r)" for r
    using that by (auto simp: memory_port_def memory_retire_def v view split: option.splits)
  show "case memory_view t c of
         Never \<Rightarrow> memory_view t' = memory_view t \<and> r = Inl (TeUnknownChannel c)
       | Live ms \<Rightarrow> (\<exists>i. r = Inr i \<and> memory_view t' = (memory_view t)(c := Live (ms @ [(i, ob_ciphertext m)])))
       | Gone \<Rightarrow> memory_view t' = memory_view t \<and> r = Inl (TeRetired c)"
    if "po_send (memory_port now) t c m = (t', r)" for r
    using that by (auto simp: memory_port_def memory_send_def Let_def v
        memory_view_update [of "t\<lparr>my_next_id := my_next_id t + 1\<rparr>", simplified]
        split: option.splits if_splits)
  show "case memory_view t c of
         Never \<Rightarrow> memory_view t' = memory_view t \<and> r = Inl (TeUnknownChannel c)
       | Live ms \<Rightarrow> r = Inr () \<and> memory_view t' = (memory_view t)(c := Live (filter (\<lambda>p. fst p \<noteq> i) ms))
       | Gone \<Rightarrow> memory_view t' = memory_view t \<and> r = Inl (TeRetired c)"
    if "po_ack (memory_port now) t c i = (t', r)" for r
    using that by (auto simp: memory_port_def memory_ack_def with_channel_def v view filter_pairs
        split: option.splits if_splits)
qed

definition ciphertexts_of :: "memory \<Rightarrow> string \<Rightarrow> bytes list" where
  "ciphertexts_of s c = (case my_channels s c of None \<Rightarrow> [] | Some ch \<Rightarrow> map st_ciphertext (ch_pending ch))"

section \<open>Pulling deliveries\<close>

lemma with_channel_read:
  "snd (with_channel s c (\<lambda>ch. (ch, f ch))) =
     (case my_channels s c of
        None \<Rightarrow> Inl (TeUnknownChannel c)
      | Some ch \<Rightarrow> if ch_retired ch then Inl (TeRetired c) else f ch)"
  by (simp add: with_channel_def split: option.split)

text \<open>What a subscription still has to deliver: the pending messages from its cursor on.\<close>

definition undelivered :: "memory \<Rightarrow> subscription \<Rightarrow> bytes list" where
  "undelivered s sub = drop (su_cursor sub) (ciphertexts_of s (su_channel sub))"

lemma next_delivery_order:
  assumes "my_channels s (su_channel sub) = Some ch" and "\<not> ch_retired ch"
  shows "\<exists>sub' d. next_delivery s sub = (sub', Inr d) \<and> su_channel sub' = su_channel sub \<and>
     (case d of
        None \<Rightarrow> undelivered s sub = [] \<and> sub' = sub
      | Some x \<Rightarrow> undelivered s sub = dl_ciphertext x # undelivered s sub')"
proof (cases "su_cursor sub < length (ch_pending ch)")
  case True
  then have "undelivered s sub = st_ciphertext (ch_pending ch ! su_cursor sub)
      # drop (Suc (su_cursor sub)) (map st_ciphertext (ch_pending ch))"
    using assms by (simp add: undelivered_def ciphertexts_of_def Cons_nth_drop_Suc [symmetric]
        drop_map)
  with True assms show ?thesis
    by (simp add: next_delivery_def with_channel_read undelivered_def ciphertexts_of_def)
next
  case False
  with assms show ?thesis
    by (simp add: next_delivery_def with_channel_read undelivered_def ciphertexts_of_def)
qed

text \<open>Pulling without acknowledging delivers every pending message once, in order.\<close>

fun pull_all :: "memory \<Rightarrow> subscription \<Rightarrow> nat \<Rightarrow> bytes list" where
  "pull_all s sub 0 = []"
| "pull_all s sub (Suc n) =
     (case next_delivery s sub of
        (sub', Inr (Some d)) \<Rightarrow> dl_ciphertext d # pull_all s sub' n
      | _ \<Rightarrow> [])"

lemma pull_all_delivers:
  assumes "my_channels s (su_channel sub) = Some ch" and "\<not> ch_retired ch"
    and "length (undelivered s sub) \<le> n"
  shows "pull_all s sub n = undelivered s sub"
  using assms
proof (induction n arbitrary: sub)
  case (Suc n)
  obtain sub' d where step: "next_delivery s sub = (sub', Inr d)" "su_channel sub' = su_channel sub"
    and d: "case d of None \<Rightarrow> undelivered s sub = [] \<and> sub' = sub
      | Some x \<Rightarrow> undelivered s sub = dl_ciphertext x # undelivered s sub'"
    using next_delivery_order [OF Suc.prems(1,2)] by blast
  show ?case
  proof (cases d)
    case None
    with step d show ?thesis by simp
  next
    case (Some x)
    with d have u: "undelivered s sub = dl_ciphertext x # undelivered s sub'" by simp
    then have "pull_all s sub' n = undelivered s sub'"
      using Suc.IH [of sub'] Suc.prems step(2) by simp
    with u step(1) Some show ?thesis by simp
  qed
qed simp

text \<open>
  The cursor counts positions, and an acknowledgement shifts them: acknowledging what was just
  pulled moves the next message to a position the cursor has passed.
\<close>

lemma ack_shifts:
  assumes "my_channels s c = Some ch" and "\<not> ch_retired ch" and "ch_pending ch = x # y # rest"
    and "st_id x \<noteq> st_id y" and "st_id x \<notin> st_id ` set rest"
    and "next_delivery s \<lparr>su_channel = c, su_cursor = 0\<rparr> = (sub, Inr (Some d))"
    and "memory_ack s c (dl_id d) = (s', r)"
  shows "undelivered s' sub = map st_ciphertext rest"
proof -
  have d: "dl_id d = st_id x" and sub: "sub = \<lparr>su_channel = c, su_cursor = 1\<rparr>"
    using assms(1-3,6) by (auto simp: next_delivery_def with_channel_read)
  have "filter (\<lambda>m. st_id m \<noteq> st_id x) rest = rest"
    using assms(5) by (intro filter_True) (metis image_eqI)
  then have "my_channels s' c = Some (ch\<lparr>ch_pending := y # rest\<rparr>)"
    using assms(1-4,7) d by (auto simp: memory_ack_def with_channel_def)
  then show ?thesis by (simp add: undelivered_def ciphertexts_of_def sub)
qed

end
