(* ===== verification/Outbox.thy ===== *)
theory Outbox
  imports Session Transport "HOL-Library.Product_Lexorder" "HOL-Library.Multiset"
begin

text \<open>
  The offline outbox, \<^verbatim>\<open>core/sund-client/src/outbox.rs\<close>: queueing with coalescing and a
  cap per channel, expiry, back-off, and one drain pass over a transport and the session manager.

  Seconds since the epoch are naturals: a \<^verbatim>\<open>SystemTime\<close> holds at most \<^verbatim>\<open>i64::MAX\<close> seconds,
  so adding a back-off of at most fifteen minutes stays within \<^verbatim>\<open>u64\<close>. Entry ids
  (\<^verbatim>\<open>u64\<close>) and attempt counters (\<^verbatim>\<open>u32\<close>) keep their width. The transport is a
  \<^verbatim>\<open>port\<close> with its state, the session manager the one of \<^verbatim>\<open>Session\<close>.
\<close>

section \<open>Constants and vocabulary\<close>

definition outbox_snapshot_version :: u8 where
  "outbox_snapshot_version = 1"

definition max_queued_per_channel :: nat where
  "max_queued_per_channel = 200"

definition backoff_base :: duration where
  "backoff_base = duration_from_secs 30"

definition backoff_ceiling :: duration where
  "backoff_ceiling = duration_from_secs (15 * 60)"

definition backoff_for :: "u32 \<Rightarrow> duration" where
  "backoff_for attempts = min (backoff_base * 2 ^ unat (min attempts 16)) backoff_ceiling"

record enqueue_request =
  eq_channel :: string
  eq_peer :: string
  eq_plaintext :: bytes
  eq_priority :: priority
  eq_ttl :: "duration option"
  eq_expires_at :: "system_time option"
  eq_coalesce_key :: "string option"

datatype enqueue_error = EnqueueFull string

definition display_enqueue_error :: "enqueue_error \<Rightarrow> string" where
  "display_enqueue_error e = (case e of EnqueueFull channel \<Rightarrow>
     ''channel `'' @ channel @ ''` holds '' @ dec_digits max_queued_per_channel
       @ '' undeliverable messages'')"

datatype drop_reason = DropExpired | DropSuperseded | DropChannelRetired | DropChannelUnknown
  | DropPeerForgotten

definition display_drop_reason :: "drop_reason \<Rightarrow> string" where
  "display_drop_reason r = (case r of
     DropExpired \<Rightarrow> ''it went stale before the network came back''
   | DropSuperseded \<Rightarrow> ''a newer message replaced it''
   | DropChannelRetired \<Rightarrow> ''the channel was retired''
   | DropChannelUnknown \<Rightarrow> ''the channel is not open''
   | DropPeerForgotten \<Rightarrow> ''the device is no longer in the family'')"

datatype defer_reason = DeferUnreachable string | DeferSessionLost | DeferPeerUnknown | DeferNoSession

definition display_defer_reason :: "defer_reason \<Rightarrow> string" where
  "display_defer_reason r = (case r of
     DeferUnreachable detail \<Rightarrow> ''the server could not be reached: '' @ detail
   | DeferSessionLost \<Rightarrow> ''the secure session needs re-establishing''
   | DeferPeerUnknown \<Rightarrow> ''this device's keys have not been verified yet''
   | DeferNoSession \<Rightarrow> ''no secure session with this device yet'')"

record sent =
  snt_id :: u64
  snt_channel :: string
  snt_peer :: string
  snt_message_id :: string
  snt_queued_for :: duration

record dropped =
  dp_id :: u64
  dp_channel :: string
  dp_peer :: string
  dp_reason :: drop_reason

record deferred =
  df_id :: u64
  df_channel :: string
  df_peer :: string
  df_reason :: defer_reason
  df_attempts :: u32

record drain_report =
  rp_sent :: "sent list"
  rp_dropped :: "dropped list"
  rp_deferred :: "deferred list"

definition report_new :: drain_report where
  "report_new = \<lparr>rp_sent = [], rp_dropped = [], rp_deferred = []\<rparr>"

definition report_is_empty :: "drain_report \<Rightarrow> bool" where
  "report_is_empty r \<longleftrightarrow> rp_sent r = [] \<and> rp_dropped r = [] \<and> rp_deferred r = []"

definition needs_session :: "drain_report \<Rightarrow> string list" where
  "needs_session r =
     remdups_adj (sort (map df_peer
       (filter (\<lambda>d. df_reason d = DeferSessionLost \<or> df_reason d = DeferNoSession) (rp_deferred r))))"

record entry =
  oe_id :: u64
  oe_channel :: string
  oe_peer :: string
  oe_plaintext :: bytes
  oe_high_priority :: bool
  oe_ttl_secs :: "nat option"
  oe_expires_at_secs :: "nat option"
  oe_coalesce_key :: "string option"
  oe_enqueued_at_secs :: nat
  oe_attempts :: u32
  oe_not_before_secs :: nat

definition entry_priority :: "entry \<Rightarrow> priority" where
  "entry_priority e = (if oe_high_priority e then PrHigh else PrNormal)"

definition is_durable :: "entry \<Rightarrow> bool" where
  "is_durable e \<longleftrightarrow> oe_expires_at_secs e = None"

definition expired_at :: "entry \<Rightarrow> nat \<Rightarrow> bool" where
  "expired_at e now = (case oe_expires_at_secs e of None \<Rightarrow> False | Some at \<Rightarrow> at \<le> now)"

record outbox_snapshot =
  os_v :: u8
  os_next_id :: u64
  os_entries :: "entry list"

datatype outbox_snapshot_error = OsUnsupportedVersion u8

definition display_outbox_snapshot_error :: "outbox_snapshot_error \<Rightarrow> string" where
  "display_outbox_snapshot_error e = (case e of OsUnsupportedVersion found \<Rightarrow>
     ''unsupported outbox version '' @ dec_digits (unat found))"

record outbox =
  ox_entries :: "entry list"
  ox_next_id :: u64

section \<open>Operations\<close>

definition outbox_new :: outbox where
  "outbox_new = \<lparr>ox_entries = [], ox_next_id = 0\<rparr>"

definition outbox_len :: "outbox \<Rightarrow> nat" where
  "outbox_len ob = length (ox_entries ob)"

definition outbox_is_empty :: "outbox \<Rightarrow> bool" where
  "outbox_is_empty ob \<longleftrightarrow> ox_entries ob = []"

definition pending_for :: "outbox \<Rightarrow> string \<Rightarrow> nat" where
  "pending_for ob peer = length (filter (\<lambda>e. oe_peer e = peer) (ox_entries ob))"

definition epoch_seconds :: "system_time \<Rightarrow> nat" where
  "epoch_seconds t = (if 0 \<le> t then nat (secs_since_epoch t) else 0)"

text \<open>\<^verbatim>\<open>position\<close> and \<^verbatim>\<open>remove\<close> on a vector: the first match and the rest.\<close>

fun take_first :: "('a \<Rightarrow> bool) \<Rightarrow> 'a list \<Rightarrow> ('a \<times> 'a list) option" where
  "take_first P [] = None"
| "take_first P (x # xs) =
     (if P x then Some (x, xs)
      else (case take_first P xs of None \<Rightarrow> None | Some (y, ys) \<Rightarrow> Some (y, x # ys)))"

definition drop_entry :: "drop_reason \<Rightarrow> entry \<Rightarrow> dropped" where
  "drop_entry reason e =
     \<lparr>dp_id = oe_id e, dp_channel = oe_channel e, dp_peer = oe_peer e, dp_reason = reason\<rparr>"

definition new_entry :: "u64 \<Rightarrow> enqueue_request \<Rightarrow> nat \<Rightarrow> entry" where
  "new_entry i m seconds =
     \<lparr>oe_id = i, oe_channel = eq_channel m, oe_peer = eq_peer m, oe_plaintext = eq_plaintext m,
      oe_high_priority = (eq_priority m = PrHigh), oe_ttl_secs = map_option duration_as_secs (eq_ttl m),
      oe_expires_at_secs = map_option epoch_seconds (eq_expires_at m),
      oe_coalesce_key = eq_coalesce_key m, oe_enqueued_at_secs = seconds, oe_attempts = 0,
      oe_not_before_secs = seconds\<rparr>"

definition enqueue ::
  "outbox \<Rightarrow> enqueue_request \<Rightarrow> system_time \<Rightarrow> outbox \<times> (enqueue_error + u64 \<times> dropped option)"
where
  "enqueue ob m now =
     (let coalesced =
            (case eq_coalesce_key m of
               None \<Rightarrow> None
             | Some key \<Rightarrow> take_first (\<lambda>e. oe_channel e = eq_channel m \<and> oe_coalesce_key e = Some key)
                             (ox_entries ob));
          (entries, superseded) =
            (case coalesced of
               None \<Rightarrow> (ox_entries ob, None)
             | Some (old, rest) \<Rightarrow> (rest, Some (drop_entry DropSuperseded old)));
          queued = length (filter (\<lambda>e. oe_channel e = eq_channel m) entries);
          room =
            (if superseded = None \<and> queued \<ge> max_queued_per_channel
             then (case take_first (\<lambda>e. oe_channel e = eq_channel m \<and> \<not> is_durable e) entries of
                     Some (old, rest) \<Rightarrow> Inr (rest, Some (drop_entry DropExpired old))
                   | None \<Rightarrow> Inl (EnqueueFull (eq_channel m)))
             else Inr (entries, superseded))
      in case room of
           Inl e \<Rightarrow> (ob\<lparr>ox_entries := entries\<rparr>, Inl e)
         | Inr (entries, superseded) \<Rightarrow>
             (let id = ox_next_id ob
              in (\<lparr>ox_entries = entries @ [new_entry id m (epoch_seconds now)], ox_next_id = id + 1\<rparr>,
                  Inr (id, superseded))))"

subsection \<open>One drain pass\<close>

text \<open>
  The state of a pass: the queue (indexed, its length fixed while the pass runs), the report, the
  ids sent and dropped, the channels that have failed, and the transport and session manager it
  works on.
\<close>

record ('acc, 'ses, 't) pass =
  pa_entries :: "entry list"
  pa_report :: drain_report
  pa_sent_ids :: "u64 list"
  pa_dropped_ids :: "u64 list"
  pa_failed :: "(string, defer_reason) btree"
  pa_transport :: 't
  pa_sessions :: "('acc, 'ses) session_manager"

definition defer_reason_of :: "session_error \<Rightarrow> defer_reason" where
  "defer_reason_of e = (case e of
     SeSessionLost _ _ \<Rightarrow> DeferSessionLost
   | SeUnknownPeer _ \<Rightarrow> DeferPeerUnknown
   | SeNoSession _ \<Rightarrow> DeferNoSession
   | other \<Rightarrow> DeferUnreachable (display_session_error other))"

definition defer_entry :: "defer_reason \<Rightarrow> u32 \<Rightarrow> entry \<Rightarrow> deferred" where
  "defer_entry reason attempts e =
     \<lparr>df_id = oe_id e, df_channel = oe_channel e, df_peer = oe_peer e, df_reason = reason,
      df_attempts = attempts\<rparr>"

definition back_off :: "nat \<Rightarrow> entry \<Rightarrow> entry" where
  "back_off seconds e =
     (let attempts = oe_attempts e + 1
      in e\<lparr>oe_attempts := attempts,
           oe_not_before_secs := seconds + duration_as_secs (backoff_for attempts)\<rparr>)"

definition add_sent :: "sent \<Rightarrow> drain_report \<Rightarrow> drain_report" where
  "add_sent x r = r\<lparr>rp_sent := rp_sent r @ [x]\<rparr>"

definition add_dropped :: "dropped \<Rightarrow> drain_report \<Rightarrow> drain_report" where
  "add_dropped x r = r\<lparr>rp_dropped := rp_dropped r @ [x]\<rparr>"

definition add_deferred :: "deferred \<Rightarrow> drain_report \<Rightarrow> drain_report" where
  "add_deferred x r = r\<lparr>rp_deferred := rp_deferred r @ [x]\<rparr>"

definition outbound_of :: "entry \<Rightarrow> bytes \<Rightarrow> outbound" where
  "outbound_of e sealed =
     (let message = with_priority (outbound_new sealed) (entry_priority e)
      in case oe_ttl_secs e of None \<Rightarrow> message
         | Some ttl \<Rightarrow> with_ttl message (duration_from_secs ttl))"

definition send_sealed ::
  "'t port \<Rightarrow> nat \<Rightarrow> nat \<Rightarrow> entry \<Rightarrow> bytes \<Rightarrow> ('acc, 'ses, 't) pass \<Rightarrow> ('acc, 'ses, 't) pass"
where
  "send_sealed port seconds index e sealed p =
     (let (t, result) = po_send port (pa_transport p) (oe_channel e) (outbound_of e sealed);
          p = p\<lparr>pa_transport := t\<rparr>;
          channel_dead = (\<lambda>reason. p\<lparr>pa_report := add_dropped (drop_entry reason e) (pa_report p),
                             pa_dropped_ids := pa_dropped_ids p @ [oe_id e],
                             pa_failed := bt_insert (oe_channel e) DeferNoSession (pa_failed p)\<rparr>)
      in case result of
           Inr message_id \<Rightarrow>
             p\<lparr>pa_report := add_sent
                 \<lparr>snt_id = oe_id e, snt_channel = oe_channel e, snt_peer = oe_peer e,
                  snt_message_id = message_id,
                  snt_queued_for = duration_from_secs (seconds - oe_enqueued_at_secs e)\<rparr> (pa_report p),
               pa_sent_ids := pa_sent_ids p @ [oe_id e]\<rparr>
         | Inl (TeRetired _) \<Rightarrow> channel_dead DropChannelRetired
         | Inl (TeUnknownChannel _) \<Rightarrow> channel_dead DropChannelUnknown
         | Inl (TeBackend detail) \<Rightarrow>
             p\<lparr>pa_report := add_deferred (defer_entry (DeferUnreachable detail) (oe_attempts e + 1) e)
                             (pa_report p),
               pa_failed := bt_insert (oe_channel e) (DeferUnreachable detail) (pa_failed p),
               pa_entries := (pa_entries p)[index := back_off seconds e]\<rparr>)"

definition drain_entry ::
  "('acc, 'ses) olm \<Rightarrow> 't port \<Rightarrow> nat \<Rightarrow> nat \<Rightarrow> ('acc, 'ses, 't) pass \<Rightarrow> ('acc, 'ses, 't) pass"
where
  "drain_entry om port seconds index p =
     (let e = pa_entries p ! index
      in case bt_get (pa_failed p) (oe_channel e) of
           Some reason \<Rightarrow>
             p\<lparr>pa_report := add_deferred (defer_entry reason (oe_attempts e) e) (pa_report p)\<rparr>
         | None \<Rightarrow>
             (let (sessions, sealed) = session_encrypt om (pa_sessions p) (oe_peer e) (oe_plaintext e);
                  p = p\<lparr>pa_sessions := sessions\<rparr>
              in case sealed of
                   Inr frame \<Rightarrow> send_sealed port seconds index e frame p
                 | Inl error \<Rightarrow>
                     p\<lparr>pa_report := add_deferred (defer_entry (defer_reason_of error) (oe_attempts e + 1) e)
                                     (pa_report p),
                       pa_entries := (pa_entries p)[index := back_off seconds e]\<rparr>))"

text \<open>A retired or unknown channel takes its whole backlog with it.\<close>

definition drop_channel :: "string \<Rightarrow> ('acc, 'ses, 't) pass \<Rightarrow> ('acc, 'ses, 't) pass" where
  "drop_channel channel p =
     (let reason =
            (if \<exists>d \<in> set (rp_dropped (pa_report p)).
                  dp_channel d = channel \<and> dp_reason d = DropChannelRetired
             then DropChannelRetired else DropChannelUnknown);
          backlog = (\<lambda>e. oe_channel e = channel \<and> oe_id e \<notin> set (pa_dropped_ids p));
          gone = filter backlog (pa_entries p)
      in p\<lparr>pa_entries := filter (\<lambda>e. \<not> backlog e) (pa_entries p),
           pa_report := (pa_report p)
             \<lparr>rp_dropped := rp_dropped (pa_report p) @ map (drop_entry reason) gone,
              rp_deferred := filter (\<lambda>d. df_id d \<notin> oe_id ` set gone) (rp_deferred (pa_report p))\<rparr>\<rparr>)"

definition dead_channels :: "('acc, 'ses, 't) pass \<Rightarrow> string list" where
  "dead_channels p = map fst (filter (\<lambda>(_, reason). reason = DeferNoSession) (bt_entries (pa_failed p)))"

definition drain_key :: "entry \<Rightarrow> bool \<times> nat \<times> nat" where
  "drain_key e = (\<not> oe_high_priority e, oe_enqueued_at_secs e, unat (oe_id e))"

definition due_indices :: "entry list \<Rightarrow> nat \<Rightarrow> nat \<Rightarrow> nat list" where
  "due_indices entries seconds budget =
     take budget
       (sort_key (\<lambda>index. drain_key (entries ! index))
         (filter (\<lambda>index. oe_not_before_secs (entries ! index) \<le> seconds) [0..<length entries]))"

definition drain_start ::
  "outbox \<Rightarrow> nat \<Rightarrow> 't \<Rightarrow> ('acc, 'ses) session_manager \<Rightarrow> ('acc, 'ses, 't) pass"
where
  "drain_start ob seconds t s =
     \<lparr>pa_entries = filter (\<lambda>e. \<not> expired_at e seconds) (ox_entries ob),
      pa_report = report_new\<lparr>rp_dropped :=
        map (drop_entry DropExpired) (filter (\<lambda>e. expired_at e seconds) (ox_entries ob))\<rparr>,
      pa_sent_ids = [], pa_dropped_ids = [], pa_failed = bt_empty, pa_transport = t, pa_sessions = s\<rparr>"

definition drain ::
  "('acc, 'ses) olm \<Rightarrow> 't port \<Rightarrow> outbox \<Rightarrow> 't \<Rightarrow> ('acc, 'ses) session_manager \<Rightarrow> system_time \<Rightarrow> nat
     \<Rightarrow> outbox \<times> 't \<times> ('acc, 'ses) session_manager \<times> drain_report"
where
  "drain om port ob t s now budget =
     (let seconds = epoch_seconds now;
          p0 = drain_start ob seconds t s;
          p1 = fold (drain_entry om port seconds) (due_indices (pa_entries p0) seconds budget) p0;
          p2 = fold drop_channel (dead_channels p1) p1
      in (ob\<lparr>ox_entries := filter (\<lambda>e. oe_id e \<notin> set (pa_sent_ids p2) \<and> oe_id e \<notin> set (pa_dropped_ids p2))
                            (pa_entries p2)\<rparr>,
          pa_transport p2, pa_sessions p2, pa_report p2))"

subsection \<open>Forgetting a peer, and the disk\<close>

definition forget_peer :: "outbox \<Rightarrow> string \<Rightarrow> outbox \<times> dropped list" where
  "forget_peer ob peer =
     (ob\<lparr>ox_entries := filter (\<lambda>e. oe_peer e \<noteq> peer) (ox_entries ob)\<rparr>,
      map (drop_entry DropPeerForgotten) (filter (\<lambda>e. oe_peer e = peer) (ox_entries ob)))"

definition outbox_export :: "outbox \<Rightarrow> outbox_snapshot" where
  "outbox_export ob =
     \<lparr>os_v = outbox_snapshot_version, os_next_id = ox_next_id ob, os_entries = ox_entries ob\<rparr>"

definition outbox_import :: "outbox_snapshot \<Rightarrow> outbox_snapshot_error + outbox" where
  "outbox_import s =
     (if os_v s \<noteq> outbox_snapshot_version then Inl (OsUnsupportedVersion (os_v s))
      else Inr \<lparr>ox_entries = os_entries s, ox_next_id = os_next_id s\<rparr>)"

interpretation outbox_disk: snapshot outbox_export outbox_import "\<lambda>_. True"
  by unfold_locales (simp add: outbox_export_def outbox_import_def)

section \<open>Back-off\<close>

lemma backoff_seconds:
  "duration_as_secs (backoff_for attempts) = min (30 * 2 ^ unat (min attempts 16)) 900"
proof -
  have "backoff_for attempts = duration_from_secs (min (30 * 2 ^ unat (min attempts 16)) 900)"
    by (simp add: backoff_for_def backoff_base_def backoff_ceiling_def duration_from_secs_def min_def)
  then show ?thesis by (simp add: duration_from_secs_def duration_as_secs_def)
qed

lemma backoff_bounds:
  "30 \<le> duration_as_secs (backoff_for attempts)" "duration_as_secs (backoff_for attempts) \<le> 900"
  by (simp_all add: backoff_seconds)

lemma backoff_mono:
  assumes "a \<le> b"
  shows "duration_as_secs (backoff_for a) \<le> duration_as_secs (backoff_for b)"
proof -
  have "unat (min a 16) \<le> unat (min b 16)"
    using assms by (simp add: word_le_nat_alt [symmetric] min.coboundedI1 min_le_iff_disj)
  then have "(2::nat) ^ unat (min a 16) \<le> 2 ^ unat (min b 16)" by simp
  then show ?thesis unfolding backoff_seconds by (simp add: min.coboundedI1 min_le_iff_disj)
qed

section \<open>Enqueueing\<close>

lemma take_first_Some:
  "take_first P xs = Some (x, rest) \<Longrightarrow>
     \<exists>us vs. xs = us @ x # vs \<and> rest = us @ vs \<and> P x \<and> list_all (\<lambda>y. \<not> P y) us"
proof (induction xs arbitrary: rest)
  case (Cons y ys)
  show ?case
  proof (cases "P y")
    case True
    then show ?thesis using Cons.prems by (auto intro: exI [of _ "[]"])
  next
    case False
    with Cons.prems obtain r where "take_first P ys = Some (x, r)" "rest = y # r"
      by (auto split: option.splits)
    from Cons.IH [OF this(1)] obtain us vs where
      "ys = us @ x # vs" "r = us @ vs" "P x" "list_all (\<lambda>y. \<not> P y) us" by blast
    then show ?thesis using \<open>rest = y # r\<close> False by (auto intro: exI [of _ "y # us"])
  qed
qed simp

lemma take_first_None: "take_first P xs = None \<longleftrightarrow> list_all (\<lambda>y. \<not> P y) xs"
  by (induction xs) (auto split: option.splits)

text \<open>
  The well-formed queues: ids are distinct and below the counter, no channel holds more than the
  cap, and a coalescing key occurs at most once per channel.
\<close>

definition on_channel :: "string \<Rightarrow> entry list \<Rightarrow> entry list" where
  "on_channel c es = filter (\<lambda>e. oe_channel e = c) es"

definition coalescing :: "string \<Rightarrow> string \<Rightarrow> entry list \<Rightarrow> entry list" where
  "coalescing c k es = filter (\<lambda>e. oe_channel e = c \<and> oe_coalesce_key e = Some k) es"

definition outbox_inv :: "outbox \<Rightarrow> bool" where
  "outbox_inv ob \<longleftrightarrow>
     distinct (map oe_id (ox_entries ob)) \<and>
     (\<forall>e \<in> set (ox_entries ob). oe_id e < ox_next_id ob) \<and>
     (\<forall>c. length (on_channel c (ox_entries ob)) \<le> max_queued_per_channel) \<and>
     (\<forall>c k. length (coalescing c k (ox_entries ob)) \<le> 1)"

lemma on_channel_simps [simp]:
  "on_channel c [] = []" "on_channel c (e # es) = (if oe_channel e = c then [e] else []) @ on_channel c es"
  "on_channel c (xs @ ys) = on_channel c xs @ on_channel c ys"
  by (simp_all add: on_channel_def)

lemma coalescing_simps [simp]:
  "coalescing c k [] = []"
  "coalescing c k (e # es) =
     (if oe_channel e = c \<and> oe_coalesce_key e = Some k then [e] else []) @ coalescing c k es"
  "coalescing c k (xs @ ys) = coalescing c k xs @ coalescing c k ys"
  by (simp_all add: coalescing_def)

lemma outbox_inv_new [simp]: "outbox_inv outbox_new"
  by (simp add: outbox_inv_def outbox_new_def)

text \<open>
  A queue that lost entries, or whose entries were backed off, is still well formed: the
  invariant reads only what back-off leaves alone.
\<close>

definition tag :: "entry \<Rightarrow> u64 \<times> string \<times> string option" where
  "tag e = (oe_id e, oe_channel e, oe_coalesce_key e)"

lemma length_filter_tags:
  assumes "mset (map tag es) \<subseteq># mset (map tag fs)" and "\<And>e. P e = Q (tag e)"
  shows "length (filter P es) \<le> length (filter P fs)"
proof -
  have *: "length (filter P xs) = size (filter_mset Q (mset (map tag xs)))" for xs
    by (induction xs) (auto simp: assms(2))
  show ?thesis unfolding * by (intro size_mset_mono multiset_filter_mono assms(1))
qed

lemma outbox_inv_part:
  assumes inv: "outbox_inv ob" and sub: "mset (map tag es) \<subseteq># mset (map tag (ox_entries ob))"
  shows "outbox_inv (ob\<lparr>ox_entries := es\<rparr>)"
proof -
  obtain rest where m: "mset (map tag (ox_entries ob)) = mset (map tag es @ rest)"
    using sub by (metis ex_mset mset_append subset_mset.le_iff_add)
  have ids: "map fst (map tag xs) = map oe_id xs" for xs by (simp add: tag_def)
  have "mset (map oe_id (ox_entries ob)) = mset (map oe_id es @ map fst rest)"
    using arg_cong [OF m, of "image_mset fst"] ids by (metis map_append mset_map)
  then have d: "distinct (map oe_id es)" and i: "set (map oe_id es) \<subseteq> set (map oe_id (ox_entries ob))"
    using inv mset_eq_imp_distinct_iff mset_eq_setD unfolding outbox_inv_def
    by (metis distinct_append, metis Un_upper1 set_append)
  have "\<forall>e \<in> set es. oe_id e < ox_next_id ob"
    using i inv unfolding outbox_inv_def by force
  moreover have "length (on_channel c es) \<le> length (on_channel c (ox_entries ob))" for c
    unfolding on_channel_def
    by (rule length_filter_tags [OF sub, where Q = "\<lambda>(_, c', _). c' = c"]) (simp add: tag_def)
  moreover have "length (coalescing c k es) \<le> length (coalescing c k (ox_entries ob))" for c k
    unfolding coalescing_def
    by (rule length_filter_tags [OF sub, where Q = "\<lambda>(_, c', k'). c' = c \<and> k' = Some k"])
      (simp add: tag_def)
  ultimately show ?thesis
    using inv d unfolding outbox_inv_def by simp (meson le_trans)
qed

text \<open>What an enqueue removes: nothing, the entry it supersedes, or the oldest one allowed to expire.\<close>

inductive makes_room :: "outbox \<Rightarrow> enqueue_request \<Rightarrow> entry list \<Rightarrow> dropped option \<Rightarrow> bool" for ob m where
  room_superseded: "ox_entries ob = us @ old # vs \<Longrightarrow> oe_channel old = eq_channel m \<Longrightarrow>
     eq_coalesce_key m = Some k \<Longrightarrow> oe_coalesce_key old = Some k \<Longrightarrow>
     makes_room ob m (us @ vs) (Some (drop_entry DropSuperseded old))"
| room_left: "length (on_channel (eq_channel m) (ox_entries ob)) < max_queued_per_channel \<Longrightarrow>
     (\<And>k. eq_coalesce_key m = Some k \<Longrightarrow> coalescing (eq_channel m) k (ox_entries ob) = []) \<Longrightarrow>
     makes_room ob m (ox_entries ob) None"
| room_expired: "ox_entries ob = us @ old # vs \<Longrightarrow> oe_channel old = eq_channel m \<Longrightarrow>
     \<not> is_durable old \<Longrightarrow> list_all (\<lambda>e. oe_channel e = eq_channel m \<longrightarrow> is_durable e) us \<Longrightarrow>
     max_queued_per_channel \<le> length (on_channel (eq_channel m) (ox_entries ob)) \<Longrightarrow>
     (\<And>k. eq_coalesce_key m = Some k \<Longrightarrow> coalescing (eq_channel m) k (ox_entries ob) = []) \<Longrightarrow>
     makes_room ob m (us @ vs) (Some (drop_entry DropExpired old))"

inductive_cases makes_roomE: "makes_room ob m es d"

lemma coalescing_none:
  "take_first (\<lambda>e. oe_channel e = c \<and> oe_coalesce_key e = Some k) es = None \<longleftrightarrow> coalescing c k es = []"
  by (simp add: take_first_None list_all_iff coalescing_def filter_empty_conv)

definition channel_full :: "outbox \<Rightarrow> string \<Rightarrow> bool" where
  "channel_full ob c \<longleftrightarrow>
     max_queued_per_channel \<le> length (on_channel c (ox_entries ob)) \<and>
     list_all is_durable (on_channel c (ox_entries ob))"

lemma enqueue_without_coalescing:
  assumes none: "\<And>k. eq_coalesce_key m = Some k \<Longrightarrow> coalescing (eq_channel m) k (ox_entries ob) = []"
  shows "case enqueue ob m now of
      (ob', Inl e) \<Rightarrow> ob' = ob \<and> e = EnqueueFull (eq_channel m) \<and> channel_full ob (eq_channel m)
    | (ob', Inr (i, d)) \<Rightarrow> i = ox_next_id ob \<and> ox_next_id ob' = i + 1 \<and> \<not> channel_full ob (eq_channel m) \<and>
        (\<exists>es. makes_room ob m es d \<and> ox_entries ob' = es @ [new_entry i m (epoch_seconds now)])"
proof -
  let ?c = "eq_channel m"
  have c: "(case eq_coalesce_key m of None \<Rightarrow> None
      | Some key \<Rightarrow> take_first (\<lambda>e. oe_channel e = ?c \<and> oe_coalesce_key e = Some key) (ox_entries ob)) = None"
    using none by (auto simp: coalescing_none split: option.split)
  show ?thesis
  proof (cases "max_queued_per_channel \<le> length (on_channel ?c (ox_entries ob))")
    case False
    then have "makes_room ob m (ox_entries ob) None" using none by (intro room_left) simp_all
    then show ?thesis using False
      by (auto simp: enqueue_def Let_def c on_channel_def [symmetric] channel_full_def)
  next
    case True
    show ?thesis
    proof (cases "take_first (\<lambda>e. oe_channel e = ?c \<and> \<not> is_durable e) (ox_entries ob)")
      case None
      then have "list_all is_durable (on_channel ?c (ox_entries ob))"
        by (auto simp: take_first_None list_all_iff on_channel_def)
      then show ?thesis using True None
        by (simp add: enqueue_def Let_def c on_channel_def [symmetric] channel_full_def)
    next
      case (Some p)
      obtain old rest where p: "p = (old, rest)" by (cases p)
      with Some obtain us vs where e: "ox_entries ob = us @ old # vs" "rest = us @ vs"
          "oe_channel old = ?c" "\<not> is_durable old" "list_all (\<lambda>e. \<not> (oe_channel e = ?c \<and> \<not> is_durable e)) us"
        using take_first_Some by fastforce
      have "makes_room ob m rest (Some (drop_entry DropExpired old))"
        unfolding e(2) using e True none by (intro room_expired) (auto simp: list_all_iff)
      moreover have "\<not> list_all is_durable (on_channel ?c (ox_entries ob))"
        using e by simp
      ultimately show ?thesis using True Some p
        by (auto simp: enqueue_def Let_def c on_channel_def [symmetric] channel_full_def)
    qed
  qed
qed

lemma enqueue_with_coalescing:
  assumes k: "eq_coalesce_key m = Some k" and some: "coalescing (eq_channel m) k (ox_entries ob) \<noteq> []"
  shows "\<exists>es d. makes_room ob m es (Some d) \<and> enqueue ob m now =
    (\<lparr>ox_entries = es @ [new_entry (ox_next_id ob) m (epoch_seconds now)], ox_next_id = ox_next_id ob + 1\<rparr>,
     Inr (ox_next_id ob, Some d))"
proof -
  obtain old rest where t: "take_first (\<lambda>e. oe_channel e = eq_channel m \<and> oe_coalesce_key e = Some k)
      (ox_entries ob) = Some (old, rest)"
    using some coalescing_none by (metis not_Some_eq surj_pair)
  then obtain us vs where e: "ox_entries ob = us @ old # vs" "rest = us @ vs"
      "oe_channel old = eq_channel m" "oe_coalesce_key old = Some k"
    using take_first_Some by fastforce
  have "makes_room ob m rest (Some (drop_entry DropSuperseded old))"
    unfolding e(2) using e k by (intro room_superseded)
  then show ?thesis using k t by (auto simp: enqueue_def Let_def)
qed

lemma enqueue_result:
  "case enqueue ob m now of
      (ob', Inl e) \<Rightarrow> ob' = ob \<and> e = EnqueueFull (eq_channel m) \<and> channel_full ob (eq_channel m)
    | (ob', Inr (i, d)) \<Rightarrow> i = ox_next_id ob \<and> ox_next_id ob' = i + 1 \<and>
        (\<exists>es. makes_room ob m es d \<and> ox_entries ob' = es @ [new_entry i m (epoch_seconds now)])"
proof (cases "\<exists>k. eq_coalesce_key m = Some k \<and> coalescing (eq_channel m) k (ox_entries ob) \<noteq> []")
  case True
  then show ?thesis using enqueue_with_coalescing [of m _ ob now] by (force split: prod.split)
next
  case False
  then show ?thesis using enqueue_without_coalescing [of m ob now] by (auto split: prod.splits sum.splits)
qed

lemma makes_room_parts:
  assumes "makes_room ob m es d"
  shows "(d = None \<and> es = ox_entries ob) \<or>
    (\<exists>us old vs why. ox_entries ob = us @ old # vs \<and> es = us @ vs \<and> d = Some (drop_entry why old)
       \<and> oe_channel old = eq_channel m
       \<and> (why = DropSuperseded \<and> eq_coalesce_key m \<noteq> None \<and> oe_coalesce_key old = eq_coalesce_key m
          \<or> why = DropExpired \<and> \<not> is_durable old))"
  using assms
proof (cases rule: makes_room.cases)
  case (room_superseded us old vs k)
  then show ?thesis
    by (intro disjI2 exI [of _ us] exI [of _ old] exI [of _ vs] exI [of _ DropSuperseded]) simp
next
  case (room_expired us old vs)
  then show ?thesis
    by (intro disjI2 exI [of _ us] exI [of _ old] exI [of _ vs] exI [of _ DropExpired]) simp
qed simp

lemma makes_room_space:
  assumes "outbox_inv ob" and "makes_room ob m es d"
  shows "length (on_channel (eq_channel m) es) < max_queued_per_channel"
    and "eq_coalesce_key m = Some k \<Longrightarrow> coalescing (eq_channel m) k es = []"
proof -
  have cap: "length (on_channel (eq_channel m) (ox_entries ob)) \<le> max_queued_per_channel"
    and one: "length (coalescing (eq_channel m) k (ox_entries ob)) \<le> 1" for k
    using assms(1) by (simp_all add: outbox_inv_def)
  show "length (on_channel (eq_channel m) es) < max_queued_per_channel"
    using assms(2) cap by (elim makes_roomE) auto
  show "coalescing (eq_channel m) k es = []" if "eq_coalesce_key m = Some k"
    using assms(2) one [of k] that by (elim makes_roomE) auto
qed

lemma new_entry_simps [simp]:
  "oe_id (new_entry i m s) = i" "oe_channel (new_entry i m s) = eq_channel m"
  "oe_coalesce_key (new_entry i m s) = eq_coalesce_key m"
  by (simp_all add: new_entry_def)

lemma enqueue_inv:
  assumes inv: "outbox_inv ob" and fresh: "ox_next_id ob \<noteq> - 1"
  shows "outbox_inv (fst (enqueue ob m now))"
proof (cases "snd (enqueue ob m now)")
  case (Inl e)
  then show ?thesis using enqueue_result [of ob m now] inv by (auto split: prod.splits)
next
  case (Inr r)
  obtain ob' i d where e: "enqueue ob m now = (ob', Inr (i, d))"
    using Inr by (metis prod.collapse)
  then obtain es where i: "i = ox_next_id ob" "ox_next_id ob' = i + 1" and room: "makes_room ob m es d"
    and es: "ox_entries ob' = es @ [new_entry i m (epoch_seconds now)]"
    using enqueue_result [of ob m now] by auto
  have part: "outbox_inv (ob\<lparr>ox_entries := es\<rparr>)"
    using makes_room_parts [OF room] by (intro outbox_inv_part [OF inv]) auto
  have less: "ox_next_id ob < ox_next_id ob + 1"
    using fresh by (rule word_less_Suc)
  have old: "distinct (map oe_id es)" "\<forall>e \<in> set es. oe_id e < ox_next_id ob"
      "\<forall>c. length (on_channel c es) \<le> max_queued_per_channel" "\<forall>c k. length (coalescing c k es) \<le> 1"
    using part by (simp_all add: outbox_inv_def)
  have "distinct (map oe_id (ox_entries ob')) \<and> (\<forall>e \<in> set (ox_entries ob'). oe_id e < ox_next_id ob')"
    using old(1,2) less by (auto simp: es i)
  moreover have "length (on_channel c (ox_entries ob')) \<le> max_queued_per_channel" for c
    using old(3) makes_room_space(1) [OF inv room] by (auto simp: es Suc_le_eq)
  moreover have "length (coalescing c k (ox_entries ob')) \<le> 1" for c k
    using old(4) makes_room_space(2) [OF inv room, of k] by (auto simp: es)
  ultimately show ?thesis by (simp add: e outbox_inv_def)
qed

lemma enqueue_keeps_durable:
  assumes "e \<in> set (ox_entries ob)" and "is_durable e"
    and "\<not> (oe_channel e = eq_channel m \<and> oe_coalesce_key e = eq_coalesce_key m \<and> eq_coalesce_key m \<noteq> None)"
  shows "e \<in> set (ox_entries (fst (enqueue ob m now)))"
proof (cases "enqueue ob m now")
  case (Pair ob' r)
  show ?thesis
  proof (cases r)
    case (Inl x)
    then show ?thesis using enqueue_result [of ob m now] Pair assms(1) by simp
  next
    case (Inr x)
    then obtain i d es where "makes_room ob m es d" "ox_entries ob' = es @ [new_entry i m (epoch_seconds now)]"
      using enqueue_result [of ob m now] Pair by (cases x) auto
    then show ?thesis using makes_room_parts [of ob m es d] assms Pair by auto
  qed
qed

lemma forget_peer_inv: "outbox_inv ob \<Longrightarrow> outbox_inv (fst (forget_peer ob peer))"
  by (simp add: forget_peer_def outbox_inv_part image_mset_subseteq_mono multiset_filter_subset)

lemma forget_peer_pending: "pending_for (fst (forget_peer ob peer)) p = (if p = peer then 0 else pending_for ob p)"
  by (auto simp: forget_peer_def pending_for_def filter_empty_conv intro: arg_cong [where f = length] filter_cong)

end
