(* ===== verification/Drain.thy ===== *)
theory Drain
  imports Outbox "HOL-Library.Sublist"
begin

text \<open>
  What a drain of the outbox does to the queue: every entry that was waiting is afterwards still
  waiting, or reported sent, or reported dropped; nothing expired goes out; urgent entries go
  first; the budget holds.
\<close>

section \<open>One entry\<close>

lemma report_simps [simp]:
  "rp_sent (add_sent x r) = rp_sent r @ [x]" "rp_dropped (add_sent x r) = rp_dropped r"
  "rp_deferred (add_sent x r) = rp_deferred r" "rp_sent (add_dropped y r) = rp_sent r"
  "rp_dropped (add_dropped y r) = rp_dropped r @ [y]" "rp_deferred (add_dropped y r) = rp_deferred r"
  "rp_sent (add_deferred z r) = rp_sent r" "rp_dropped (add_deferred z r) = rp_dropped r"
  "rp_deferred (add_deferred z r) = rp_deferred r @ [z]"
  by (simp_all add: add_sent_def add_dropped_def add_deferred_def)

lemma record_ids [simp]:
  "dp_id (drop_entry why e) = oe_id e" "dp_channel (drop_entry why e) = oe_channel e"
  "dp_reason (drop_entry why e) = why" "df_id (defer_entry r n e) = oe_id e"
  "df_channel (defer_entry r n e) = oe_channel e" "df_reason (defer_entry r n e) = r"
  by (simp_all add: drop_entry_def defer_entry_def)

lemma back_off_keeps [simp]:
  "oe_id (back_off s e) = oe_id e" "oe_channel (back_off s e) = oe_channel e"
  "oe_peer (back_off s e) = oe_peer e" "oe_plaintext (back_off s e) = oe_plaintext e"
  "oe_coalesce_key (back_off s e) = oe_coalesce_key e" "is_durable (back_off s e) = is_durable e"
  "drain_key (back_off s e) = drain_key e" "tag (back_off s e) = tag e"
  "expired_at (back_off s e) now = expired_at e now"
  by (simp_all add: back_off_def Let_def is_durable_def drain_key_def tag_def expired_at_def)

inductive handled_as ::
  "nat \<Rightarrow> entry \<Rightarrow> nat \<Rightarrow> ('acc, 'ses, 't) pass \<Rightarrow> ('acc, 'ses, 't) pass \<Rightarrow> bool"
  for seconds e index p q
where
  as_sent: "bt_get (pa_failed p) (oe_channel e) = None \<Longrightarrow>
     snt_id x = oe_id e \<Longrightarrow> snt_channel x = oe_channel e \<Longrightarrow> snt_peer x = oe_peer e \<Longrightarrow>
     pa_report q = add_sent x (pa_report p) \<Longrightarrow> pa_sent_ids q = pa_sent_ids p @ [oe_id e] \<Longrightarrow>
     pa_dropped_ids q = pa_dropped_ids p \<Longrightarrow> pa_failed q = pa_failed p \<Longrightarrow>
     pa_entries q = pa_entries p \<Longrightarrow> handled_as seconds e index p q"
| as_dropped: "bt_get (pa_failed p) (oe_channel e) = None \<Longrightarrow>
     why = DropChannelRetired \<or> why = DropChannelUnknown \<Longrightarrow>
     pa_report q = add_dropped (drop_entry why e) (pa_report p) \<Longrightarrow> pa_sent_ids q = pa_sent_ids p \<Longrightarrow>
     pa_dropped_ids q = pa_dropped_ids p @ [oe_id e] \<Longrightarrow>
     pa_failed q = bt_insert (oe_channel e) DeferNoSession (pa_failed p) \<Longrightarrow>
     pa_entries q = pa_entries p \<Longrightarrow> handled_as seconds e index p q"
| as_deferred: "pa_report q = add_deferred (defer_entry why n e) (pa_report p) \<Longrightarrow>
     pa_sent_ids q = pa_sent_ids p \<Longrightarrow> pa_dropped_ids q = pa_dropped_ids p \<Longrightarrow>
     pa_failed q = pa_failed p \<or> (\<exists>d. pa_failed q = bt_insert (oe_channel e) (DeferUnreachable d) (pa_failed p)) \<Longrightarrow>
     pa_entries q = pa_entries p \<or> pa_entries q = (pa_entries p)[index := back_off seconds e] \<Longrightarrow>
     handled_as seconds e index p q"

inductive_cases handled_asE: "handled_as seconds e index p q"

lemma send_sealed_handled:
  assumes "bt_get (pa_failed p) (oe_channel e) = None"
  shows "handled_as seconds e index p (send_sealed port seconds index e frame (p\<lparr>pa_sessions := s\<rparr>))"
proof -
  obtain t r where send: "po_send port (pa_transport p) (oe_channel e) (outbound_of e frame) = (t, r)"
    by (meson surj_pair)
  show ?thesis
  proof (cases r)
    case (Inr mid)
    show ?thesis
      by (rule as_sent [OF assms, where x = "\<lparr>snt_id = oe_id e, snt_channel = oe_channel e,
            snt_peer = oe_peer e, snt_message_id = mid,
            snt_queued_for = duration_from_secs (seconds - oe_enqueued_at_secs e)\<rparr>"])
        (simp_all add: send_sealed_def send Inr)
  next
    case (Inl err)
    show ?thesis
    proof (cases err)
      case (TeUnknownChannel c)
      show ?thesis
        by (rule as_dropped [OF assms, where why = DropChannelUnknown])
          (simp_all add: send_sealed_def send Inl TeUnknownChannel)
    next
      case (TeRetired c)
      show ?thesis
        by (rule as_dropped [OF assms, where why = DropChannelRetired])
          (simp_all add: send_sealed_def send Inl TeRetired)
    next
      case (TeBackend d)
      show ?thesis
        by (rule as_deferred [where why = "DeferUnreachable d" and n = "oe_attempts e + 1"])
          (auto simp: send_sealed_def send Inl TeBackend)
    qed
  qed
qed

lemma drain_entry_handled:
  "handled_as seconds (pa_entries p ! index) index p (drain_entry om port seconds index p)"
proof -
  let ?e = "pa_entries p ! index"
  show ?thesis
  proof (cases "bt_get (pa_failed p) (oe_channel ?e)")
    case (Some reason)
    show ?thesis
      by (rule as_deferred [where why = reason and n = "oe_attempts ?e"])
        (simp_all add: drain_entry_def Let_def Some)
  next
    case None
    obtain s r where enc: "session_encrypt om (pa_sessions p) (oe_peer ?e) (oe_plaintext ?e) = (s, r)"
      by (meson surj_pair)
    show ?thesis
    proof (cases r)
      case (Inr frame)
      then show ?thesis using send_sealed_handled [OF None]
        by (simp add: drain_entry_def Let_def None enc)
    next
      case (Inl err)
      show ?thesis
        by (rule as_deferred [where why = "defer_reason_of err" and n = "oe_attempts ?e + 1"])
          (simp_all add: drain_entry_def Let_def None enc Inl)
    qed
  qed
qed

section \<open>The pass over the due entries\<close>

text \<open>A pass never changes what an entry is: only its attempts and its earliest next attempt.\<close>

definition message_of :: "entry \<Rightarrow> entry" where
  "message_of e = e\<lparr>oe_attempts := 0, oe_not_before_secs := 0\<rparr>"

lemma message_of_back_off [simp]: "message_of (back_off s e) = message_of e"
  by (simp add: message_of_def back_off_def Let_def)

lemma message_of_eq:
  assumes "message_of e = message_of f"
  shows "oe_id e = oe_id f" "oe_channel e = oe_channel f" "oe_peer e = oe_peer f"
    "oe_plaintext e = oe_plaintext f" "drain_key e = drain_key f" "tag e = tag f"
    "is_durable e = is_durable f" "expired_at e now = expired_at f now"
  using assms by (cases e, cases f, simp add: message_of_def drain_key_def tag_def is_durable_def
      expired_at_def)+

lemma map_update_same: "f y = f (xs ! i) \<Longrightarrow> map f (xs[i := y]) = map f xs"
  by (cases "i < length xs") (simp_all add: map_update list_update_same_conv list_update_beyond)

lemma handled_entries:
  "handled_as s (pa_entries p ! i) i p q \<Longrightarrow> map message_of (pa_entries q) = map message_of (pa_entries p)"
  by (elim handled_asE) (auto simp: map_update_same)

definition pass_ids :: "('acc, 'ses, 't) pass \<Rightarrow> u64 multiset" where
  "pass_ids p = mset (map snt_id (rp_sent (pa_report p))) + mset (map dp_id (rp_dropped (pa_report p)))
     + mset (map df_id (rp_deferred (pa_report p)))"

lemma handled_ids: "handled_as s e i p q \<Longrightarrow> pass_ids q = add_mset (oe_id e) (pass_ids p)"
  by (elim handled_asE) (simp_all add: pass_ids_def)

text \<open>What a pass keeps track of: the report starts with the drops it began with, and the id lists
  are those of the report.\<close>

definition pass_ok :: "dropped list \<Rightarrow> ('acc, 'ses, 't) pass \<Rightarrow> bool" where
  "pass_ok d0 p \<longleftrightarrow>
     pa_sent_ids p = map snt_id (rp_sent (pa_report p)) \<and>
     (\<exists>new. rp_dropped (pa_report p) = d0 @ new \<and> map dp_id new = pa_dropped_ids p \<and>
        (\<forall>d \<in> set new. dp_reason d = DropChannelRetired \<or> dp_reason d = DropChannelUnknown))"

lemma handled_ok: "pass_ok d0 p \<Longrightarrow> handled_as s e i p q \<Longrightarrow> pass_ok d0 q"
  by (elim handled_asE) (auto simp: pass_ok_def)

definition sent_of :: "entry \<Rightarrow> u64 \<times> string \<times> string" where
  "sent_of e = (oe_id e, oe_channel e, oe_peer e)"

lemma sent_of_cong: "message_of e = message_of f \<Longrightarrow> sent_of e = sent_of f"
  unfolding sent_of_def by (metis message_of_eq(1-3))

definition sent_entries :: "('acc, 'ses, 't) pass \<Rightarrow> (u64 \<times> string \<times> string) list" where
  "sent_entries p = map (\<lambda>x. (snt_id x, snt_channel x, snt_peer x)) (rp_sent (pa_report p))"

lemma handled_sent:
  "handled_as s e i p q \<Longrightarrow> sent_entries q = sent_entries p \<or> sent_entries q = sent_entries p @ [sent_of e]"
  by (elim handled_asE) (auto simp: sent_entries_def sent_of_def)

text \<open>The pass as a whole, by induction over the due indices.\<close>

lemma pass_facts:
  fixes om :: "('acc, 'ses) olm" and port :: "'t port" and seconds :: nat
  defines "run \<equiv> fold (drain_entry om port seconds)"
  assumes "map message_of (pa_entries p) = map message_of es" and "pass_ok d0 p"
    and "\<forall>i \<in> set is. i < length es"
  shows "map message_of (pa_entries (run is p)) = map message_of es \<and> pass_ok d0 (run is p) \<and>
    pass_ids (run is p) = pass_ids p + mset (map (\<lambda>i. oe_id (es ! i)) is) \<and>
    (\<exists>js. subseq js is \<and> sent_entries (run is p) = sent_entries p @ map (\<lambda>i. sent_of (es ! i)) js)"
  using assms(2-4)
proof (induction "is" arbitrary: p)
  case Nil
  then show ?case by (simp add: run_def)
next
  case (Cons i js)
  let ?q = "drain_entry om port seconds i p"
  have h: "handled_as seconds (pa_entries p ! i) i p ?q" by (rule drain_entry_handled)
  have i: "i < length es" and len: "length (pa_entries p) = length es"
    using Cons.prems(1,3) map_eq_imp_length_eq by auto
  have same: "message_of (pa_entries p ! i) = message_of (es ! i)"
    using Cons.prems(1) i len by (metis nth_map)
  have run: "run (i # js) p = run js ?q" by (simp add: run_def)
  have "map message_of (pa_entries ?q) = map message_of es"
    using handled_entries [OF h] Cons.prems(1) by simp
  from Cons.IH [OF this handled_ok [OF Cons.prems(2) h]] Cons.prems(3) obtain ks where
    ih: "map message_of (pa_entries (run js ?q)) = map message_of es" "pass_ok d0 (run js ?q)"
      "pass_ids (run js ?q) = pass_ids ?q + mset (map (\<lambda>i. oe_id (es ! i)) js)"
      "subseq ks js" "sent_entries (run js ?q) = sent_entries ?q @ map (\<lambda>i. sent_of (es ! i)) ks"
    by auto
  have "pass_ids (run js ?q) = pass_ids p + mset (map (\<lambda>i. oe_id (es ! i)) (i # js))"
    using handled_ids [OF h] ih(3) message_of_eq(1) [OF same] by simp
  moreover have "\<exists>ks. subseq ks (i # js) \<and>
      sent_entries (run js ?q) = sent_entries p @ map (\<lambda>i. sent_of (es ! i)) ks"
  proof (rule disjE [OF handled_sent [OF h]])
    assume "sent_entries ?q = sent_entries p"
    then show ?thesis using ih(4,5) by (intro exI [of _ ks]) auto
  next
    assume "sent_entries ?q = sent_entries p @ [sent_of (pa_entries p ! i)]"
    then show ?thesis using ih(4,5) sent_of_cong [OF same] by (intro exI [of _ "i # ks"]) auto
  qed
  ultimately show ?case unfolding run using ih(1,2) by blast
qed

section \<open>Dead channels\<close>

lemma drop_channel_fields [simp]:
  "pa_sent_ids (drop_channel c p) = pa_sent_ids p" "pa_dropped_ids (drop_channel c p) = pa_dropped_ids p"
  "pa_failed (drop_channel c p) = pa_failed p" "pa_transport (drop_channel c p) = pa_transport p"
  "pa_sessions (drop_channel c p) = pa_sessions p"
  "rp_sent (pa_report (drop_channel c p)) = rp_sent (pa_report p)"
  by (simp_all add: drop_channel_def Let_def)

definition backlog_of :: "('acc, 'ses, 't) pass \<Rightarrow> string \<Rightarrow> entry list" where
  "backlog_of p c =
     filter (\<lambda>e. oe_channel e = c \<and> oe_id e \<notin> set (pa_dropped_ids p)) (pa_entries p)"

lemma drop_channel_effect:
  "\<exists>why. (why = DropChannelRetired \<or> why = DropChannelUnknown) \<and>
     rp_dropped (pa_report (drop_channel c p)) =
       rp_dropped (pa_report p) @ map (drop_entry why) (backlog_of p c) \<and>
     rp_deferred (pa_report (drop_channel c p)) =
       filter (\<lambda>d. df_id d \<notin> oe_id ` set (backlog_of p c)) (rp_deferred (pa_report p)) \<and>
     pa_entries (drop_channel c p) =
       filter (\<lambda>e. \<not> (oe_channel e = c \<and> oe_id e \<notin> set (pa_dropped_ids p))) (pa_entries p)"
  unfolding drop_channel_def Let_def backlog_of_def
  by (intro exI [of _ "if \<exists>d \<in> set (rp_dropped (pa_report p)). dp_channel d = c \<and> dp_reason d = DropChannelRetired
      then DropChannelRetired else DropChannelUnknown"]) simp

lemma drop_channels_facts:
  "\<exists>gone new. mset (pa_entries p) = mset (pa_entries (fold drop_channel cs p)) + mset gone \<and>
     rp_dropped (pa_report (fold drop_channel cs p)) = rp_dropped (pa_report p) @ new \<and>
     map dp_id new = map oe_id gone \<and>
     (\<forall>d \<in> set new. dp_reason d = DropChannelRetired \<or> dp_reason d = DropChannelUnknown) \<and>
     rp_deferred (pa_report (fold drop_channel cs p)) =
       filter (\<lambda>d. df_id d \<notin> oe_id ` set gone) (rp_deferred (pa_report p)) \<and>
     (\<forall>e \<in> set gone. oe_channel e \<in> set cs \<and> oe_id e \<notin> set (pa_dropped_ids p)) \<and>
     pa_sent_ids (fold drop_channel cs p) = pa_sent_ids p \<and>
     pa_dropped_ids (fold drop_channel cs p) = pa_dropped_ids p \<and>
     rp_sent (pa_report (fold drop_channel cs p)) = rp_sent (pa_report p)"
proof (induction cs arbitrary: p)
  case Nil
  show ?case by (intro exI [of _ "[]"]) simp
next
  case (Cons c cs)
  let ?q = "drop_channel c p" and ?b = "backlog_of p c"
  obtain why where w: "why = DropChannelRetired \<or> why = DropChannelUnknown"
      "rp_dropped (pa_report ?q) = rp_dropped (pa_report p) @ map (drop_entry why) ?b"
      "rp_deferred (pa_report ?q) = filter (\<lambda>d. df_id d \<notin> oe_id ` set ?b) (rp_deferred (pa_report p))"
      "pa_entries ?q = filter (\<lambda>e. \<not> (oe_channel e = c \<and> oe_id e \<notin> set (pa_dropped_ids p))) (pa_entries p)"
    using drop_channel_effect [of c p] by blast
  obtain gone new where ih:
      "mset (pa_entries ?q) = mset (pa_entries (fold drop_channel cs ?q)) + mset gone"
      "rp_dropped (pa_report (fold drop_channel cs ?q)) = rp_dropped (pa_report ?q) @ new"
      "map dp_id new = map oe_id gone"
      "\<forall>d \<in> set new. dp_reason d = DropChannelRetired \<or> dp_reason d = DropChannelUnknown"
      "rp_deferred (pa_report (fold drop_channel cs ?q)) =
         filter (\<lambda>d. df_id d \<notin> oe_id ` set gone) (rp_deferred (pa_report ?q))"
      "\<forall>e \<in> set gone. oe_channel e \<in> set cs \<and> oe_id e \<notin> set (pa_dropped_ids p)"
      "pa_sent_ids (fold drop_channel cs ?q) = pa_sent_ids p"
      "pa_dropped_ids (fold drop_channel cs ?q) = pa_dropped_ids p"
      "rp_sent (pa_report (fold drop_channel cs ?q)) = rp_sent (pa_report p)"
    using Cons.IH [of ?q] by (simp only: drop_channel_fields) blast
  have "mset (pa_entries p) = mset (pa_entries ?q) + mset ?b"
    unfolding w(4) backlog_of_def by (simp add: multiset_partition add.commute)
  then have "mset (pa_entries p) = mset (pa_entries (fold drop_channel cs ?q)) + mset (?b @ gone)"
    using ih(1) by (simp add: union_ac)
  moreover have "map dp_id (map (drop_entry why) ?b @ new) = map oe_id (?b @ gone)"
    using ih(3) by (simp add: comp_def)
  moreover have "\<forall>e \<in> set (?b @ gone). oe_channel e \<in> set (c # cs) \<and> oe_id e \<notin> set (pa_dropped_ids p)"
    using ih(6) by (auto simp: backlog_of_def)
  moreover have "\<forall>d \<in> set (map (drop_entry why) ?b @ new).
      dp_reason d = DropChannelRetired \<or> dp_reason d = DropChannelUnknown"
    using ih(4) w(1) by auto
  moreover have "rp_deferred (pa_report (fold drop_channel cs ?q)) =
      filter (\<lambda>d. df_id d \<notin> oe_id ` set (?b @ gone)) (rp_deferred (pa_report p))"
    unfolding ih(5) w(3) filter_filter by (rule filter_cong) auto
  ultimately show ?case
    unfolding fold_simps comp_apply using ih(2,7-9) w(2)
    by (intro exI [of _ "?b @ gone"] exI [of _ "map (drop_entry why) ?b @ new"]) simp
qed

section \<open>What is due\<close>

lemma due_indices_props:
  "distinct (due_indices es seconds budget)" "length (due_indices es seconds budget) \<le> budget"
  "i \<in> set (due_indices es seconds budget) \<Longrightarrow> i < length es \<and> oe_not_before_secs (es ! i) \<le> seconds"
  "sorted (map (\<lambda>i. drain_key (es ! i)) (due_indices es seconds budget))"
proof -
  let ?k = "\<lambda>i. drain_key (es ! i)"
  let ?all = "sort_key ?k (filter (\<lambda>i. oe_not_before_secs (es ! i) \<le> seconds) [0..<length es])"
  show "distinct (due_indices es seconds budget)" "length (due_indices es seconds budget) \<le> budget"
    by (simp_all add: due_indices_def)
  show "i \<in> set (due_indices es seconds budget) \<Longrightarrow> i < length es \<and> oe_not_before_secs (es ! i) \<le> seconds"
    by (auto simp: due_indices_def dest: in_set_takeD)
  have "sorted (map ?k ?all)" by (rule sorted_sort_key)
  then show "sorted (map ?k (due_indices es seconds budget))"
    unfolding due_indices_def take_map [symmetric] by (rule sorted_wrt_take)
qed

lemma sorted_subseq: "subseq xs ys \<Longrightarrow> sorted (map f ys) \<Longrightarrow> sorted (map f xs)"
  by (induction rule: list_emb.induct) (auto dest: list_emb_set)

lemma subseq_subset: "subseq xs ys \<Longrightarrow> set xs \<subseteq> set ys"
  by (auto elim: list_emb_set)

section \<open>The drain\<close>

text \<open>The two halves of a drain, named for the proofs.\<close>

definition drained_pass ::
  "('acc, 'ses) olm \<Rightarrow> 't port \<Rightarrow> outbox \<Rightarrow> 't \<Rightarrow> ('acc, 'ses) session_manager \<Rightarrow> system_time \<Rightarrow> nat
     \<Rightarrow> ('acc, 'ses, 't) pass"
where
  "drained_pass om port ob t s now budget =
     (let seconds = epoch_seconds now; p0 = drain_start ob seconds t s
      in fold (drain_entry om port seconds) (due_indices (pa_entries p0) seconds budget) p0)"

definition live_entries :: "outbox \<Rightarrow> system_time \<Rightarrow> entry list" where
  "live_entries ob now = filter (\<lambda>e. \<not> expired_at e (epoch_seconds now)) (ox_entries ob)"

definition stale_entries :: "outbox \<Rightarrow> system_time \<Rightarrow> entry list" where
  "stale_entries ob now = filter (\<lambda>e. expired_at e (epoch_seconds now)) (ox_entries ob)"

definition due_entries :: "outbox \<Rightarrow> system_time \<Rightarrow> nat \<Rightarrow> entry list" where
  "due_entries ob now budget =
     map (\<lambda>i. live_entries ob now ! i) (due_indices (live_entries ob now) (epoch_seconds now) budget)"

lemma drained_pass_facts:
  fixes om :: "('acc, 'ses) olm" and port :: "'t port" and ob :: outbox and t :: 't
    and s :: "('acc, 'ses) session_manager" and now :: system_time and budget :: nat
  defines "p \<equiv> drained_pass om port ob t s now budget"
  shows "map message_of (pa_entries p) = map message_of (live_entries ob now)"
    and "pass_ok (map (drop_entry DropExpired) (stale_entries ob now)) p"
    and "mset (pa_sent_ids p) + mset (pa_dropped_ids p) + mset (map df_id (rp_deferred (pa_report p)))
      = mset (map oe_id (due_entries ob now budget))"
    and "\<exists>es. subseq es (due_entries ob now budget) \<and> sent_entries p = map sent_of es"
proof -
  let ?p0 = "drain_start ob (epoch_seconds now) t s"
  let ?d0 = "map (drop_entry DropExpired) (stale_entries ob now)"
  let ?due = "due_indices (live_entries ob now) (epoch_seconds now) budget"
  have start: "pa_entries ?p0 = live_entries ob now" "pass_ok ?d0 ?p0"
      "pass_ids ?p0 = mset (map oe_id (stale_entries ob now))" "sent_entries ?p0 = []"
    by (simp_all add: drain_start_def live_entries_def stale_entries_def pass_ok_def pass_ids_def
        report_new_def sent_entries_def comp_def)
  have p: "p = fold (drain_entry om port (epoch_seconds now)) ?due ?p0"
    unfolding p_def drained_pass_def Let_def start(1) ..
  have bound: "\<forall>i \<in> set ?due. i < length (live_entries ob now)"
    using due_indices_props(3) by blast
  have m: "map message_of (pa_entries ?p0) = map message_of (live_entries ob now)"
    unfolding start(1) ..
  note facts = pass_facts [OF m start(2) bound, where om = om and port = port and seconds = "epoch_seconds now", folded p]
  show "map message_of (pa_entries p) = map message_of (live_entries ob now)" and ok: "pass_ok ?d0 p"
    using facts by blast+
  have "pass_ids p = mset (map oe_id (stale_entries ob now)) + mset (map oe_id (due_entries ob now budget))"
    using facts start(3) by (simp add: due_entries_def comp_def)
  moreover have "pass_ids p = mset (pa_sent_ids p) + (mset (map oe_id (stale_entries ob now))
      + mset (pa_dropped_ids p)) + mset (map df_id (rp_deferred (pa_report p)))"
    using ok by (auto simp: pass_ok_def pass_ids_def comp_def simp flip: mset_map)
  ultimately show "mset (pa_sent_ids p) + mset (pa_dropped_ids p)
      + mset (map df_id (rp_deferred (pa_report p))) = mset (map oe_id (due_entries ob now budget))"
    by (simp add: union_ac)
  obtain js where "subseq js ?due" "sent_entries p = map (\<lambda>i. sent_of (live_entries ob now ! i)) js"
    using facts start(4) by auto
  then show "\<exists>es. subseq es (due_entries ob now budget) \<and> sent_entries p = map sent_of es"
    unfolding due_entries_def
    by (intro exI [of _ "map (\<lambda>i. live_entries ob now ! i) js"]) (simp add: subseq_map comp_def)
qed

text \<open>What the report says, as sets of entry ids.\<close>

definition sent_ids :: "drain_report \<Rightarrow> u64 set" where
  "sent_ids r = snt_id ` set (rp_sent r)"

definition dropped_ids :: "drain_report \<Rightarrow> u64 set" where
  "dropped_ids r = dp_id ` set (rp_dropped r)"

definition deferred_ids :: "drain_report \<Rightarrow> u64 set" where
  "deferred_ids r = df_id ` set (rp_deferred r)"

definition queued_ids :: "outbox \<Rightarrow> u64 set" where
  "queued_ids ob = oe_id ` set (ox_entries ob)"

lemma drain_eq:
  "drain om port ob t s now budget =
     (let p1 = drained_pass om port ob t s now budget;
          p2 = fold drop_channel (dead_channels p1) p1
      in (ob\<lparr>ox_entries := filter (\<lambda>e. oe_id e \<notin> set (pa_sent_ids p2) \<and> oe_id e \<notin> set (pa_dropped_ids p2))
                            (pa_entries p2)\<rparr>,
          pa_transport p2, pa_sessions p2, pa_report p2))"
  by (simp add: drain_def drained_pass_def Let_def)

lemma drain_cases:
  obtains ob' t' s' r where "drain om port ob t s now budget = (ob', t', s', r)"
  by (metis prod.exhaust)

lemma disjoint_ids:
  assumes "distinct (map oe_id es)" and "mset a + mset b + mset c = mset (map oe_id es)"
  shows "distinct a" and "set a \<inter> set b = {}" and "set a \<inter> set c = {}" and "set b \<inter> set c = {}"
    and "set a \<union> set b \<union> set c = oe_id ` set es"
proof -
  have m: "mset (a @ b @ c) = mset (map oe_id es)" using assms(2) by (simp add: union_ac)
  have "distinct (a @ b @ c)" using assms(1) m mset_eq_imp_distinct_iff by blast
  then show "distinct a" "set a \<inter> set b = {}" "set a \<inter> set c = {}" "set b \<inter> set c = {}" by auto
  show "set a \<union> set b \<union> set c = oe_id ` set es" using mset_eq_setD [OF m] by auto
qed

lemma distinct_due:
  assumes "distinct (map oe_id (live_entries ob now))"
  shows "distinct (map oe_id (due_entries ob now budget))" and "set (due_entries ob now budget) \<subseteq> set (live_entries ob now)"
proof -
  let ?due = "due_indices (live_entries ob now) (epoch_seconds now) budget"
  have "inj_on (\<lambda>i. map oe_id (live_entries ob now) ! i) {..<length (live_entries ob now)}"
    using assms by (fastforce simp: distinct_conv_nth inj_on_def)
  moreover have b: "set ?due \<subseteq> {..<length (live_entries ob now)}" using due_indices_props(3) by blast
  ultimately have "inj_on (\<lambda>i. map oe_id (live_entries ob now) ! i) (set ?due)" by (rule inj_on_subset)
  then have "inj_on (\<lambda>i. oe_id (live_entries ob now ! i)) (set ?due)"
    using b by (auto simp: inj_on_def subset_iff)
  then show "distinct (map oe_id (due_entries ob now budget))"
    using due_indices_props(1) by (simp add: due_entries_def comp_def distinct_map)
  show "set (due_entries ob now budget) \<subseteq> set (live_entries ob now)"
    using b by (auto simp: due_entries_def)
qed

lemma ids_apart:
  assumes "distinct (map oe_id es)"
  shows "oe_id ` set (filter P es) \<inter> oe_id ` set (filter (\<lambda>e. \<not> P e) es) = {}"
  using assms by (induction es) auto

text \<open>The bookkeeping of a drain over the sets of ids: \<^verbatim>\<open>live\<close> splits into what is left and what
  went with a dead channel; sent, dropped and deferred are apart and were live.\<close>

lemma id_sets:
  assumes "live = left \<union> gone" and "left \<inter> gone = {}" and "stale \<inter> live = {}"
    and "S \<union> D \<union> N \<subseteq> live" and "S \<inter> N = {}" and "D \<inter> N = {}"
  shows "stale \<union> live = S \<union> (stale \<union> D \<union> gone) \<union> (left - S - D)"
    and "(left - S - D) \<inter> (S \<union> (stale \<union> D \<union> gone)) = {}"
    and "N - gone \<subseteq> left - S - D"
  using assms by blast+

lemma same_ids:
  assumes "map message_of es = map message_of fs"
  shows "map oe_id es = map oe_id fs"
proof -
  have "map oe_id xs = map oe_id (map message_of xs)" for xs
    by (simp add: message_of_def)
  then show ?thesis using assms by metis
qed

lemma drain_sets:
  fixes om :: "('acc, 'ses) olm" and port :: "'t port"
  assumes inv: "outbox_inv ob" and run: "drain om port ob t s now budget = (ob', t', s', r)"
  shows "queued_ids ob = sent_ids r \<union> dropped_ids r \<union> queued_ids ob'"
    and "queued_ids ob' \<inter> (sent_ids r \<union> dropped_ids r) = {}"
    and "deferred_ids r \<subseteq> queued_ids ob'"
    and "distinct (map snt_id (rp_sent r))"
    and "mset (map message_of (ox_entries ob')) \<subseteq># mset (map message_of (ox_entries ob))"
    and "ox_next_id ob' = ox_next_id ob"
    and "\<forall>d \<in> set (rp_dropped r). (\<exists>e \<in> set (stale_entries ob now). d = drop_entry DropExpired e)
      \<or> dp_reason d = DropChannelRetired \<or> dp_reason d = DropChannelUnknown"
proof -
  let ?p1 = "drained_pass om port ob t s now budget"
  let ?p2 = "fold drop_channel (dead_channels ?p1) ?p1"
  let ?live = "live_entries ob now" and ?stale = "stale_entries ob now"
  let ?S = "set (pa_sent_ids ?p1)" and ?D = "set (pa_dropped_ids ?p1)"
  let ?N = "df_id ` set (rp_deferred (pa_report ?p1))"
  note p1 = drained_pass_facts [where om = om and port = port and ob = ob and t = t and s = s
      and now = now and budget = budget]
  obtain gone new where g: "mset (pa_entries ?p1) = mset (pa_entries ?p2) + mset gone"
      "rp_dropped (pa_report ?p2) = rp_dropped (pa_report ?p1) @ new" "map dp_id new = map oe_id gone"
      "\<forall>d \<in> set new. dp_reason d = DropChannelRetired \<or> dp_reason d = DropChannelUnknown"
      "rp_deferred (pa_report ?p2) = filter (\<lambda>d. df_id d \<notin> oe_id ` set gone) (rp_deferred (pa_report ?p1))"
      "pa_sent_ids ?p2 = pa_sent_ids ?p1" "pa_dropped_ids ?p2 = pa_dropped_ids ?p1"
      "rp_sent (pa_report ?p2) = rp_sent (pa_report ?p1)"
    using drop_channels_facts [of ?p1 "dead_channels ?p1"] by blast
  have r: "r = pa_report ?p2" and nxt: "ox_next_id ob' = ox_next_id ob"
    and ob': "ox_entries ob' = filter (\<lambda>e. oe_id e \<notin> ?S \<and> oe_id e \<notin> ?D) (pa_entries ?p2)"
    using run g(6,7) by (auto simp: drain_eq Let_def)
  show "ox_next_id ob' = ox_next_id ob" by (rule nxt)
  obtain dead where d: "rp_dropped (pa_report ?p1) = map (drop_entry DropExpired) ?stale @ dead"
      "map dp_id dead = pa_dropped_ids ?p1"
      "\<forall>d \<in> set dead. dp_reason d = DropChannelRetired \<or> dp_reason d = DropChannelUnknown"
      "pa_sent_ids ?p1 = map snt_id (rp_sent (pa_report ?p1))"
    using p1(2) by (auto simp: pass_ok_def)
  have q: "distinct (map oe_id (ox_entries ob))" using inv by (simp add: outbox_inv_def)
  have live: "distinct (map oe_id ?live)" unfolding live_entries_def by (rule distinct_map_filter [OF q])
  have apart: "oe_id ` set ?stale \<inter> oe_id ` set ?live = {}"
    unfolding live_entries_def stale_entries_def by (rule ids_apart [OF q])
  have ids: "mset (map oe_id (pa_entries ?p1)) = mset (map oe_id ?live)"
    by (rule arg_cong [OF same_ids [OF p1(1)]])
  have m: "mset (map oe_id ?live) = mset (map oe_id (pa_entries ?p2) @ map oe_id gone)"
    using arg_cong [OF g(1), of "image_mset oe_id"] ids by (simp flip: mset_map)
  have split: "oe_id ` set ?live = oe_id ` set (pa_entries ?p2) \<union> oe_id ` set gone"
    using mset_eq_setD [OF m] by simp
  have "distinct (map oe_id (pa_entries ?p2) @ map oe_id gone)"
    using live mset_eq_imp_distinct_iff [OF m] by blast
  then have gone: "oe_id ` set (pa_entries ?p2) \<inter> oe_id ` set gone = {}" by auto
  have three: "mset (pa_sent_ids ?p1) + mset (pa_dropped_ids ?p1)
      + mset (map df_id (rp_deferred (pa_report ?p1))) = mset (map oe_id (due_entries ob now budget))"
    by (rule p1(3))
  note parts = disjoint_ids [OF distinct_due(1) [OF live] three]
  have due: "?S \<union> ?D \<union> ?N \<subseteq> oe_id ` set ?live"
    using parts(5) distinct_due(2) [OF live] by auto
  have S: "sent_ids r = ?S" and D: "dropped_ids r = oe_id ` set ?stale \<union> ?D \<union> oe_id ` set gone"
    and A: "queued_ids ob' = oe_id ` set (pa_entries ?p2) - ?S - ?D"
    and Q: "queued_ids ob = oe_id ` set ?stale \<union> oe_id ` set ?live"
    and N: "deferred_ids r = ?N - oe_id ` set gone"
  proof -
    have "set (map dp_id dead) = ?D" "set (map dp_id new) = oe_id ` set gone"
      using d(2) g(3) by (simp, metis list.set_map)
    then show "dropped_ids r = oe_id ` set ?stale \<union> ?D \<union> oe_id ` set gone"
      by (simp add: dropped_ids_def r g(2) d(1) image_Un image_image Un_assoc)
    show "sent_ids r = ?S" by (simp add: sent_ids_def r g(8) d(4))
    show "queued_ids ob' = oe_id ` set (pa_entries ?p2) - ?S - ?D" by (auto simp: queued_ids_def ob')
    show "queued_ids ob = oe_id ` set ?stale \<union> oe_id ` set ?live"
      by (auto simp: queued_ids_def live_entries_def stale_entries_def)
    show "deferred_ids r = ?N - oe_id ` set gone" by (auto simp: deferred_ids_def r g(5))
  qed
  have N': "set (map df_id (rp_deferred (pa_report ?p1))) = ?N" by simp
  note sets = id_sets [OF split gone apart due parts(3,4) [unfolded N']]
  show "queued_ids ob = sent_ids r \<union> dropped_ids r \<union> queued_ids ob'"
    unfolding S D A Q by (rule sets(1))
  show "queued_ids ob' \<inter> (sent_ids r \<union> dropped_ids r) = {}"
    unfolding S D A by (rule sets(2))
  show "deferred_ids r \<subseteq> queued_ids ob'"
    unfolding N A by (rule sets(3))
  show "distinct (map snt_id (rp_sent r))"
    using parts(1) by (simp add: r g(8) d(4))
  have "mset (ox_entries ob') \<subseteq># mset (pa_entries ?p1)"
    unfolding ob' g(1) by (simp add: mset_filter multiset_filter_subset subset_mset.add_increasing2)
  then have "mset (map message_of (ox_entries ob')) \<subseteq># mset (map message_of ?live)"
    unfolding p1(1) [symmetric] by (simp add: image_mset_subseteq_mono)
  also have "\<dots> \<subseteq># mset (map message_of (ox_entries ob))"
    by (simp add: live_entries_def image_mset_subseteq_mono multiset_filter_subset)
  finally show "mset (map message_of (ox_entries ob')) \<subseteq># mset (map message_of (ox_entries ob))" .
  show "\<forall>d \<in> set (rp_dropped r). (\<exists>e \<in> set (stale_entries ob now). d = drop_entry DropExpired e)
      \<or> dp_reason d = DropChannelRetired \<or> dp_reason d = DropChannelUnknown"
    using g(2,4) d(1,3) by (auto simp: r)
qed

lemma drain_inv:
  assumes "outbox_inv ob" and "drain om port ob t s now budget = (ob', t', s', r)"
  shows "outbox_inv ob'"
proof -
  have t: "map tag xs = map tag (map message_of xs)" for xs by (simp add: tag_def message_of_def)
  have "mset (map tag (ox_entries ob')) \<subseteq># mset (map tag (ox_entries ob))"
    using image_mset_subseteq_mono [OF drain_sets(5) [OF assms], of tag] t by (metis mset_map)
  from outbox_inv_part [OF assms(1) this] show ?thesis
    using drain_sets(6) [OF assms] by (simp add: outbox_inv_def)
qed

lemma drain_sent:
  assumes "drain om port ob t s now budget = (ob', t', s', r)"
  shows "\<exists>es. subseq es (due_entries ob now budget) \<and> map sent_of es
      = map (\<lambda>x. (snt_id x, snt_channel x, snt_peer x)) (rp_sent r) \<and> sorted (map drain_key es)
      \<and> length es \<le> budget"
proof -
  let ?p1 = "drained_pass om port ob t s now budget"
  have "rp_sent r = rp_sent (pa_report ?p1)"
    using assms drop_channels_facts [of ?p1 "dead_channels ?p1"] by (auto simp: drain_eq Let_def)
  moreover obtain es where es: "subseq es (due_entries ob now budget)" "sent_entries ?p1 = map sent_of es"
    using drained_pass_facts(4) by metis
  moreover have "sorted (map drain_key (due_entries ob now budget))"
    using due_indices_props(4) by (simp add: due_entries_def comp_def)
  moreover have "length (due_entries ob now budget) \<le> budget"
    by (simp add: due_entries_def due_indices_props(2))
  ultimately show ?thesis
    using sorted_subseq [OF es(1)] list_emb_length [OF es(1)]
    by (intro exI [of _ es]) (auto simp: sent_entries_def)
qed

lemma drain_keeps_unexpired:
  assumes "outbox_inv ob" and "drain om port ob t s now budget = (ob', t', s', r)"
    and "e \<in> set (ox_entries ob)" and "\<not> expired_at e (epoch_seconds now)"
  shows "oe_id e \<in> queued_ids ob' \<or> oe_id e \<in> sent_ids r
    \<or> (\<exists>d \<in> set (rp_dropped r). dp_id d = oe_id e
        \<and> (dp_reason d = DropChannelRetired \<or> dp_reason d = DropChannelUnknown))"
proof -
  have "oe_id e \<in> queued_ids ob" using assms(3) by (simp add: queued_ids_def)
  then consider "oe_id e \<in> queued_ids ob' \<or> oe_id e \<in> sent_ids r" | "oe_id e \<in> dropped_ids r"
    using drain_sets(1) [OF assms(1,2)] by blast
  then show ?thesis
  proof cases
    case 2
    then obtain d where d: "d \<in> set (rp_dropped r)" "dp_id d = oe_id e" by (auto simp: dropped_ids_def)
    have "d \<noteq> drop_entry DropExpired f" if "f \<in> set (stale_entries ob now)" for f
    proof
      assume "d = drop_entry DropExpired f"
      then have "oe_id f = oe_id e" using d(2) by simp
      moreover have "f \<in> set (ox_entries ob)" "expired_at f (epoch_seconds now)"
        using that by (simp_all add: stale_entries_def)
      moreover have "inj_on oe_id (set (ox_entries ob))"
        using assms(1) by (simp add: outbox_inv_def distinct_map)
      ultimately have "f = e" using assms(3) by (simp add: inj_on_def)
      then show False using assms(4) \<open>expired_at f (epoch_seconds now)\<close> by simp
    qed
    then show ?thesis using drain_sets(7) [OF assms(1,2)] d by blast
  qed blast
qed

lemma durable_unexpired: "is_durable e \<Longrightarrow> \<not> expired_at e seconds"
  by (simp add: is_durable_def expired_at_def)

lemmas drain_keeps_durable = drain_keeps_unexpired [OF _ _ _ durable_unexpired]

text \<open>
  What holds of the transport before and after every send, and whether sends fail, decides what a
  drain reports as sent.
\<close>

lemma drain_unsent:
  fixes om :: "('acc, 'ses) olm" and port :: "'t port"
  assumes t: "P t"
    and send: "\<And>t c m. P t \<Longrightarrow> P (fst (po_send port t c m)) \<and> \<not> is_ok (snd (po_send port t c m))"
    and run: "drain om port ob t s now budget = (ob', t', s', r)"
  shows "rp_sent r = [] \<and> P t'"
proof -
  let ?Q = "\<lambda>p :: ('acc, 'ses, 't) pass. rp_sent (pa_report p) = [] \<and> P (pa_transport p)"
  have entry: "?Q (drain_entry om port seconds i p)" if "?Q p" for seconds i and p :: "('acc, 'ses, 't) pass"
  proof -
    have "\<exists>e. snd (po_send port (pa_transport p) c m) = Inl e" for c m
      using that send [of "pa_transport p" c m] by (cases "snd (po_send port (pa_transport p) c m)") auto
    then obtain err where err: "\<And>c m. snd (po_send port (pa_transport p) c m) = Inl (err c m)" by metis
    show ?thesis using that send [of "pa_transport p"]
      by (auto simp: drain_entry_def send_sealed_def Let_def case_prod_beta err
          split: option.split sum.split transport_error.split)
  qed
  have "?Q (fold (drain_entry om port seconds) is p)" if "?Q p" for seconds "is" and p :: "('acc, 'ses, 't) pass"
    using that by (induction "is" arbitrary: p) (simp_all add: entry)
  moreover have "?Q (fold drop_channel cs p)" if "?Q p" for cs and p :: "('acc, 'ses, 't) pass"
    using that by (induction cs arbitrary: p) simp_all
  moreover have "?Q (drain_start ob (epoch_seconds now) t s)"
    using t by (simp add: drain_start_def report_new_def)
  ultimately show ?thesis using run by (auto simp: drain_def Let_def)
qed

lemma due_entries_live:
  "e \<in> set (due_entries ob now budget) \<Longrightarrow>
     e \<in> set (ox_entries ob) \<and> \<not> expired_at e (epoch_seconds now) \<and> oe_not_before_secs e \<le> epoch_seconds now"
proof -
  assume "e \<in> set (due_entries ob now budget)"
  then obtain i where i: "i \<in> set (due_indices (live_entries ob now) (epoch_seconds now) budget)"
      "e = live_entries ob now ! i"
    by (auto simp: due_entries_def)
  from due_indices_props(3) [OF i(1)] have "e \<in> set (live_entries ob now)" "oe_not_before_secs e \<le> epoch_seconds now"
    using i(2) by auto
  then show ?thesis by (simp add: live_entries_def)
qed

text \<open>An entry reported both sent and dropped went out on a channel that died later in the pass.\<close>

lemma sent_and_dropped:
  fixes om :: "('acc, 'ses) olm" and port :: "'t port"
  assumes inv: "outbox_inv ob" and run: "drain om port ob t s now budget = (ob', t', s', r)"
    and x: "x \<in> set (rp_sent r)" and both: "snt_id x \<in> dropped_ids r"
  defines "p \<equiv> drained_pass om port ob t s now budget"
  shows "snt_channel x \<in> set (dead_channels p)" and "x \<in> set (rp_sent (pa_report p))"
proof -
  let ?live = "live_entries ob now" and ?stale = "stale_entries ob now"
  let ?p2 = "fold drop_channel (dead_channels p) p"
  note p = drained_pass_facts [where om = om and port = port and ob = ob and t = t and s = s
      and now = now and budget = budget, folded p_def]
  obtain gone new where g: "mset (pa_entries p) = mset (pa_entries ?p2) + mset gone"
      "rp_dropped (pa_report ?p2) = rp_dropped (pa_report p) @ new" "map dp_id new = map oe_id gone"
      "\<forall>e \<in> set gone. oe_channel e \<in> set (dead_channels p)"
      "rp_sent (pa_report ?p2) = rp_sent (pa_report p)"
    using drop_channels_facts [of p "dead_channels p"] by blast
  have r: "r = pa_report ?p2" using run by (auto simp: drain_eq Let_def p_def)
  show x1: "x \<in> set (rp_sent (pa_report p))" using x by (simp add: r g(5))
  obtain dead where d: "rp_dropped (pa_report p) = map (drop_entry DropExpired) ?stale @ dead"
      "map dp_id dead = pa_dropped_ids p" "pa_sent_ids p = map snt_id (rp_sent (pa_report p))"
    using p(2) by (auto simp: pass_ok_def)
  have q: "distinct (map oe_id (ox_entries ob))" using inv by (simp add: outbox_inv_def)
  have live: "distinct (map oe_id ?live)" unfolding live_entries_def by (rule distinct_map_filter [OF q])
  note due = distinct_due [OF live]
  obtain e where e: "e \<in> set ?live" "sent_of e = (snt_id x, snt_channel x, snt_peer x)"
  proof -
    obtain es where "subseq es (due_entries ob now budget)" "sent_entries p = map sent_of es"
      using p(4) by blast
    then have "(snt_id x, snt_channel x, snt_peer x) \<in> sent_of ` set (due_entries ob now budget)"
      using x1 subseq_subset [of es] by (force simp: sent_entries_def dest!: arg_cong [where f = set])
    then obtain y where "y \<in> set (due_entries ob now budget)" "sent_of y = (snt_id x, snt_channel x, snt_peer x)"
      by auto
    then show ?thesis using due(2) [of budget] that [of y] by blast
  qed
  have "snt_id x \<notin> oe_id ` set ?stale"
  proof -
    have "oe_id e \<in> oe_id ` set ?live" using e(1) by (rule imageI)
    then have "snt_id x \<in> oe_id ` set ?live" using e(2) by (simp add: sent_of_def)
    moreover have "oe_id ` set ?stale \<inter> oe_id ` set ?live = {}"
      unfolding live_entries_def stale_entries_def by (rule ids_apart [OF q])
    ultimately show ?thesis by blast
  qed
  moreover have "snt_id x \<notin> set (pa_dropped_ids p)"
    using disjoint_ids(2) [OF due(1) p(3)] x1 by (auto simp: d(3))
  moreover have "dropped_ids r = oe_id ` set ?stale \<union> set (pa_dropped_ids p) \<union> oe_id ` set gone"
    using arg_cong [OF d(2), of set] arg_cong [OF g(3), of set]
    by (simp add: dropped_ids_def r g(2) d(1) image_Un image_image Un_assoc)
  ultimately obtain h where h: "h \<in> set gone" "oe_id h = snt_id x" using both by auto
  have "h \<in> set (pa_entries p)" using h(1) g(1) by (metis Un_iff set_mset_mset set_mset_union)
  then have "message_of h \<in> message_of ` set ?live"
    using arg_cong [OF p(1), of set] by auto
  then obtain l where l: "l \<in> set ?live" "message_of h = message_of l" by blast
  have "oe_id l = oe_id e" using e(2) h(2) message_of_eq(1) [OF l(2)] by (simp add: sent_of_def)
  then have "l = e" using live e(1) l(1) by (simp add: distinct_map inj_on_def)
  then show "snt_channel x \<in> set (dead_channels p)"
    using e(2) message_of_eq(2) [OF l(2)] g(4) h(1) by (auto simp: sent_of_def)
qed

section \<open>When encryption cannot fail\<close>

definition olm_total :: "('acc, 'ses) olm \<Rightarrow> bool" where
  "olm_total om \<longleftrightarrow>
     (\<forall>a k f. is_ok (om_outbound om a k f)) \<and> (\<forall>s m. is_ok (snd (om_encrypt om s m)))"

definition knows :: "('acc, 'ses) session_manager \<Rightarrow> string \<Rightarrow> bool" where
  "knows s peer \<longleftrightarrow> peer_keys_of s peer \<noteq> None"

lemma is_ok_iff: "is_ok r \<longleftrightarrow> (\<exists>x. r = Inr x)"
  by (cases r) simp_all

lemma establish_known:
  assumes "olm_total om" and "knows s peer"
  shows "\<exists>s'. establish_outbound om s peer = (s', Inr ()) \<and> has_session s' peer"
proof -
  obtain st where st: "bt_get (sm_peers s) peer = Some st"
    using assms(2) by (auto simp: knows_def peer_keys_of_def)
  obtain ses where "om_outbound om (sm_account s) (pk_curve25519 (ps_keys st)) (pk_fallback_key (ps_keys st)) = Inr ses"
    using assms(1) unfolding olm_total_def is_ok_iff by blast
  then show ?thesis by (simp add: establish_outbound_def st has_session_def)
qed

lemma encrypt_in_session:
  assumes "olm_total om" and "has_session s peer"
  shows "is_ok (snd (session_encrypt om s peer plaintext))"
proof -
  obtain st ses where st: "bt_get (sm_peers s) peer = Some st" "ps_session st = Some ses"
    using assms(2) by (auto simp: has_session_def split: option.splits)
  obtain ses' c where "om_encrypt om ses plaintext = (ses', Inr c)"
    using assms(1) by (metis olm_total_def is_ok_iff prod.collapse)
  then show ?thesis using assms(2) by (simp add: session_encrypt_def st)
qed

lemma encrypt_known:
  assumes total: "olm_total om" and known: "knows s peer"
  shows "\<exists>s' frame. session_encrypt om s peer plaintext = (s', Inr frame) \<and> (\<forall>k. knows s' k = knows s k)"
proof -
  have "is_ok (snd (session_encrypt om s peer plaintext))"
  proof (cases "has_session s peer")
    case True
    then show ?thesis by (rule encrypt_in_session [OF total])
  next
    case False
    obtain s1 where s1: "establish_outbound om s peer = (s1, Inr ())" "has_session s1 peer"
      using establish_known [OF assms] by blast
    have "session_encrypt om s peer plaintext = session_encrypt om s1 peer plaintext"
      by (simp add: session_encrypt_def False s1)
    then show ?thesis using encrypt_in_session [OF total s1(2)] by simp
  qed
  then obtain s' frame where e: "session_encrypt om s peer plaintext = (s', Inr frame)"
    by (metis is_ok_iff prod.collapse)
  then show ?thesis using encrypt_keeps(1) [OF e] by (simp add: knows_def)
qed

section \<open>Over a transport that keeps its contract\<close>

text \<open>
  Over a port that obeys the transport laws, a channel that took a message stays live through the
  pass, so no entry is both sent and dropped, and when every session can encrypt, everything due
  on live channels goes out.
\<close>

context transport_port
begin

definition open_channel :: "'t \<Rightarrow> string \<Rightarrow> bool" where
  "open_channel t c \<longleftrightarrow> (\<exists>ms. view t c = Live ms)"

lemma send_effect:
  assumes "po_send port t c m = (t', sr)"
  shows "open_channel t' d = open_channel t d"
    and "open_channel t c \<longleftrightarrow> (\<exists>i. sr = Inr i)"
    and "sr = Inl e \<Longrightarrow> e = TeUnknownChannel c \<or> e = TeRetired c"
  using send_law [OF assms] by (auto simp: open_channel_def split: channel_view.splits if_splits)

definition pass_open :: "('acc, 'ses, 't) pass \<Rightarrow> bool" where
  "pass_open p \<longleftrightarrow>
     (\<forall>x \<in> set (rp_sent (pa_report p)). open_channel (pa_transport p) (snt_channel x)) \<and>
     (\<forall>c. bt_contains (pa_failed p) c \<longrightarrow> \<not> open_channel (pa_transport p) c)"

lemma send_sealed_open:
  assumes "pass_open p"
  shows "pass_open (send_sealed port seconds index e frame p)"
    and "open_channel (pa_transport (send_sealed port seconds index e frame p)) c
      = open_channel (pa_transport p) c"
proof -
  obtain t r where send: "po_send port (pa_transport p) (oe_channel e) (outbound_of e frame) = (t, r)"
    by (meson surj_pair)
  note eff = send_effect [OF send]
  show "open_channel (pa_transport (send_sealed port seconds index e frame p)) c
      = open_channel (pa_transport p) c"
    using eff(1) by (simp add: send_sealed_def Let_def send split: sum.split transport_error.split)
  show "pass_open (send_sealed port seconds index e frame p)"
  proof (cases r)
    case (Inr i)
    then show ?thesis using assms eff(1,2) by (auto simp: send_sealed_def Let_def send pass_open_def)
  next
    case (Inl err)
    then show ?thesis using assms eff
      by (auto simp: send_sealed_def Let_def send pass_open_def split: transport_error.split)
  qed
qed

lemma pass_open_updates [simp]:
  "pass_open (p\<lparr>pa_sessions := s\<rparr>) = pass_open p" "pass_open (p\<lparr>pa_entries := es\<rparr>) = pass_open p"
  "pass_open (p\<lparr>pa_report := add_deferred d (pa_report p)\<rparr>) = pass_open p"
  "pass_open (p\<lparr>pa_sessions := s, pa_report := add_deferred d (pa_report p)\<rparr>) = pass_open p"
  "pass_open (p\<lparr>pa_sessions := s, pa_report := add_deferred d (pa_report p), pa_entries := es\<rparr>) = pass_open p"
  by (simp_all add: pass_open_def)

lemma drain_entry_open:
  assumes "pass_open p"
  shows "pass_open (drain_entry om port seconds index p)"
    and "open_channel (pa_transport (drain_entry om port seconds index p)) c = open_channel (pa_transport p) c"
proof -
  have p: "pass_open (p\<lparr>pa_sessions := s\<rparr>)" for s using assms by simp
  show "pass_open (drain_entry om port seconds index p)"
    using send_sealed_open(1) [OF p] assms
    by (simp add: drain_entry_def Let_def split: option.split sum.split prod.split)
  show "open_channel (pa_transport (drain_entry om port seconds index p)) c = open_channel (pa_transport p) c"
    using send_sealed_open(2) [OF p]
    by (simp add: drain_entry_def Let_def split: option.split sum.split prod.split)
qed

lemma drained_pass_open: "pass_open (drained_pass om port ob t s now budget)"
proof -
  have "pass_open p \<Longrightarrow> pass_open (fold (drain_entry om port seconds) is p)" for seconds "is" p
    by (induction "is" arbitrary: p) (simp_all add: drain_entry_open(1))
  moreover have "pass_open (drain_start ob seconds t s)" for seconds
    by (simp add: drain_start_def pass_open_def report_new_def)
  ultimately show ?thesis by (simp add: drained_pass_def Let_def)
qed

lemma never_sent_and_dropped:
  assumes "outbox_inv ob" and "drain om port ob t s now budget = (ob', t', s', r)"
  shows "sent_ids r \<inter> dropped_ids r = {}"
proof -
  have "False" if "x \<in> set (rp_sent r)" "snt_id x \<in> dropped_ids r" for x
    using sent_and_dropped [OF assms that] drained_pass_open [of om ob t s now budget]
    by (auto simp: pass_open_def dead_channels_def bt.entries_iff bt_contains_def)
  then show ?thesis by (auto simp: sent_ids_def)
qed

definition ready :: "('acc, 'ses, 't) pass \<Rightarrow> entry \<Rightarrow> bool" where
  "ready p e \<longleftrightarrow> open_channel (pa_transport p) (oe_channel e) \<and> knows (pa_sessions p) (oe_peer e)"

lemma send_sealed_sends:
  assumes "open_channel (pa_transport p) (oe_channel e)"
  shows "\<exists>t x. send_sealed port seconds index e frame p =
      p\<lparr>pa_transport := t, pa_report := add_sent x (pa_report p), pa_sent_ids := pa_sent_ids p @ [oe_id e]\<rparr>
    \<and> (snt_id x, snt_channel x, snt_peer x) = sent_of e \<and> (\<forall>c. open_channel t c = open_channel (pa_transport p) c)"
proof -
  obtain t r where send: "po_send port (pa_transport p) (oe_channel e) (outbound_of e frame) = (t, r)"
    by (meson surj_pair)
  obtain i where "r = Inr i" using send_effect(2) [OF send] assms by blast
  then show ?thesis using send_effect(1) [OF send]
    by (intro exI [of _ t] exI [of _ "\<lparr>snt_id = oe_id e, snt_channel = oe_channel e, snt_peer = oe_peer e,
        snt_message_id = i, snt_queued_for = duration_from_secs (seconds - oe_enqueued_at_secs e)\<rparr>"])
      (simp add: send_sealed_def Let_def send sent_of_def)
qed

lemma drain_entry_sends:
  fixes seconds :: nat
  assumes total: "olm_total om" and none: "pa_failed p = bt_empty" and rdy: "ready p (pa_entries p ! i)"
  defines "q \<equiv> drain_entry om port seconds i p"
  shows "pa_failed q = bt_empty \<and> pa_entries q = pa_entries p \<and> pa_dropped_ids q = pa_dropped_ids p
    \<and> rp_dropped (pa_report q) = rp_dropped (pa_report p) \<and> rp_deferred (pa_report q) = rp_deferred (pa_report p)
    \<and> sent_entries q = sent_entries p @ [sent_of (pa_entries p ! i)] \<and> (\<forall>e. ready q e = ready p e)"
proof -
  let ?e = "pa_entries p ! i"
  obtain s' frame where enc: "session_encrypt om (pa_sessions p) (oe_peer ?e) (oe_plaintext ?e) = (s', Inr frame)"
      "\<forall>k. knows s' k = knows (pa_sessions p) k"
    using encrypt_known [OF total, of "pa_sessions p" "oe_peer ?e" "oe_plaintext ?e"] rdy
    by (auto simp: ready_def)
  let ?p = "p\<lparr>pa_sessions := s'\<rparr>"
  obtain t x where "send_sealed port seconds i ?e frame ?p =
      ?p\<lparr>pa_transport := t, pa_report := add_sent x (pa_report p), pa_sent_ids := pa_sent_ids p @ [oe_id ?e]\<rparr>"
      "(snt_id x, snt_channel x, snt_peer x) = sent_of ?e" "\<forall>c. open_channel t c = open_channel (pa_transport p) c"
    using send_sealed_sends [of ?p ?e seconds i frame] rdy by (auto simp: ready_def)
  then show ?thesis
    using enc none by (simp add: q_def drain_entry_def Let_def sent_entries_def ready_def)
qed

lemma drain_all_ready:
  assumes total: "olm_total om"
  shows "pa_failed p = bt_empty \<Longrightarrow> \<forall>i \<in> set is. ready p (pa_entries p ! i) \<Longrightarrow>
    pa_failed (fold (drain_entry om port seconds) is p) = bt_empty \<and>
    pa_entries (fold (drain_entry om port seconds) is p) = pa_entries p \<and>
    pa_dropped_ids (fold (drain_entry om port seconds) is p) = pa_dropped_ids p \<and>
    rp_dropped (pa_report (fold (drain_entry om port seconds) is p)) = rp_dropped (pa_report p) \<and>
    rp_deferred (pa_report (fold (drain_entry om port seconds) is p)) = rp_deferred (pa_report p) \<and>
    sent_entries (fold (drain_entry om port seconds) is p) =
      sent_entries p @ map (\<lambda>i. sent_of (pa_entries p ! i)) is"
proof (induction "is" arbitrary: p)
  case Nil
  then show ?case by simp
next
  case (Cons i js)
  let ?q = "drain_entry om port seconds i p"
  have q: "pa_failed ?q = bt_empty" "pa_entries ?q = pa_entries p" "pa_dropped_ids ?q = pa_dropped_ids p"
      "rp_dropped (pa_report ?q) = rp_dropped (pa_report p)" "rp_deferred (pa_report ?q) = rp_deferred (pa_report p)"
      "sent_entries ?q = sent_entries p @ [sent_of (pa_entries p ! i)]" "\<And>e. ready ?q e = ready p e"
    using drain_entry_sends [OF total Cons.prems(1), of i seconds] Cons.prems(2) by simp_all
  show ?case using Cons.IH [of ?q] Cons.prems(2) q by simp
qed

lemma drain_delivers:
  assumes total: "olm_total om"
    and rdy: "\<And>e. e \<in> set (due_entries ob now budget) \<Longrightarrow> open_channel t (oe_channel e) \<and> knows s (oe_peer e)"
    and run: "drain om port ob t s now budget = (ob', t', s', r)"
  shows "map (\<lambda>x. (snt_id x, snt_channel x, snt_peer x)) (rp_sent r) = map sent_of (due_entries ob now budget)"
    and "rp_deferred r = []" and "rp_dropped r = map (drop_entry DropExpired) (stale_entries ob now)"
    and "ox_entries ob' = filter (\<lambda>e. oe_id e \<notin> oe_id ` set (due_entries ob now budget)) (live_entries ob now)"
proof -
  let ?p0 = "drain_start ob (epoch_seconds now) t s"
  let ?due = "due_indices (live_entries ob now) (epoch_seconds now) budget"
  let ?p1 = "drained_pass om port ob t s now budget"
  have start: "pa_entries ?p0 = live_entries ob now" "pa_failed ?p0 = bt_empty" "sent_entries ?p0 = []"
      "pa_dropped_ids ?p0 = []" "rp_deferred (pa_report ?p0) = []"
      "rp_dropped (pa_report ?p0) = map (drop_entry DropExpired) (stale_entries ob now)"
    by (simp_all add: drain_start_def live_entries_def stale_entries_def sent_entries_def report_new_def)
  have "\<forall>i \<in> set ?due. ready ?p0 (pa_entries ?p0 ! i)"
    using rdy by (auto simp: ready_def start(1) due_entries_def) (simp_all add: drain_start_def)
  from drain_all_ready [OF total start(2) this, of "epoch_seconds now"]
  have p1: "pa_failed ?p1 = bt_empty" "pa_entries ?p1 = live_entries ob now" "pa_dropped_ids ?p1 = []"
      "rp_deferred (pa_report ?p1) = []"
      "rp_dropped (pa_report ?p1) = map (drop_entry DropExpired) (stale_entries ob now)"
      "sent_entries ?p1 = map sent_of (due_entries ob now budget)"
    by (simp_all add: drained_pass_def Let_def start due_entries_def comp_def)
  have "dead_channels ?p1 = []" by (simp add: dead_channels_def p1(1))
  then have r: "r = pa_report ?p1" and o: "ox_entries ob' = filter (\<lambda>e. oe_id e \<notin> set (pa_sent_ids ?p1)) (live_entries ob now)"
    using run by (auto simp: drain_eq Let_def p1)
  have "pa_sent_ids ?p1 = map fst (sent_entries ?p1)"
    using drained_pass_facts(2) [where om = om and port = port and ob = ob and t = t and s = s
        and now = now and budget = budget] by (simp add: pass_ok_def sent_entries_def)
  then have ids: "set (pa_sent_ids ?p1) = oe_id ` set (due_entries ob now budget)"
    by (simp add: p1(6) sent_of_def image_image)
  show "map (\<lambda>x. (snt_id x, snt_channel x, snt_peer x)) (rp_sent r) = map sent_of (due_entries ob now budget)"
    using p1(6) by (simp add: r sent_entries_def)
  show "rp_deferred r = []" "rp_dropped r = map (drop_entry DropExpired) (stale_entries ob now)"
    by (simp_all add: r p1)
  show "ox_entries ob' = filter (\<lambda>e. oe_id e \<notin> oe_id ` set (due_entries ob now budget)) (live_entries ob now)"
    by (simp add: o ids)
qed

end

end
