(* ===== verification/Delivery.thy ===== *)
theory Delivery
  imports Drain Ledger
begin

text \<open>
  A message from one device to another, through every layer between them: the sender's outbox
  (\<^verbatim>\<open>outbox.rs\<close>) seals it with the sender's sessions (\<^verbatim>\<open>session.rs\<close>), a transport that keeps its
  contract carries the frame, and the receiver's sessions open it. The ratchet itself is vodozemac's;
  what is assumed of it is that two ends in step stay in step.
\<close>

section \<open>Two ends of a session\<close>

text \<open>
  \<open>R ses acc held\<close>: the sender's session \<open>ses\<close> is in step with a receiver that has the account \<open>acc\<close> and
  holds the session \<open>held\<close>, if it holds one yet. What the sender encrypts next, the receiver reads: on the
  session it holds, or, for a pre-key message of another session, on the one it creates from it. \<open>k\<close> is
  the sender's key as the receiver knows it.
\<close>

definition keeps_step ::
  "('acc, 'ses) olm \<Rightarrow> bytes \<Rightarrow> ('ses \<Rightarrow> 'acc \<Rightarrow> 'ses option \<Rightarrow> bool) \<Rightarrow> bool"
where
  "keeps_step om k R \<longleftrightarrow>
     (\<forall>ses acc held m ses' c. R ses acc held \<and> om_encrypt om ses m = (ses', Inr c) \<longrightarrow>
        (if \<exists>pre_key. c = PreKey pre_key
              \<and> (\<forall>h. held = Some h \<longrightarrow> om_session_id om h \<noteq> om_prekey_session_id om pre_key)
         then \<exists>pre_key acc' h'. c = PreKey pre_key \<and> om_inbound om acc k pre_key = (acc', Inr (h', m))
                \<and> R ses' acc' (Some h')
         else \<exists>h h'. held = Some h \<and> om_decrypt om h c = (h', Inr m) \<and> R ses' acc (Some h')))"

lemma keeps_stepD:
  assumes "keeps_step om k R" and "R ses acc held" and "om_encrypt om ses m = (ses', Inr c)"
  shows "\<exists>pre_key. c = PreKey pre_key \<and> (\<forall>h. held = Some h \<longrightarrow> om_session_id om h \<noteq> om_prekey_session_id om pre_key)
      \<Longrightarrow> \<exists>pre_key acc' h'. c = PreKey pre_key \<and> om_inbound om acc k pre_key = (acc', Inr (h', m)) \<and> R ses' acc' (Some h')"
    and "\<not> (\<exists>pre_key. c = PreKey pre_key \<and> (\<forall>h. held = Some h \<longrightarrow> om_session_id om h \<noteq> om_prekey_session_id om pre_key))
      \<Longrightarrow> \<exists>h h'. held = Some h \<and> om_decrypt om h c = (h', Inr m) \<and> R ses' acc (Some h')"
  using assms unfolding keeps_step_def by (metis (no_types, lifting))+

text \<open>
  The managers of two devices in step: each has learned the other, and the session the sender has, or
  would establish from the receiver's published keys, is in step with the receiver.
\<close>

definition in_step ::
  "('acc, 'ses) olm \<Rightarrow> ('ses \<Rightarrow> 'acc \<Rightarrow> 'ses option \<Rightarrow> bool)
     \<Rightarrow> ('acc, 'ses) session_manager \<Rightarrow> string \<Rightarrow> ('acc, 'ses) session_manager \<Rightarrow> string \<Rightarrow> bool"
where
  "in_step om R s b v a \<longleftrightarrow>
     (\<exists>st st'. bt_get (sm_peers s) b = Some st \<and> bt_get (sm_peers v) a = Some st'
        \<and> keeps_step om (pk_curve25519 (ps_keys st')) R
        \<and> (case ps_session st of
             Some ses \<Rightarrow> R ses (sm_account v) (ps_session st')
           | None \<Rightarrow> \<forall>ses. om_outbound om (sm_account s) (pk_curve25519 (ps_keys st))
                 (pk_fallback_key (ps_keys st)) = Inr ses \<longrightarrow> R ses (sm_account v) (ps_session st')))"

text \<open>The receiver opens frames from one peer, one after the other, and stops at the first it cannot.\<close>

fun open_all ::
  "('acc, 'ses) olm \<Rightarrow> ('acc, 'ses) session_manager \<Rightarrow> string \<Rightarrow> bytes list
     \<Rightarrow> ('acc, 'ses) session_manager \<times> (session_error + decrypted list)"
where
  "open_all om v a [] = (v, Inr [])"
| "open_all om v a (frame # frames) =
     (case session_decrypt om v a frame of
        (v, Inl e) \<Rightarrow> (v, Inl e)
      | (v, Inr d) \<Rightarrow> (let (v, r) = open_all om v a frames in (v, rbind r (\<lambda>ds. Inr (d # ds)))))"

lemma open_all_append:
  assumes "open_all om v a xs = (v1, Inr ds)" and "session_decrypt om v1 a x = (v2, Inr d)"
  shows "open_all om v a (xs @ [x]) = (v2, Inr (ds @ [d]))"
  using assms
proof (induction xs arbitrary: v ds)
  case (Cons y ys)
  obtain u e us where "session_decrypt om v a y = (u, Inr e)" "open_all om u a ys = (v1, Inr us)" "ds = e # us"
    using Cons.prems(1) by (auto simp: rbind_Inr_iff split: prod.splits sum.splits)
  with Cons.IH Cons.prems(2) show ?case by simp
qed simp

lemma open_all_length: "open_all om v a frames = (v', Inr ds) \<Longrightarrow> length ds = length frames"
  by (induction frames arbitrary: v ds) (auto simp: rbind_Inr_iff split: prod.splits sum.splits)

text \<open>Sealing a message and opening it, on ends in step.\<close>

lemma seal_open:
  assumes enc: "olm_encodings om" and step: "in_step om R s b v a"
    and seal: "session_encrypt om s b m = (s', Inr frame)"
  shows "\<exists>v' d. session_decrypt om v a frame = (v', Inr d) \<and> dc_plaintext d = m
    \<and> dc_authenticated_sender d = a \<and> in_step om R s' b v' a"
proof -
  obtain st st' where st: "bt_get (sm_peers s) b = Some st" "bt_get (sm_peers v) a = Some st'"
    and k: "keeps_step om (pk_curve25519 (ps_keys st')) R"
    and R: "case ps_session st of
             Some ses \<Rightarrow> R ses (sm_account v) (ps_session st')
           | None \<Rightarrow> \<forall>ses. om_outbound om (sm_account s) (pk_curve25519 (ps_keys st))
                 (pk_fallback_key (ps_keys st)) = Inr ses \<longrightarrow> R ses (sm_account v) (ps_session st')"
    using step by (auto simp: in_step_def)
  obtain ses ses' c where e: "om_encrypt om ses m = (ses', Inr c)" and f: "frame = encode_frame om c"
    and r: "R ses (sm_account v) (ps_session st')"
    and s': "bt_get (sm_peers s') b = Some (st\<lparr>ps_session := Some ses'\<rparr>)"
  proof (cases "ps_session st")
    case (Some ses)
    with seal st(1) that R show ?thesis
      by (auto simp: session_encrypt_def has_session_def set_session_def split: prod.splits sum.splits)
  next
    case None
    then obtain ses where o: "om_outbound om (sm_account s) (pk_curve25519 (ps_keys st)) (pk_fallback_key (ps_keys st))
        = Inr ses"
      using seal st(1) by (auto simp: session_encrypt_def has_session_def establish_outbound_def split: sum.splits)
    with None R have "R ses (sm_account v) (ps_session st')" by simp
    with None o seal st(1) that show ?thesis
      by (auto simp: session_encrypt_def has_session_def establish_outbound_def set_session_def
          split: prod.splits sum.splits)
  qed
  have d: "decode_frame om frame = Inr c" unfolding f by (rule decode_encode_frame [OF enc])
  show ?thesis
  proof (cases "\<exists>pre_key. c = PreKey pre_key \<and>
      (\<forall>h. ps_session st' = Some h \<longrightarrow> om_session_id om h \<noteq> om_prekey_session_id om pre_key)")
    case True
    then obtain pre_key acc' h' where i: "c = PreKey pre_key"
      "om_inbound om (sm_account v) (pk_curve25519 (ps_keys st')) pre_key = (acc', Inr (h', m))" "R ses' acc' (Some h')"
      using keeps_stepD(1) [OF k r e True] by blast
    with True st(2) s' k d show ?thesis
      by (auto simp: session_decrypt_def set_session_def in_step_def split: option.splits)
  next
    case False
    then obtain h h' where i: "ps_session st' = Some h" "om_decrypt om h c = (h', Inr m)"
        "R ses' (sm_account v) (Some h')"
      using keeps_stepD(2) [OF k r e False] by blast
    then have "session_decrypt om v a frame = decrypt_current om v a st' c"
      using False st(2) d by (cases c) (auto simp: session_decrypt_def)
    with i st(2) s' k show ?thesis
      by (auto simp: decrypt_current_def set_session_def in_step_def)
  qed
qed

text \<open>Sealing for another peer leaves the two ends in step.\<close>

lemma seal_other:
  assumes "session_encrypt om s p m = (s', r)" and "p \<noteq> b"
  shows "bt_get (sm_peers s') b = bt_get (sm_peers s) b" and "sm_account s' = sm_account s"
  using assms
  by (auto simp: session_encrypt_def establish_outbound_def set_session_def
      split: prod.splits sum.splits option.splits if_splits)

lemma in_step_other:
  assumes "session_encrypt om s p m = (s', r)" and "p \<noteq> b" and "in_step om R s b v a"
  shows "in_step om R s' b v a"
  using assms(3) unfolding in_step_def seal_other [OF assms(1,2)] .

section \<open>A drain that is read at the other end\<close>

text \<open>
  After the entries \<open>es\<close> for one channel: the channel holds what it held before and frames that the
  receiver opens to their plaintexts, in their order and under the sender's name, and the two ends are
  in step for what follows.
\<close>

definition carried ::
  "('acc, 'ses) olm \<Rightarrow> ('ses \<Rightarrow> 'acc \<Rightarrow> 'ses option \<Rightarrow> bool) \<Rightarrow> string \<Rightarrow> string
     \<Rightarrow> ('acc, 'ses) session_manager \<Rightarrow> (string \<times> bytes) list \<Rightarrow> entry list
     \<Rightarrow> channel_view \<Rightarrow> ('acc, 'ses) session_manager \<Rightarrow> bool"
where
  "carried om R b a v before es ends s \<longleftrightarrow>
     (\<exists>new v' ds. ends = Live (before @ new) \<and> open_all om v a (map snd new) = (v', Inr ds)
        \<and> map dc_plaintext ds = map oe_plaintext es \<and> (\<forall>d \<in> set ds. dc_authenticated_sender d = a)
        \<and> in_step om R s b v' a)"

lemma carried_start: "in_step om R s b v a \<Longrightarrow> carried om R b a v before [] (Live before) s"
  by (auto simp: carried_def)

lemma carried_more:
  assumes "olm_encodings om" and "carried om R b a v before es (Live ms) s"
    and "session_encrypt om s b (oe_plaintext e) = (s', Inr frame)"
  shows "carried om R b a v before (es @ [e]) (Live (ms @ [(i, frame)])) s'"
proof -
  obtain new v' ds where c: "ms = before @ new" "open_all om v a (map snd new) = (v', Inr ds)"
      "map dc_plaintext ds = map oe_plaintext es" "\<forall>d \<in> set ds. dc_authenticated_sender d = a"
      "in_step om R s b v' a"
    using assms(2) by (auto simp: carried_def)
  obtain v'' d where d: "session_decrypt om v' a frame = (v'', Inr d)" "dc_plaintext d = oe_plaintext e"
      "dc_authenticated_sender d = a" "in_step om R s' b v'' a"
    using seal_open [OF assms(1) c(5) assms(3)] by blast
  show ?thesis unfolding carried_def
    by (rule exI [of _ "new @ [(i, frame)]"], rule exI [of _ v''], rule exI [of _ "ds @ [d]"])
      (use c d open_all_append [OF c(2) d(1)] in auto)
qed

lemma outbound_of_ciphertext: "ob_ciphertext (outbound_of e frame) = frame"
  by (simp add: outbound_of_def Let_def outbound_new_def with_priority_def with_ttl_def split: option.split)

lemma drop_channels_keep:
  "pa_transport (fold drop_channel cs p) = pa_transport p" "pa_sessions (fold drop_channel cs p) = pa_sessions p"
  by (induction cs arbitrary: p) simp_all

context transport_port
begin

lemma drain_entry_carries:
  fixes seconds :: nat
  assumes enc: "olm_encodings om" and total: "olm_total om" and none: "pa_failed p = bt_empty"
    and rdy: "ready p (pa_entries p ! i)"
    and c: "carried om R b a v before es (view (pa_transport p) c) (pa_sessions p)"
    and one: "oe_channel (pa_entries p ! i) = c \<longleftrightarrow> oe_peer (pa_entries p ! i) = b"
  defines "q \<equiv> drain_entry om port seconds i p"
  shows "carried om R b a v before (es @ filter (\<lambda>e. oe_channel e = c) [pa_entries p ! i])
    (view (pa_transport q) c) (pa_sessions q)"
proof -
  let ?e = "pa_entries p ! i"
  obtain s' frame where s: "session_encrypt om (pa_sessions p) (oe_peer ?e) (oe_plaintext ?e) = (s', Inr frame)"
    using encrypt_known [OF total, of "pa_sessions p" "oe_peer ?e" "oe_plaintext ?e"] rdy by (auto simp: ready_def)
  obtain ms where ms: "view (pa_transport p) (oe_channel ?e) = Live ms"
    using rdy by (auto simp: ready_def open_channel_def)
  obtain t' sr where t: "po_send port (pa_transport p) (oe_channel ?e) (outbound_of ?e frame) = (t', sr)"
    by fastforce
  obtain j where j: "sr = Inr j" "view t' = (view (pa_transport p))(oe_channel ?e := Live (ms @ [(j, frame)]))"
    using send_law [OF t] by (auto simp: ms outbound_of_ciphertext)
  have q: "pa_transport q = t'" "pa_sessions q = s'"
    by (simp_all add: q_def drain_entry_def Let_def none s send_sealed_def t j(1))
  show ?thesis
  proof (cases "oe_channel ?e = c")
    case True
    with one have p: "oe_peer ?e = b" by simp
    from carried_more [OF enc c [folded True, unfolded ms] s [unfolded p], of j] show ?thesis
      using True by (simp add: q j(2))
  next
    case False
    with one have p: "oe_peer ?e \<noteq> b" by simp
    from c in_step_other [OF s p] show ?thesis using False by (auto simp: q j(2) carried_def)
  qed
qed

lemma drain_entries_carry:
  assumes enc: "olm_encodings om" and total: "olm_total om"
  shows "pa_failed p = bt_empty \<Longrightarrow> \<forall>i \<in> set is. ready p (pa_entries p ! i)
      \<and> (oe_channel (pa_entries p ! i) = c \<longleftrightarrow> oe_peer (pa_entries p ! i) = b)
    \<Longrightarrow> carried om R b a v before es (view (pa_transport p) c) (pa_sessions p)
    \<Longrightarrow> carried om R b a v before (es @ filter (\<lambda>e. oe_channel e = c) (map (\<lambda>i. pa_entries p ! i) is))
      (view (pa_transport (fold (drain_entry om port seconds) is p)) c)
      (pa_sessions (fold (drain_entry om port seconds) is p))"
proof (induction "is" arbitrary: p es)
  case (Cons i js)
  let ?q = "drain_entry om port seconds i p"
  have q: "pa_failed ?q = bt_empty" "pa_entries ?q = pa_entries p" "\<And>e. ready ?q e = ready p e"
    using drain_entry_sends [OF total Cons.prems(1), of i seconds] Cons.prems(2) by simp_all
  have c: "carried om R b a v before (es @ filter (\<lambda>e. oe_channel e = c) [pa_entries p ! i])
      (view (pa_transport ?q) c) (pa_sessions ?q)"
    using Cons.prems by (intro drain_entry_carries [OF enc total]) auto
  have "\<forall>j \<in> set js. ready ?q (pa_entries ?q ! j)
      \<and> (oe_channel (pa_entries ?q ! j) = c \<longleftrightarrow> oe_peer (pa_entries ?q ! j) = b)"
    using Cons.prems(2) q by simp
  from Cons.IH [OF q(1) this c] show ?case
    by (cases "oe_channel (pa_entries p ! i) = c") (simp_all add: q(2))
qed simp

lemma drain_carries:
  assumes enc: "olm_encodings om" and total: "olm_total om"
    and rdy: "\<And>e. e \<in> set (due_entries ob now budget) \<Longrightarrow> open_channel t (oe_channel e) \<and> knows s (oe_peer e)
      \<and> (oe_channel e = c \<longleftrightarrow> oe_peer e = b)"
    and step: "in_step om R s b v a" and live: "view t c = Live before"
    and run: "drain om port ob t s now budget = (ob', t', s', r)"
  shows "carried om R b a v before (filter (\<lambda>e. oe_channel e = c) (due_entries ob now budget)) (view t' c) s'"
proof -
  let ?p0 = "drain_start ob (epoch_seconds now) t s"
  let ?due = "due_indices (live_entries ob now) (epoch_seconds now) budget"
  let ?p1 = "drained_pass om port ob t s now budget"
  have start: "pa_entries ?p0 = live_entries ob now" "pa_failed ?p0 = bt_empty"
      "pa_transport ?p0 = t" "pa_sessions ?p0 = s"
    by (simp_all add: drain_start_def live_entries_def)
  have all: "\<forall>i \<in> set ?due. ready ?p0 (pa_entries ?p0 ! i)
      \<and> (oe_channel (pa_entries ?p0 ! i) = c \<longleftrightarrow> oe_peer (pa_entries ?p0 ! i) = b)"
    using rdy by (auto simp: ready_def start due_entries_def)
  have p1: "?p1 = fold (drain_entry om port (epoch_seconds now)) ?due ?p0"
    unfolding drained_pass_def Let_def start(1) ..
  have "carried om R b a v before [] (view (pa_transport ?p0) c) (pa_sessions ?p0)"
    using carried_start [OF step] by (simp add: start live)
  from drain_entries_carry [OF enc total start(2) all this, of "epoch_seconds now"]
  have "carried om R b a v before (filter (\<lambda>e. oe_channel e = c) (due_entries ob now budget))
      (view (pa_transport ?p1) c) (pa_sessions ?p1)"
    unfolding p1 start(1) due_entries_def by simp
  moreover have "t' = pa_transport ?p1" "s' = pa_sessions ?p1"
    using run by (auto simp: drain_eq Let_def drop_channels_keep)
  ultimately show ?thesis by simp
qed

end

text \<open>Over the in-memory transport the receiver's subscription delivers those frames.\<close>

lemma memory_pull:
  assumes "memory_view t c = Live ms" and "length ms \<le> n"
  shows "pull_all t \<lparr>su_channel = c, su_cursor = 0\<rparr> n = map snd ms"
proof -
  obtain ch where ch: "my_channels t c = Some ch" "\<not> ch_retired ch"
      "ms = map (\<lambda>m. (st_id m, st_ciphertext m)) (ch_pending ch)"
    using assms(1) by (auto simp: memory_view_def split: option.splits if_splits)
  then have u: "undelivered t \<lparr>su_channel = c, su_cursor = 0\<rparr> = map snd ms"
    by (simp add: undelivered_def ciphertexts_of_def comp_def)
  from pull_all_delivers [of t "\<lparr>su_channel = c, su_cursor = 0\<rparr>" ch n] ch assms(2) u show ?thesis by simp
qed

lemma memory_delivers:
  assumes "carried om R b a v [] es (memory_view t c) s" and "length es \<le> n"
  shows "\<exists>v' ds. open_all om v a (pull_all t \<lparr>su_channel = c, su_cursor = 0\<rparr> n) = (v', Inr ds)
    \<and> map dc_plaintext ds = map oe_plaintext es \<and> (\<forall>d \<in> set ds. dc_authenticated_sender d = a)
    \<and> in_step om R s b v' a"
proof -
  obtain new v' ds where c: "memory_view t c = Live new" "open_all om v a (map snd new) = (v', Inr ds)"
      "map dc_plaintext ds = map oe_plaintext es" "\<forall>d \<in> set ds. dc_authenticated_sender d = a"
      "in_step om R s b v' a"
    using assms(1) by (auto simp: carried_def)
  have "length new \<le> n"
    using open_all_length [OF c(2)] arg_cong [OF c(3), of length] assms(2) by simp
  then show ?thesis using c memory_pull [OF c(1)] by simp
qed

section \<open>Envelopes\<close>

text \<open>
  An envelope fit to send under the name \<open>a\<close>: it passes the checks of its receiver, and its type is one
  that the wire gives back.
\<close>

definition sendable :: "string \<Rightarrow> envelope \<Rightarrow> bool" where
  "sendable a e \<longleftrightarrow> validate_envelope e = Inr () \<and> en_sender e = a
     \<and> mt_deserialize (mt_serialize (en_message_type e)) = Some (en_message_type e)"

text \<open>The plaintexts opened are the encoded envelopes, so each is received as what was sent.\<close>

lemma receive_opened:
  assumes codec: "reads_envelopes to_vec from_slice"
    and m: "map dc_plaintext ds = map oe_plaintext es" and a: "\<forall>d \<in> set ds. dc_authenticated_sender d = a"
    and enc: "list_all2 (\<lambda>q e. sendable a e \<and> encode_envelope to_vec e = Inr (oe_plaintext q)) es envelopes"
  shows "map (\<lambda>d. receive from_slice (dc_plaintext d) (dc_authenticated_sender d)) ds = map received_as envelopes"
proof (rule nth_equalityI)
  have l: "length ds = length es" using arg_cong [OF m, of length] by simp
  with enc show "length (map (\<lambda>d. receive from_slice (dc_plaintext d) (dc_authenticated_sender d)) ds)
      = length (map received_as envelopes)"
    by (simp add: list_all2_lengthD)
  fix i assume "i < length (map (\<lambda>d. receive from_slice (dc_plaintext d) (dc_authenticated_sender d)) ds)"
  then have i: "i < length ds" by simp
  have p: "dc_plaintext (ds ! i) = oe_plaintext (es ! i)"
    using arg_cong [OF m, of "\<lambda>xs. xs ! i"] i l by simp
  have s: "sendable a (envelopes ! i)" "encode_envelope to_vec (envelopes ! i) = Inr (oe_plaintext (es ! i))"
    using list_all2_nthD [OF enc, of i] i l by simp_all
  have "dc_authenticated_sender (ds ! i) = en_sender (envelopes ! i)"
    using a i s(1) by (simp add: sendable_def)
  with receive_encoded [OF codec s(2)] s(1) i l p list_all2_lengthD [OF enc]
  show "map (\<lambda>d. receive from_slice (dc_plaintext d) (dc_authenticated_sender d)) ds ! i
      = map received_as envelopes ! i"
    by (simp add: sendable_def)
qed

end
