(* ===== verification/Consent.thy ===== *)
theory Consent
  imports Ledger
begin

text \<open>
  The consent state machine, \<^verbatim>\<open>core/beacon-protocol/src/consent.rs\<close>: the grants a device
  issued, the allows its peers advertised, and the enforcement point \<^verbatim>\<open>may_send\<close>. The two
  \<^verbatim>\<open>HashSet\<close>s are sets. A run of the machine is a step relation over the three operations,
  and \<^verbatim>\<open>latest\<close> is the abstract specification of what a run leaves behind.
\<close>

section \<open>State and operations\<close>

datatype emission = EmMessage message_type | EmReceiptFor message_type

datatype send_decision = SdAllow | SdDeny deny_reason

definition is_allowed :: "send_decision \<Rightarrow> bool" where
  "is_allowed d = (case d of SdAllow \<Rightarrow> True | SdDeny _ \<Rightarrow> False)"

record consent_state =
  cs_issued :: "(feature \<times> string) set"
  cs_advertised :: "(feature \<times> string) set"

definition consent_new :: consent_state where
  "consent_new = \<lparr>cs_issued = {}, cs_advertised = {}\<rparr>"

definition consent_grant ::
  "consent_state \<Rightarrow> feature \<Rightarrow> string \<Rightarrow> consent_state \<times> ledger_entry" where
  "consent_grant s feature peer =
     (s\<lparr>cs_issued := insert (feature, peer) (cs_issued s)\<rparr>,
      le_local peer (EvConsentChanged feature True))"

definition consent_revoke ::
  "consent_state \<Rightarrow> feature \<Rightarrow> string \<Rightarrow> consent_state \<times> ledger_entry" where
  "consent_revoke s feature peer =
     (s\<lparr>cs_issued := cs_issued s - {(feature, peer)}\<rparr>,
      le_local peer (EvConsentChanged feature False))"

definition record_peer_advertisement ::
  "consent_state \<Rightarrow> feature \<Rightarrow> string \<Rightarrow> bool \<Rightarrow> consent_state \<times> ledger_entry" where
  "record_peer_advertisement s feature peer granted =
     (s\<lparr>cs_advertised := (if granted then insert (feature, peer) (cs_advertised s)
                          else cs_advertised s - {(feature, peer)})\<rparr>,
      le_inbound peer None (EvPeerAdvertisedConsent feature granted))"

definition has_granted :: "consent_state \<Rightarrow> feature \<Rightarrow> string \<Rightarrow> bool" where
  "has_granted s feature peer \<longleftrightarrow> (feature, peer) \<in> cs_issued s"

definition peer_allows :: "consent_state \<Rightarrow> feature \<Rightarrow> string \<Rightarrow> bool" where
  "peer_allows s feature peer \<longleftrightarrow> (feature, peer) \<in> cs_advertised s"

definition require_grant :: "consent_state \<Rightarrow> feature \<Rightarrow> string \<Rightarrow> send_decision" where
  "require_grant s feature peer =
     (if has_granted s feature peer then SdAllow else SdDeny (NoGrant feature))"

fun may_send_message :: "consent_state \<Rightarrow> message_type \<Rightarrow> string \<Rightarrow> send_decision" where
  "may_send_message s MtSos peer = SdAllow"
| "may_send_message s MtSosClear peer = SdAllow"
| "may_send_message s MtMemberInfo peer = SdAllow"
| "may_send_message s MtConsentUpdate peer = SdAllow"
| "may_send_message s MtConfigUpdate peer = SdAllow"
| "may_send_message s MtRosterIntroduce peer = SdAllow"
| "may_send_message s MtRosterRemove peer = SdAllow"
| "may_send_message s MtRosterSync peer = SdAllow"
| "may_send_message s MtChannelOffer peer = SdAllow"
| "may_send_message s MtLocation peer = require_grant s FtLocation peer"
| "may_send_message s MtBattery peer = require_grant s FtBattery peer"
| "may_send_message s MtGeofenceEvent peer = require_grant s FtGeofence peer"
| "may_send_message s MtAttention peer =
     (if peer_allows s FtAttention peer then SdAllow else SdDeny (NoInboundAllow FtAttention))"
| "may_send_message s MtReceipt peer = require_grant s FtReceipts peer"
| "may_send_message s (MtUnknown wire_type) peer = SdDeny (DenyUnknownType wire_type)"

definition may_send :: "consent_state \<Rightarrow> emission \<Rightarrow> string \<Rightarrow> send_decision" where
  "may_send s em peer =
     (case em of
        EmMessage m \<Rightarrow> may_send_message s m peer
      | EmReceiptFor m \<Rightarrow>
          (case m of MtSos \<Rightarrow> SdAllow | MtSosClear \<Rightarrow> SdAllow | MtAttention \<Rightarrow> SdAllow
           | MtConsentUpdate \<Rightarrow> SdAllow | _ \<Rightarrow> require_grant s FtReceipts peer))"

section \<open>Runs\<close>

datatype consent_op = OpGrant feature string | OpRevoke feature string
  | OpAdvertise feature string bool

fun consent_apply :: "consent_state \<Rightarrow> consent_op \<Rightarrow> consent_state \<times> ledger_entry" where
  "consent_apply s (OpGrant f p) = consent_grant s f p"
| "consent_apply s (OpRevoke f p) = consent_revoke s f p"
| "consent_apply s (OpAdvertise f p g) = record_peer_advertisement s f p g"

inductive consent_step :: "consent_state \<Rightarrow> ledger_entry \<Rightarrow> consent_state \<Rightarrow> bool" where
  step_apply: "consent_apply s op = (s', e) \<Longrightarrow> consent_step s e s'"

inductive consent_run :: "consent_state \<Rightarrow> ledger_entry list \<Rightarrow> consent_state \<Rightarrow> bool" where
  run_nil: "consent_run s [] s"
| run_snoc: "consent_run s es s' \<Longrightarrow> consent_step s' e s'' \<Longrightarrow> consent_run s (es @ [e]) s''"

inductive_cases consent_stepE: "consent_step s e s'"
inductive_simps consent_run_Nil: "consent_run s [] s'"

text \<open>
  The ledger alone decides the state: the last entry naming a feature and a peer says whether
  the grant is in force.
\<close>

fun latest :: "(ledger_event \<Rightarrow> bool option) \<Rightarrow> string \<Rightarrow> ledger_entry list \<Rightarrow> bool" where
  "latest says peer [] = False"
| "latest says peer (e # es) =
     (if le_peer e = peer then (case says (le_event e) of Some b \<Rightarrow> b | None \<Rightarrow> latest says peer es)
      else latest says peer es)"

definition says_issued :: "feature \<Rightarrow> ledger_event \<Rightarrow> bool option" where
  "says_issued f ev = (case ev of EvConsentChanged g b \<Rightarrow> if g = f then Some b else None | _ \<Rightarrow> None)"

definition says_advertised :: "feature \<Rightarrow> ledger_event \<Rightarrow> bool option" where
  "says_advertised f ev =
     (case ev of EvPeerAdvertisedConsent g b \<Rightarrow> if g = f then Some b else None | _ \<Rightarrow> None)"

lemma consent_step_granted:
  assumes "consent_step s e s'"
  shows "has_granted s' f p \<longleftrightarrow>
     (if le_peer e = p then (case says_issued f (le_event e) of Some b \<Rightarrow> b | None \<Rightarrow> has_granted s f p)
      else has_granted s f p)"
  using assms
proof (rule consent_stepE)
  fix op
  assume "consent_apply s op = (s', e)"
  then show ?thesis
    by (cases op) (auto simp: consent_grant_def consent_revoke_def record_peer_advertisement_def
        has_granted_def says_issued_def split: if_splits)
qed

lemma consent_step_allows:
  assumes "consent_step s e s'"
  shows "peer_allows s' f p \<longleftrightarrow>
     (if le_peer e = p
      then (case says_advertised f (le_event e) of Some b \<Rightarrow> b | None \<Rightarrow> peer_allows s f p)
      else peer_allows s f p)"
  using assms
proof (rule consent_stepE)
  fix op
  assume "consent_apply s op = (s', e)"
  then show ?thesis
    by (cases op) (auto simp: consent_grant_def consent_revoke_def record_peer_advertisement_def
        peer_allows_def says_advertised_def split: if_splits)
qed

lemma consent_run_latest:
  "consent_run s es s' \<Longrightarrow> s = consent_new \<Longrightarrow>
     has_granted s' f p = latest (says_issued f) p (rev es) \<and>
     peer_allows s' f p = latest (says_advertised f) p (rev es)"
proof (induction rule: consent_run.induct)
  case (run_nil s)
  then show ?case by (simp add: has_granted_def peer_allows_def consent_new_def)
next
  case (run_snoc s es s' e s'')
  then show ?case
    using consent_step_granted [OF run_snoc.hyps(2)] consent_step_allows [OF run_snoc.hyps(2)]
    by (auto split: option.splits)
qed

text \<open>The feature each gated type waits for, and where the permission is held.\<close>

fun gate_of :: "message_type \<Rightarrow> (feature \<times> direction) option" where
  "gate_of MtLocation = Some (FtLocation, Outbound)"
| "gate_of MtBattery = Some (FtBattery, Outbound)"
| "gate_of MtGeofenceEvent = Some (FtGeofence, Outbound)"
| "gate_of MtReceipt = Some (FtReceipts, Outbound)"
| "gate_of MtAttention = Some (FtAttention, Inbound)"
| "gate_of m = None"

lemma may_send_message_gate:
  "may_send_message s m p = SdAllow \<longleftrightarrow>
     mt_is_known m \<and> (case gate_of m of None \<Rightarrow> True
       | Some (f, d) \<Rightarrow> if d = Inbound then peer_allows s f p else has_granted s f p)"
  by (cases m) (simp_all add: require_grant_def mt_is_known_def)

end
