(* ===== verification/Sample.thy ===== *)
theory Sample
  imports Exchange Pairing Delivery Consent
begin

text \<open>A small concrete family, on which the statements with hypotheses are exercised: a toy
  signature scheme that satisfies the laws the code relies on, and a founder's roster.\<close>

definition pad_to :: "nat \<Rightarrow> bytes \<Rightarrow> bytes" where
  "pad_to n b = take n (b @ replicate n 0)"

definition sample_crypto :: crypto where
  "sample_crypto =
     \<lparr>cr_to_vec = (\<lambda>_. Inr []), cr_b64_encode = map (\<lambda>b. char_of (unat b)), cr_b64_decode = (\<lambda>s. Some (utf8 s)),
      cr_vk_ok = (\<lambda>k. length k = 32), cr_public = pad_to 32,
      cr_sign = (\<lambda>seed m. pad_to 64 (pad_to 32 seed @ m)),
      cr_verify = (\<lambda>k m sig. sig = pad_to 64 (k @ m)), cr_sha256 = pad_to 32\<rparr>"

lemma length_pad_to [simp]: "length (pad_to n b) = n"
  by (simp add: pad_to_def)

lemma utf8_char_of_bytes: "utf8 (map (\<lambda>b. char_of (unat b)) b) = b"
proof -
  have "(of_char (char_of (unat x) :: char) :: u8) = x" for x :: u8
  proof -
    have "(of_char (char_of (unat x) :: char) :: u8) = word_of_nat (of_char (char_of (unat x) :: char))"
      by (simp only: of_nat_of_char)
    also have "of_char (char_of (unat x) :: char) = unat x mod 256"
      by (rule of_char_of)
    also have "word_of_nat (unat x mod 256) = x"
      using unat_u8_bound [of x] by (simp add: mod_less)
    finally show ?thesis .
  qed
  then show ?thesis by (induction b) simp_all
qed

lemma sample_signs: "signs_correctly sample_crypto"
  by (simp add: signs_correctly_def sample_crypto_def utf8_char_of_bytes)

definition sample_key :: "u8 \<Rightarrow> identity_key" where
  "sample_key n = identity_from_seed [n]"

definition sample_pk :: "u8 \<Rightarrow> string" where
  "sample_pk n = public_to_base64 sample_crypto (identity_public_key sample_crypto (sample_key n))"

definition sample_me :: "string \<Rightarrow> self_description" where
  "sample_me i = \<lparr>me_device_id = i, me_display_name = i, me_member_group = ''g'',
     me_role = ''adult'', me_joined_at = ''2026-01-01T00:00:00Z''\<rparr>"

definition sample_subject :: "string \<Rightarrow> u8 \<Rightarrow> vouched_subject" where
  "sample_subject i n = self_subject (sample_me i) (sample_pk n)"

definition sample_founder :: roster where
  "sample_founder = ap_outcome (found sample_crypto (sample_me ''a'') (sample_key 1))"

definition sample_now :: system_time where
  "sample_now = from_secs 1767225600"

text \<open>The founder admits a second device with a vouch of its own.\<close>

definition sample_vouch :: "string \<Rightarrow> u8 \<Rightarrow> roster_introduce" where
  "sample_vouch i n = \<lparr>ri_subject = sample_subject i n, ri_epoch = 0,
     ri_vouch = sign_canonical sample_crypto (sample_key 1) PurposeVouch []\<rparr>"

definition sample_pair :: roster where
  "sample_pair = fst (receive_introduce sample_crypto sample_founder (sample_vouch ''b'' 2) ''a'' sample_now)"

definition sample_removed :: roster where
  "sample_removed =
     fst (remove sample_crypto sample_pair ''b'' RrLost ''2026-01-02T00:00:00Z'' (sample_key 1) sample_now)"

text \<open>Whether a roster satisfies the invariant can be computed.\<close>

lemma roster_inv_code [code]:
  "roster_inv r \<longleftrightarrow>
     list_all (\<lambda>(k, d). dr_device_id d = k) (bt_entries (ro_devices r)) \<and>
     list_all (\<lambda>(k, t). ts_subject t = k) (bt_entries (ro_tombstones r)) \<and>
     list_all (\<lambda>(k, h). vs_device_id (ri_subject (ha_message h)) = k) (bt_entries (ro_held r)) \<and>
     list_all (\<lambda>k. \<not> is_active r k \<and> \<not> bt_contains (ro_held r) k) (bt_keys (ro_tombstones r)) \<and>
     bt_contains (ro_devices r) (ro_self_id r)"
proof -
  have e: "list_all (\<lambda>(k, v). P k v) (bt_entries m) \<longleftrightarrow> (\<forall>k v. bt_get m k = Some v \<longrightarrow> P k v)"
    for P and m :: "(string, 'v) btree"
    by (auto simp: list_all_iff bt.entries_iff)
  have k: "list_all P (bt_keys m) \<longleftrightarrow> (\<forall>k. bt_contains m k \<longrightarrow> P k)"
    for P and m :: "(string, 'v) btree"
    by (auto simp: list_all_iff set_bt_keys)
  show ?thesis unfolding e k roster_inv_def by simp
qed

lemma sample_founder_state: "family_state sample_crypto (sample_pk 1) sample_founder"
  unfolding sample_founder_def sample_pk_def by (rule founded) simp

lemma sample_pair_step:
  "roster_step sample_crypto sample_founder (RoIntroduce (sample_vouch ''b'' 2) ''a'' sample_now)
     (ap_ledger (snd (receive_introduce sample_crypto sample_founder (sample_vouch ''b'' 2) ''a''
        sample_now))) sample_pair"
  by (rule roster_step.step) (simp add: with_ledger_def sample_pair_def)

lemma sample_pair_state: "family_state sample_crypto (sample_pk 1) sample_pair"
  by (rule stepped [OF sample_founder_state sample_pair_step])

lemma stepped_result:
  "family_state cr root r \<Longrightarrow> family_state cr root (fst (step_result cr r op))"
  by (rule stepped [where op = op and l = "snd (step_result cr r op)"])
    (simp_all add: roster_step_iff)

lemma sample_removed_state: "family_state sample_crypto (sample_pk 1) sample_removed"
  using stepped_result [OF sample_pair_state, of "RoRemove ''b'' RrLost ''2026-01-02T00:00:00Z''
      (sample_key 1) sample_now"]
  by (simp only: sample_removed_def step_result_remove_fst)

lemma sample_parse [simp]:
  "public_from_base64 sample_crypto (sample_pk n) = Inr (identity_public_key sample_crypto (sample_key n))"
  unfolding sample_pk_def by (rule public_base64_roundtrip [OF sample_signs])

lemma sample_subject_simps [simp]:
  "vs_device_id (sample_subject i n) = i" "vs_identity_pk (sample_subject i n) = sample_pk n"
  "ri_subject (sample_vouch i n) = sample_subject i n"
  by (simp_all add: sample_subject_def self_subject_def sample_me_def sample_vouch_def)

lemma sample_sign:
  "float_free v \<Longrightarrow> identity_sign sample_crypto k p (Inr v) = Inr (sign_canonical sample_crypto k p [])"
  by (simp add: identity_sign_def to_canonical_json_def reject_floats_ok(1) [THEN iffD2])
    (simp add: sample_crypto_def)

lemma sample_founder_fields [simp]:
  "ro_self_id sample_founder = ''a''" "ro_tombstones sample_founder = bt_empty"
  "ro_held sample_founder = bt_empty" "ro_churn sample_founder = churn_new"
  "ro_removed_me sample_founder = bt_empty" "ro_epoch sample_founder = 0"
  "is_active sample_founder k \<longleftrightarrow> k = ''a''"
  "bt_contains (ro_devices sample_founder) k \<longleftrightarrow> k = ''a''"
  "map_option dr_identity_pk (bt_get (ro_devices sample_founder) k) =
     (if k = ''a'' then Some (sample_pk 1) else None)"
  by (auto simp: sample_founder_def found_def sample_me_def is_active_def record_is_active_def
      sample_pk_def)

lemma sample_founder_key [simp]:
  "identity_of sample_crypto sample_founder ''a'' = Some (identity_public_key sample_crypto (sample_key 1))"
  "recorded_key sample_crypto sample_founder ''a'' = Some (identity_public_key sample_crypto (sample_key 1))"
  by (simp_all add: identity_of_recorded)
    (simp_all add: recorded_key_def sample_founder_def found_def sample_me_def flip: sample_pk_def)

lemma sample_founder_count [simp]: "active_count sample_founder = 1"
  by (simp add: active_count_card)

lemma sample_vouch_issued:
  "i \<noteq> ''a'' \<Longrightarrow>
     vouch_for sample_crypto sample_founder (sample_subject i n) (sample_key 1) = Inr (sample_vouch i n)"
  by (simp add: vouch_for_def parse_identity_def max_active_devices_def sample_sign payloads_float_free
      sample_vouch_def)

lemma sample_vouch_passes:
  "i \<noteq> ''a'' \<Longrightarrow> vouch_violation sample_crypto sample_founder (sample_vouch i n) ''a'' = None"
  using issued_vouch_passes [OF sample_signs sample_vouch_issued [of i n], of sample_founder "''a''"]
    sample_founder_fields(8) [of i]
  by (simp add: max_active_devices_def bt_contains_def del: sample_founder_fields(8))

lemma sample_pair_eq:
  "sample_pair = fst (admit (charge sample_founder ''a'' (me_joined_at (sample_me ''b'')) sample_now)
     (sample_subject ''b'' 2) ''a'')"
  using sample_vouch_passes [of "''b''" 2]
  by (simp add: sample_pair_def receive_introduce_fst would_exceed_def count_in_window_def churn_new_def
      max_membership_events_def sample_subject_def self_subject_def sample_me_def)

lemma sample_pair_fields [simp]:
  "ro_self_id sample_pair = ''a''" "ro_tombstones sample_pair = bt_empty"
  "ro_removed_me sample_pair = bt_empty" "ro_epoch sample_pair = 0" "ro_held sample_pair = bt_empty"
  "is_active sample_pair k \<longleftrightarrow> k = ''b'' \<or> k = ''a''"
  "bt_contains (ro_devices sample_pair) k \<longleftrightarrow> k = ''b'' \<or> k = ''a''"
  by (simp_all add: sample_pair_eq)

lemma sample_pair_key [simp]:
  "identity_of sample_crypto sample_pair ''a'' = Some (identity_public_key sample_crypto (sample_key 1))"
  "identity_of sample_crypto sample_pair ''b'' = Some (identity_public_key sample_crypto (sample_key 2))"
  using sample_founder_key
  by (simp_all add: identity_of_recorded, simp_all add: recorded_key_def sample_pair_eq)

lemma sample_removed_ok:
  "\<exists>a. remove sample_crypto sample_pair ''b'' RrLost at (sample_key 1) sample_now
     = (fst (remove sample_crypto sample_pair ''b'' RrLost at (sample_key 1) sample_now), Inr a)"
  by (auto simp: remove_def Let_def sample_sign payloads_float_free split: prod.splits)

lemma sample_removed_tombstone [simp]: "bt_contains (ro_tombstones sample_removed) ''b''"
  using sample_removed_ok remove_effect(1) unfolding sample_removed_def by blast

section \<open>Runs and messages of the family\<close>

lemma roster_run_one: "roster_run cr r [op] (fst (step_result cr r op))"
  by (rule roster_run.run_cons [OF roster_step.step roster_run.run_nil]) (rule surjective_pairing)

lemma sample_removed_facts [simp]:
  "ro_epoch sample_removed = 1" "bt_contains (ro_devices sample_removed) ''b''"
  "\<not> is_active sample_removed ''b''" "is_active sample_removed ''a''" "ro_self_id sample_removed = ''a''"
proof -
  have "is_ok (snd (remove sample_crypto sample_pair ''b'' RrLost ''2026-01-02T00:00:00Z'' (sample_key 1) sample_now))"
    using sample_removed_ok [of "''2026-01-02T00:00:00Z''"] by (metis is_ok_simps(2) snd_conv)
  then show "ro_epoch sample_removed = 1" "bt_contains (ro_devices sample_removed) ''b''"
    "\<not> is_active sample_removed ''b''" "is_active sample_removed ''a''" "ro_self_id sample_removed = ''a''"
    by (simp_all add: sample_removed_def remove_fst)
qed

lemma sample_remove_ok:
  "is_active q ''a'' \<and> ro_self_id q = ''a'' \<Longrightarrow>
     \<exists>q' a. remove sample_crypto q s why at k now = (q', Inr a)"
  by (auto simp: remove_def Let_def sample_sign payloads_float_free split: prod.splits)

definition sample_eviction :: roster_remove where
  "sample_eviction = \<lparr>rr_subject = ''a'', rr_reason = RrRemoved, rr_removed_at = [], rr_epoch = 1,
     rr_sig = sign_canonical sample_crypto (sample_key 2) PurposeRemoval []\<rparr>"

lemma sample_eviction_simps [simp]:
  "rr_subject sample_eviction = ''a''"
  "removal_verifies sample_crypto (identity_public_key sample_crypto (sample_key 2)) sample_eviction"
  using verify_own_signature [OF sample_signs sample_sign [OF payloads_float_free(3)],
      of "sample_key 2" PurposeRemoval]
  by (simp_all add: sample_eviction_def removal_verifies_def)

lemma sample_recent: "recent sample_now (sample_vouch ''b'' 2)"
  by code_simp

lemma sample_backdated: "\<not> recent (sample_now + from_secs 172800) (sample_vouch ''b'' 2)"
  by code_simp

definition sample_founder_record :: device_record where
  "sample_founder_record = (from_vouch (sample_subject ''a'' 1) ''a'')"

lemma sample_founder_recorded:
  "bt_get (ro_devices sample_founder) (dr_device_id sample_founder_record) = Some sample_founder_record"
  by (simp add: sample_founder_def found_def sample_founder_record_def from_vouch_def sample_me_def
      sample_subject_def self_subject_def sample_pk_def)

lemma sample_adopts:
  "\<exists>a. adopt sample_crypto ''b'' sample_founder_record (bt_values (ro_devices sample_founder))
     (tombstones sample_founder) (ro_epoch sample_founder) (sample_vouch ''b'' 2) = Inr a"
proof -
  have "verify_vouch sample_crypto (identity_public_key sample_crypto (sample_key 1)) (sample_vouch ''b'' 2) = Inr ()"
    by (rule own_vouch_verifies [OF sample_signs sample_vouch_issued]) simp
  moreover have "bt_of_list (map (\<lambda>t. (ts_subject t, t)) (tombstones sample_founder)) = bt_empty"
    by (simp add: tombstones_def bt_values_def bt_of_list_def)
  ultimately show ?thesis
    by (simp add: adopt_def parse_identity_def sample_founder_record_def Let_def)
qed

lemma is_active_other_self [simp]: "is_active (r\<lparr>ro_self_id := i\<rparr>) k = is_active r k"
  by (simp add: is_active_def)

section \<open>A family at its cap, with one more vouch held\<close>

definition sample_member :: "nat \<Rightarrow> string \<times> device_record" where
  "sample_member n =
     ([char_of n],
      \<lparr>dr_device_id = [char_of n], dr_identity_pk = [], dr_display_name = [], dr_member_group = [],
       dr_role = [], dr_joined_at = [], dr_introduced_by = ''a'', dr_state = DsActive\<rparr>)"

definition sample_full :: roster where
  "sample_full =
     \<lparr>ro_self_id = ''a'', ro_devices = bt_of_list (map sample_member [97..<117]),
      ro_tombstones = bt_empty, ro_epoch = 0, ro_churn = churn_new,
      ro_held = bt_insert ''z'' \<lparr>ha_message = \<lparr>ri_subject = \<lparr>vs_device_id = ''z'', vs_identity_pk = [],
          vs_display_name = [], vs_member_group = [], vs_role = [], vs_joined_at = []\<rparr>,
          ri_epoch = 0, ri_vouch = []\<rparr>, ha_introducer = ''a'', ha_events_in_window = 5\<rparr> bt_empty,
      ro_removed_me = bt_empty\<rparr>"

lemma sample_full_inv: "roster_inv sample_full"
  by code_simp

lemma sample_full_facts:
  "active_count sample_full = max_active_devices" "is_active sample_full ''a''"
  "\<not> is_active sample_full ''z''" "\<not> bt_contains (ro_tombstones sample_full) ''z''"
  by code_simp+

lemma sample_full_held: "bt_get (ro_held sample_full) ''z'' = Some (the (bt_get (ro_held sample_full) ''z''))"
  by (simp add: sample_full_def)

lemma sample_full_introducer: "ha_introducer (the (bt_get (ro_held sample_full) ''z'')) = ''a''"
  by (simp add: sample_full_def)

section \<open>A message queue, and a ratchet that encrypts nothing\<close>

definition sample_queue :: memory where
  "sample_queue =
     \<lparr>my_channels = [''q'' \<mapsto> \<lparr>ch_pending = [\<lparr>st_id = ''m1'', st_ciphertext = [1], st_received_at = 0\<rparr>,
         \<lparr>st_id = ''m2'', st_ciphertext = [2], st_received_at = 0\<rparr>,
         \<lparr>st_id = ''m3'', st_ciphertext = [3], st_received_at = 0\<rparr>], ch_retired = False\<rparr>],
      my_next_id = 3\<rparr>"

definition sample_olm :: "(bool, string) olm" where
  "sample_olm =
     \<lparr>om_account_new = False, om_curve25519 = (\<lambda>_. replicate 32 1),
      om_fallback = (\<lambda>a. if a then [(''k'', replicate 32 2)] else []),
      om_generate_fallback = (\<lambda>_. True), om_forget_fallback = (\<lambda>a. (a, False)), om_mark_published = id,
      om_outbound = (\<lambda>_ _ _. Inr ''out''), om_inbound = (\<lambda>a _ m. (a, Inr (''in'', m))), om_session_id = id,
      om_prekey_session_id = (\<lambda>_. ''in''), om_encrypt = (\<lambda>s m. (s, Inr (NormalMessage m))),
      om_decrypt = (\<lambda>s m. (s, Inr (case m of PreKey b \<Rightarrow> b | NormalMessage b \<Rightarrow> b))),
      om_to_parts = (\<lambda>m. case m of PreKey b \<Rightarrow> (0, b) | NormalMessage b \<Rightarrow> (1, b)),
      om_from_parts = (\<lambda>n b. if n = 0 then Inr (PreKey b) else if n = 1 then Inr (NormalMessage b)
                              else Inl ''unknown message type''),
      om_key_b64 = (\<lambda>k. CHR ''k'' # map (\<lambda>b. char_of (unat b)) k), om_key_parse = (\<lambda>s. Inr (utf8 (tl s))),
      om_pickle_account = (\<lambda>a _. if a then ''t'' else ''f''), om_unpickle_account = (\<lambda>s _. Inr (s = ''t'')),
      om_pickle_session = (\<lambda>s _. s), om_unpickle_session = (\<lambda>s _. Inr s)\<rparr>"

lemma sample_olm_encodings: "olm_encodings sample_olm"
  by (auto simp: olm_encodings_def sample_olm_def utf8_char_of_bytes split: olm_message.splits)

lemma sample_olm_b64: "om_key_b64 sample_olm k \<noteq> []"
  by (simp add: sample_olm_def)

definition sample_sessions :: "(bool, string) session_manager" where
  "sample_sessions = session_create sample_olm ''a'' (sample_key 1)"

definition sample_peered :: "(bool, string) session_manager" where
  "sample_peered = learn_peer sample_sessions
     \<lparr>pk_device_id = ''b'', pk_identity = identity_public_key sample_crypto (sample_key 2),
      pk_curve25519 = replicate 32 3, pk_fallback_key = replicate 32 4, pk_fallback_key_id = ''k''\<rparr>"

lemma sample_sessions_simps [simp]:
  "sm_device_id sample_sessions = ''a''" "sm_identity sample_sessions = sample_key 1"
  "sm_peers sample_sessions = bt_empty" "sm_account sample_sessions = False"
  by (simp_all add: sample_sessions_def session_create_def sample_olm_def)

lemma sample_peered_simps [simp]:
  "sm_device_id sample_peered = ''a''" "sm_identity sample_peered = sample_key 1"
  by (simp_all add: sample_peered_def learn_peer_def)

lemma sample_peered_inv: "session_inv sample_peered" "identities_parse sample_crypto sample_peered"
  by (auto simp: sample_peered_def learn_peer_def session_inv_def identities_parse_def
      public_base64_roundtrip [OF sample_signs] split: if_splits)

lemma bundle_value_float_free: "float_free (bundle_value b)"
  by (simp add: bundle_value_def float_free_json_object)

lemma sample_publishes: "\<exists>s' sb. publish_bundle sample_crypto sample_olm sample_sessions t = (s', Inr sb)"
  by (simp add: publish_bundle_def sample_olm_def Let_def sample_sign bundle_value_float_free)

lemma sample_decrypts:
  "\<exists>s' d. session_decrypt sample_olm sample_peered ''b'' (encode_frame sample_olm (PreKey [7])) = (s', Inr d)"
  using decode_encode_frame [OF sample_olm_encodings, of "PreKey [7]"]
  by (simp add: session_decrypt_def sample_peered_def learn_peer_def) (simp add: sample_olm_def)

section \<open>Two queued messages\<close>

definition sample_request :: "system_time option \<Rightarrow> enqueue_request" where
  "sample_request expires =
     \<lparr>eq_channel = ''q'', eq_peer = ''b'', eq_plaintext = [7], eq_priority = PrNormal, eq_ttl = None,
      eq_expires_at = expires, eq_coalesce_key = None\<rparr>"

definition sample_outbox :: outbox where
  "sample_outbox =
     fst (enqueue (fst (enqueue outbox_new (sample_request (Some (from_secs 1767225700))) sample_now))
       (sample_request None) sample_now)"

lemma sample_outbox_eq:
  "sample_outbox =
     \<lparr>ox_entries = [new_entry 0 (sample_request (Some (from_secs 1767225700))) 1767225600,
        new_entry 1 (sample_request None) 1767225600], ox_next_id = 2\<rparr>"
  by (simp add: sample_outbox_def enqueue_def outbox_new_def sample_request_def Let_def
      max_queued_per_channel_def epoch_seconds_def sample_now_def)

lemma sample_outbox_inv: "outbox_inv sample_outbox"
  unfolding sample_outbox_def
  by (intro enqueue_inv outbox_inv_new)
    (simp_all add: enqueue_def outbox_new_def sample_request_def Let_def max_queued_per_channel_def)

lemma sample_outbox_next_id: "ox_next_id sample_outbox \<noteq> - 1"
  by (simp add: sample_outbox_eq)

lemma sample_outbox_ids: "queued_ids sample_outbox = {0, 1}"
  by (simp add: queued_ids_def sample_outbox_eq)

lemma sample_outbox_durable: "\<exists>e \<in> set (ox_entries sample_outbox). is_durable e \<and> oe_id e = 1"
  by (simp add: sample_outbox_eq is_durable_def) (simp add: new_entry_def sample_request_def)

lemma sample_outbox_ready:
  "e \<in> set (ox_entries sample_outbox) \<Longrightarrow>
     (\<exists>ms. memory_view sample_queue (oe_channel e) = Live ms) \<and> knows sample_peered (oe_peer e)"
  by (auto simp: sample_outbox_eq new_entry_def sample_request_def memory_view_def sample_queue_def knows_def
      sample_peered_def peer_keys_learn)

lemma sample_olm_total: "olm_total sample_olm"
  by (simp add: olm_total_def sample_olm_def)

section \<open>A first contact\<close>

text \<open>
  A ratchet whose new sessions send pre-key messages, a receiver that has learned the sender and has no
  session yet, and an open channel between them.
\<close>

definition sample_contact :: "(bool, string) olm" where
  "sample_contact = sample_olm\<lparr>om_encrypt :=
     (\<lambda>s m. (s, Inr (if s = ''out'' then PreKey m else NormalMessage m)))\<rparr>"

definition sample_receiver :: "(bool, string) session_manager" where
  "sample_receiver = learn_peer (session_create sample_olm ''b'' (sample_key 2))
     \<lparr>pk_device_id = ''a'', pk_identity = identity_public_key sample_crypto (sample_key 1),
      pk_curve25519 = replicate 32 1, pk_fallback_key = replicate 32 2, pk_fallback_key_id = ''k''\<rparr>"

definition sample_channel :: memory where
  "sample_channel = fst (memory_open memory_new ''q'')"

lemma sample_contact_laws: "olm_encodings sample_contact" "olm_total sample_contact"
  using sample_olm_encodings sample_olm_total
  by (simp_all add: sample_contact_def olm_encodings_def olm_total_def)

lemma sample_in_step:
  "in_step sample_contact (\<lambda>ses acc held. ses = ''out'') sample_peered ''b'' sample_receiver ''a''"
proof -
  have "keeps_step sample_contact k (\<lambda>ses acc held. ses = ''out'')" for k
    by (auto simp: keeps_step_def sample_contact_def sample_olm_def)
  then show ?thesis
    by (simp add: in_step_def sample_peered_def sample_receiver_def learn_peer_def session_create_def)
      (simp add: sample_contact_def sample_olm_def)
qed

lemma sample_channel_open: "memory_view sample_channel ''q'' = Live []"
  by (simp add: sample_channel_def memory_open_def memory_new_def memory_view_def)

lemma sample_outbox_due: "due_entries sample_outbox sample_now 5 = ox_entries sample_outbox"
  by (simp add: due_entries_def live_entries_def due_indices_def sample_outbox_eq new_entry_def sample_request_def
      expired_at_def epoch_seconds_def sample_now_def drain_key_def upt_rec)

text \<open>An envelope to send, and a codec that knows it.\<close>

definition sample_envelope :: envelope where
  "sample_envelope = \<lparr>en_v = envelope_version, en_id = ''m'', en_seq = 1, en_message_type = MtBattery,
     en_sent = ''2026-01-01T00:00:00Z'', en_sender = ''a'', en_body = JObject []\<rparr>"

definition sample_to_vec :: "envelope \<Rightarrow> string + bytes" where
  "sample_to_vec e = (if e = sample_envelope then Inr [7] else Inl ''not this one'')"

definition sample_from_slice :: "bytes \<Rightarrow> string + envelope" where
  "sample_from_slice b = (if b = [7] then Inr sample_envelope else Inl ''not this one'')"

lemma sample_reads_envelopes: "reads_envelopes sample_to_vec sample_from_slice"
  by (simp add: reads_envelopes_def sample_to_vec_def sample_from_slice_def)

lemma sample_sendable: "sendable ''a'' sample_envelope"
proof -
  have "is_rfc3339 ''2026-01-01T00:00:00Z''" by code_simp
  then show ?thesis
    by (simp add: sendable_def sample_envelope_def validate_envelope_def is_object_def mt_known_reads_back
        mt_is_known_def)
qed

lemma sample_outbox_envelopes:
  "list_all2 (\<lambda>q e. sendable ''a'' e \<and> encode_envelope sample_to_vec e = Inr (oe_plaintext q))
     (filter (\<lambda>e. oe_channel e = ''q'') (due_entries sample_outbox sample_now 5)) [sample_envelope, sample_envelope]"
  unfolding sample_outbox_due
  by (simp add: sample_outbox_eq new_entry_def sample_request_def sample_sendable encode_envelope_def sample_to_vec_def)

lemma sample_due_ready:
  assumes "e \<in> set (due_entries sample_outbox sample_now 5)"
  shows "(\<exists>ms. memory_view sample_channel (oe_channel e) = Live ms) \<and> knows sample_peered (oe_peer e)
    \<and> (oe_channel e = ''q'' \<longleftrightarrow> oe_peer e = ''b'')"
proof -
  have e: "e \<in> set (ox_entries sample_outbox)" using assms unfolding sample_outbox_due .
  then have "oe_channel e = ''q''" and "oe_peer e = ''b''"
    by (auto simp: sample_outbox_eq new_entry_def sample_request_def)
  with sample_outbox_ready [OF e] sample_channel_open show ?thesis by simp
qed

end
