(* ===== verification/Text.thy ===== *)
theory Text
  imports Prelude
begin

text \<open>
  What the code uses of the standard library's text functions, on strings as UTF-8 bytes:
  \<^verbatim>\<open>trim\<close>, \<^verbatim>\<open>strip_prefix\<close>, \<^verbatim>\<open>split_once\<close>, \<^verbatim>\<open>to_ascii_lowercase\<close> and the parser of IP
  literals behind \<^verbatim>\<open>parse::<IpAddr>()\<close>.
\<close>

section \<open>Trimming\<close>

text \<open>The UTF-8 encodings of the characters with the Unicode property \<^verbatim>\<open>White_Space\<close>.\<close>

definition white_space :: "string list" where
  "white_space =
     [[CHR 0x09], [CHR 0x0A], [CHR 0x0B], [CHR 0x0C], [CHR 0x0D], [CHR 0x20],
      [CHR 0xC2, CHR 0x85], [CHR 0xC2, CHR 0xA0], [CHR 0xE1, CHR 0x9A, CHR 0x80],
      [CHR 0xE2, CHR 0x80, CHR 0x80], [CHR 0xE2, CHR 0x80, CHR 0x81], [CHR 0xE2, CHR 0x80, CHR 0x82],
      [CHR 0xE2, CHR 0x80, CHR 0x83], [CHR 0xE2, CHR 0x80, CHR 0x84], [CHR 0xE2, CHR 0x80, CHR 0x85],
      [CHR 0xE2, CHR 0x80, CHR 0x86], [CHR 0xE2, CHR 0x80, CHR 0x87], [CHR 0xE2, CHR 0x80, CHR 0x88],
      [CHR 0xE2, CHR 0x80, CHR 0x89], [CHR 0xE2, CHR 0x80, CHR 0x8A], [CHR 0xE2, CHR 0x80, CHR 0xA8],
      [CHR 0xE2, CHR 0x80, CHR 0xA9], [CHR 0xE2, CHR 0x80, CHR 0xAF], [CHR 0xE2, CHR 0x81, CHR 0x9F],
      [CHR 0xE3, CHR 0x80, CHR 0x80]]"

definition head_in :: "string list \<Rightarrow> string \<Rightarrow> string option" where
  "head_in ws s = find (\<lambda>w. w \<noteq> [] \<and> take (length w) s = w) ws"

lemma head_in_SomeD: "head_in ws s = Some w \<Longrightarrow> w \<in> set ws \<and> w \<noteq> [] \<and> s = w @ drop (length w) s"
  by (auto simp: head_in_def find_Some_iff) (metis append_take_drop_id)

lemma head_in_shorter:
  assumes "head_in ws s = Some w"
  shows "length (drop (length w) s) < length s"
proof -
  have "w \<noteq> []" and "s = w @ drop (length w) s" using head_in_SomeD [OF assms] by auto
  then have "0 < length w" and "length s = length w + length (drop (length w) s)"
    by (simp, metis length_append)
  then show ?thesis by linarith
qed

function strip_heads :: "string list \<Rightarrow> string \<Rightarrow> string" where
  "strip_heads ws s =
     (case head_in ws s of None \<Rightarrow> s | Some w \<Rightarrow> strip_heads ws (drop (length w) s))"
  by auto

termination
  by (relation "measure (length \<circ> snd)") (simp_all add: head_in_shorter del: length_drop)

declare strip_heads.simps [simp del]

definition trim_start :: "string \<Rightarrow> string" where
  "trim_start s = strip_heads white_space s"

definition trim_end :: "string \<Rightarrow> string" where
  "trim_end s = rev (strip_heads (map rev white_space) (rev s))"

definition trim :: "string \<Rightarrow> string" where
  "trim s = trim_end (trim_start s)"

lemma strip_heads_length: "length (strip_heads ws s) \<le> length s"
proof (induction ws s rule: strip_heads.induct)
  case (1 ws s)
  then show ?case
    by (subst strip_heads.simps) (fastforce split: option.split)
qed

lemma strip_heads_id: "strip_heads ws s = s \<longleftrightarrow> head_in ws s = None"
proof (cases "head_in ws s")
  case (Some w)
  have "length (strip_heads ws (drop (length w) s)) < length s"
    by (rule le_less_trans [OF strip_heads_length head_in_shorter [OF Some]])
  then have "strip_heads ws (drop (length w) s) \<noteq> s" by auto
  with Some show ?thesis by (subst strip_heads.simps) simp
qed (simp add: strip_heads.simps)

lemma strip_heads_suffix: "\<exists>u. s = u @ strip_heads ws s"
proof (induction ws s rule: strip_heads.induct)
  case (1 ws s)
  show ?case
  proof (cases "head_in ws s")
    case (Some w)
    with 1 obtain u where "drop (length w) s = u @ strip_heads ws s"
      using strip_heads.simps [of ws s] by auto
    then have "s = (w @ u) @ strip_heads ws s" using head_in_SomeD [OF Some] by simp
    then show ?thesis by blast
  qed (simp add: strip_heads.simps)
qed

lemma trim_start_suffix: "\<exists>u. s = u @ trim_start s"
  unfolding trim_start_def by (rule strip_heads_suffix)

lemma trim_end_prefix: "\<exists>v. s = trim_end s @ v"
proof -
  obtain u where "rev s = u @ strip_heads (map rev white_space) (rev s)"
    using strip_heads_suffix by blast
  then have "s = trim_end s @ rev u" unfolding trim_end_def by (metis rev_append rev_rev_ident)
  then show ?thesis by blast
qed

lemma trim_infix: "\<exists>u v. s = u @ trim s @ v"
  unfolding trim_def by (metis trim_start_suffix trim_end_prefix)

lemma set_trim: "set (trim s) \<subseteq> set s"
  using trim_infix [of s] by (metis Un_upper1 Un_upper2 order_trans set_append)

lemma trim_shorter: "trim s \<noteq> s \<Longrightarrow> length (trim s) < length s"
proof -
  assume ne: "trim s \<noteq> s"
  obtain u v where s: "s = u @ trim s @ v" using trim_infix by blast
  then have "length s = length u + length (trim s) + length v" by (metis add.assoc length_append)
  moreover have "u \<noteq> [] \<or> v \<noteq> []" using s ne by auto
  then have "0 < length u + length v" by auto
  ultimately show ?thesis by linarith
qed

text \<open>A byte that no white space begins or ends with stops the trimming.\<close>

lemma head_in_hd: "\<forall>w\<in>set ws. hd w \<noteq> c \<Longrightarrow> head_in ws (c # s) = None"
  by (auto simp: head_in_def find_None_iff neq_Nil_conv)

lemma head_in_append:
  assumes "s \<noteq> []" and "\<forall>w\<in>set ws. c \<notin> set w"
  shows "head_in ws (s @ c # t) = head_in ws s"
proof -
  have "take (length w) (s @ c # t) = w \<longleftrightarrow> take (length w) s = w" if "w \<in> set ws" for w
  proof (cases "length w \<le> length s")
    case False
    then obtain k where "length w - length s = Suc k" by (metis Suc_diff_Suc not_le)
    then have "c \<in> set (take (length w) (s @ c # t))" using False by simp
    moreover have "take (length w) s \<noteq> w" using False by (metis length_take min.cobounded1)
    ultimately show ?thesis using assms(2) that by metis
  qed simp
  then show ?thesis unfolding head_in_def by (intro find_cong) auto
qed

lemma trim_start_stops: "\<forall>w\<in>set white_space. hd w \<noteq> c \<Longrightarrow> trim_start (c # s) = c # s"
  unfolding trim_start_def strip_heads_id by (rule head_in_hd)

lemma trim_end_id: "trim_end s = s \<longleftrightarrow> head_in (map rev white_space) (rev s) = None"
  unfolding trim_end_def by (metis rev_rev_ident strip_heads_id)

lemma trim_end_stops:
  assumes "\<forall>w\<in>set white_space. last w \<noteq> c"
  shows "trim_end (s @ [c]) = s @ [c]"
proof -
  have "\<forall>w\<in>set (map rev white_space). hd w \<noteq> c"
    using assms by (simp add: hd_rev white_space_def)
  then show ?thesis by (simp add: trim_end_id head_in_hd)
qed

lemma trim_end_append:
  assumes "h \<noteq> []" and "\<forall>w\<in>set white_space. c \<notin> set w"
  shows "trim_end (s @ c # h) = s @ c # h \<longleftrightarrow> trim_end h = h"
  using assms head_in_append [of "rev h" "map rev white_space" c "rev s"] by (simp add: trim_end_id)

lemma trim_end_longer: "trim_end s \<noteq> s \<Longrightarrow> length (trim_end s) < length s"
  by (metis trim_end_prefix append.right_neutral le_neq_implies_less length_append
      length_0_conv add_cancel_left_right le_add1)

lemma digit_not_space:
  "is_ascii_digit c \<Longrightarrow> w \<in> set white_space \<Longrightarrow> last w \<noteq> c"
  by (auto dest!: ascii_digit_code simp: white_space_def)

section \<open>Splitting and case\<close>

definition strip_prefix :: "string \<Rightarrow> string \<Rightarrow> string option" where
  "strip_prefix p s = (if take (length p) s = p then Some (drop (length p) s) else None)"

lemma strip_prefix_Some [simp]: "strip_prefix p (p @ s) = Some s"
  by (simp add: strip_prefix_def)

lemma strip_prefix_iff: "strip_prefix p s = Some r \<longleftrightarrow> s = p @ r"
  by (auto simp: strip_prefix_def) (metis append_take_drop_id)

definition starts_with :: "string \<Rightarrow> string \<Rightarrow> bool" where
  "starts_with p s \<longleftrightarrow> strip_prefix p s \<noteq> None"

lemma starts_with_char [simp]: "starts_with [c] (d # s) \<longleftrightarrow> d = c" "\<not> starts_with [c] []"
  by (auto simp: starts_with_def strip_prefix_def)

definition split_once :: "char \<Rightarrow> string \<Rightarrow> (string \<times> string) option" where
  "split_once c s =
     (if c \<in> set s then Some (takeWhile (\<lambda>d. d \<noteq> c) s, tl (dropWhile (\<lambda>d. d \<noteq> c) s)) else None)"

lemma split_once_append [simp]: "c \<notin> set a \<Longrightarrow> split_once c (a @ c # b) = Some (a, b)"
  by (induction a) (auto simp: split_once_def)

lemma split_once_None [simp]: "split_once c s = None \<longleftrightarrow> c \<notin> set s"
  by (simp add: split_once_def)

lemma split_once_Some: "split_once c s = Some (a, b) \<longleftrightarrow> s = a @ c # b \<and> c \<notin> set a"
proof
  assume "split_once c s = Some (a, b)"
  then have c: "c \<in> set s" and a: "a = takeWhile (\<lambda>d. d \<noteq> c) s"
    and b: "b = tl (dropWhile (\<lambda>d. d \<noteq> c) s)"
    by (auto simp: split_once_def split: if_splits)
  from c have "dropWhile (\<lambda>d. d \<noteq> c) s \<noteq> []" by (simp add: dropWhile_eq_Nil_conv)
  then have "dropWhile (\<lambda>d. d \<noteq> c) s = c # b" using hd_dropWhile [of "\<lambda>d. d \<noteq> c" s] b
    by (metis list.collapse)
  then have "s = a @ c # b" using takeWhile_dropWhile_id [of "\<lambda>d. d \<noteq> c" s] a by simp
  moreover have "c \<notin> set a" using a set_takeWhileD by fastforce
  ultimately show "s = a @ c # b \<and> c \<notin> set a" by blast
qed auto

definition ascii_lower :: "char \<Rightarrow> char" where
  "ascii_lower c = (if CHR ''A'' \<le> c \<and> c \<le> CHR ''Z'' then char_of (of_char c + (32 :: nat)) else c)"

definition to_ascii_lowercase :: "string \<Rightarrow> string" where
  "to_ascii_lowercase s = map ascii_lower s"

lemma length_lowercase [simp]: "length (to_ascii_lowercase s) = length s"
  by (simp add: to_ascii_lowercase_def)

section \<open>Lossy UTF-8\<close>

text \<open>
  \<^verbatim>\<open>String::from_utf8_lossy\<close>: well-formed characters are kept, and every maximal run of bytes
  that starts one and breaks off becomes U+FFFD. The step gives the length of the next chunk and
  whether it is a character.
\<close>

definition is_cont :: "bytes \<Rightarrow> nat \<Rightarrow> bool" where
  "is_cont bs i \<longleftrightarrow> i < length bs \<and> 0x80 \<le> bs ! i \<and> bs ! i \<le> 0xBF"

definition second_ok :: "bytes \<Rightarrow> bool" where
  "second_ok bs \<longleftrightarrow> is_cont bs 1 \<and>
     (if bs ! 0 = 0xE0 then 0xA0 \<le> bs ! 1
      else if bs ! 0 = 0xED then bs ! 1 \<le> 0x9F
      else if bs ! 0 = 0xF0 then 0x90 \<le> bs ! 1
      else if bs ! 0 = 0xF4 then bs ! 1 \<le> 0x8F
      else True)"

definition utf8_step :: "bytes \<Rightarrow> nat \<times> bool" where
  "utf8_step bs =
     (let b = bs ! 0 in
      if b < 0x80 then (1, True)
      else if 0xC2 \<le> b \<and> b \<le> 0xDF then (if second_ok bs then (2, True) else (1, False))
      else if 0xE0 \<le> b \<and> b \<le> 0xEF then
        (if \<not> second_ok bs then (1, False)
         else if \<not> is_cont bs 2 then (2, False) else (3, True))
      else if 0xF0 \<le> b \<and> b \<le> 0xF4 then
        (if \<not> second_ok bs then (1, False)
         else if \<not> is_cont bs 2 then (2, False)
         else if \<not> is_cont bs 3 then (3, False) else (4, True))
      else (1, False))"

lemma utf8_step_pos: "0 < fst (utf8_step bs)"
  by (simp add: utf8_step_def Let_def)

function from_utf8_lossy :: "bytes \<Rightarrow> string" where
  "from_utf8_lossy bs =
     (if bs = [] then []
      else (case utf8_step bs of (n, ok) \<Rightarrow>
        (if ok then map (\<lambda>b. char_of (unat b)) (take n bs) else [CHR 0xEF, CHR 0xBF, CHR 0xBD])
          @ from_utf8_lossy (drop n bs)))"
  by auto

termination
proof (relation "measure length")
  fix bs :: bytes and n :: nat and ok :: bool
  assume "bs \<noteq> []" and "(n, ok) = utf8_step bs"
  then have "0 < n" using utf8_step_pos [of bs] by (metis fst_conv)
  with \<open>bs \<noteq> []\<close> show "(drop n bs, bs) \<in> measure length" by simp
qed simp

declare from_utf8_lossy.simps [simp del]

lemma from_utf8_lossy_ascii:
  assumes "list_all (\<lambda>c. (of_char c :: nat) < 128) s"
  shows "from_utf8_lossy (utf8 s) = s"
  using assms
proof (induction s)
  case (Cons c s)
  have u: "unat (of_char c :: u8) = of_char c"
  proof -
    have "(of_char c :: u8) = word_of_nat (of_char c)" by (simp add: of_nat_of_char)
    then show ?thesis using of_char_less_256 [of c] by (simp add: unat_of_nat)
  qed
  then have "(of_char c :: u8) < 0x80" using Cons.prems by (simp add: word_less_nat_alt)
  then have "utf8_step (utf8 (c # s)) = (1, True)" by (simp add: utf8_step_def Let_def)
  moreover have "char_of (unat (of_char c :: u8)) = c" by (simp add: u)
  ultimately show ?case using Cons by (subst from_utf8_lossy.simps) simp
qed (simp add: from_utf8_lossy.simps)

section \<open>IP literals\<close>

text \<open>
  The parser reads from the front and leaves the rest. Only whether a literal parses matters to
  the code, so a reader returns the text it leaves. A number reads every digit that follows and
  fails when there are more than \<^verbatim>\<open>max\<close>.
\<close>

definition radix_digit :: "nat \<Rightarrow> char \<Rightarrow> nat option" where
  "radix_digit radix c =
     (let n = of_char c :: nat;
          v = (if 48 \<le> n \<and> n \<le> 57 then n - 48 else if 97 \<le> n \<and> n \<le> 122 then n - 87
               else if 65 \<le> n \<and> n \<le> 90 then n - 55 else radix)
      in if v < radix then Some v else None)"

definition read_number :: "nat \<Rightarrow> nat \<Rightarrow> bool \<Rightarrow> nat \<Rightarrow> string \<Rightarrow> string option" where
  "read_number radix max_digits allow_zero_prefix bound s =
     (let ds = takeWhile (\<lambda>c. radix_digit radix c \<noteq> None) s;
          v = foldl (\<lambda>n c. n * radix + the (radix_digit radix c)) 0 ds
      in if ds = [] \<or> length ds > max_digits then None
         else if \<not> allow_zero_prefix \<and> hd ds = CHR ''0'' \<and> length ds > 1 then None
         else if v > bound then None else Some (drop (length ds) s))"

definition read_separator :: "char \<Rightarrow> nat \<Rightarrow> (string \<Rightarrow> string option) \<Rightarrow> string \<Rightarrow> string option" where
  "read_separator sep i inner s =
     (if i = 0 then inner s
      else (case s of [] \<Rightarrow> None | c # r \<Rightarrow> if c = sep then inner r else None))"

fun read_octets :: "nat \<Rightarrow> nat \<Rightarrow> string \<Rightarrow> string option" where
  "read_octets i 0 s = Some s"
| "read_octets i (Suc n) s =
     (case read_separator (CHR ''.'') i (read_number 10 3 False 255) s of
        None \<Rightarrow> None | Some r \<Rightarrow> read_octets (Suc i) n r)"

definition read_ipv4 :: "string \<Rightarrow> string option" where
  "read_ipv4 s = read_octets 0 4 s"

text \<open>
  \<^verbatim>\<open>read_groups\<close> from group \<^verbatim>\<open>i\<close> with \<^verbatim>\<open>n\<close> groups left: how many groups it filled, whether
  the last two came from an embedded IPv4 address, and the rest.
\<close>

fun read_groups :: "nat \<Rightarrow> nat \<Rightarrow> string \<Rightarrow> nat \<times> bool \<times> string" where
  "read_groups i 0 s = (i, False, s)"
| "read_groups i (Suc n) s =
     (case (if n > 0 then read_separator (CHR '':'') i read_ipv4 s else None) of
        Some r \<Rightarrow> (i + 2, True, r)
      | None \<Rightarrow>
          (case read_separator (CHR '':'') i (read_number 16 4 True 65535) s of
             None \<Rightarrow> (i, False, s)
           | Some r \<Rightarrow> read_groups (Suc i) n r))"

definition read_ipv6 :: "string \<Rightarrow> string option" where
  "read_ipv6 s =
     (case read_groups 0 8 s of
        (head_size, head_ipv4, r) \<Rightarrow>
          if head_size = 8 then Some r
          else if head_ipv4 then None
          else (case strip_prefix ''::'' r of
                  None \<Rightarrow> None
                | Some t \<Rightarrow> Some (snd (snd (read_groups 0 (8 - (head_size + 1)) t)))))"

definition is_ip :: "string \<Rightarrow> bool" where
  "is_ip s =
     (case read_ipv4 s of
        Some r \<Rightarrow> r = []
      | None \<Rightarrow> (case read_ipv6 s of Some r \<Rightarrow> r = [] | None \<Rightarrow> False))"

lemma read_octets_numeral [simp]:
  "read_octets i (numeral k) s =
     (case read_separator (CHR ''.'') i (read_number 10 3 False 255) s of
        None \<Rightarrow> None | Some r \<Rightarrow> read_octets (Suc i) (pred_numeral k) r)"
  by (simp add: numeral_eq_Suc)

lemma read_groups_numeral [simp]:
  "read_groups i (numeral k) s =
     (case (if pred_numeral k > 0 then read_separator (CHR '':'') i read_ipv4 s else None) of
        Some r \<Rightarrow> (i + 2, True, r)
      | None \<Rightarrow>
          (case read_separator (CHR '':'') i (read_number 16 4 True 65535) s of
             None \<Rightarrow> (i, False, s)
           | Some r \<Rightarrow> read_groups (Suc i) (pred_numeral k) r))"
  by (simp add: numeral_eq_Suc)

lemma read_number_head: "radix_digit radix c = None \<Longrightarrow> read_number radix m z b (c # s) = None"
  by (simp add: read_number_def)

lemma bracket_no_digit: "radix_digit 10 (CHR ''['') = None" "radix_digit 16 (CHR ''['') = None"
  by (simp_all add: radix_digit_def)

lemma is_ip_bracket: "\<not> is_ip (CHR ''['' # s)"
  by (simp add: is_ip_def read_ipv4_def read_ipv6_def read_separator_def read_number_head
      bracket_no_digit strip_prefix_def)

lemma is_ip_examples:
  "is_ip ''127.0.0.1''" "is_ip ''::1''" "\<not> is_ip ''127.0.0.01''" "\<not> is_ip ''beacon.example''"
  by (simp_all add: is_ip_def read_ipv4_def read_ipv6_def read_separator_def read_number_def
      radix_digit_def Let_def strip_prefix_def)

end
