(* ===== verification/Address.thy ===== *)
theory Address
  imports Text
begin

text \<open>
  Server addresses (\<^verbatim>\<open>core/sund-client/src/address.rs\<close>): the two written forms, the trust mode
  each one fixes, parsing, the canonical rendering and the origin. The \<^verbatim>\<open>[u8; 32]\<close> of a pin is
  a byte list that the parser makes 32 long.
\<close>

section \<open>The data\<close>

datatype trust_mode = Pinned bytes | WebPki

record server_address =
  sa_mode :: trust_mode
  sa_host :: string
  sa_port :: u16

datatype address_error =
    AeUnknownScheme
  | AeInvalidHost
  | AeInvalidPort
  | AeInvalidFingerprint
  | AeUnexpectedFingerprint
  | AeIpLiteralNotAllowed
  | AeTrailingGarbage

definition display_address_error :: "address_error \<Rightarrow> string" where
  "display_address_error e = (case e of
     AeUnknownScheme \<Rightarrow> ''not a sund:// or sund+webpki:// address''
   | AeInvalidHost \<Rightarrow> ''invalid host''
   | AeInvalidPort \<Rightarrow> ''missing or invalid port''
   | AeInvalidFingerprint \<Rightarrow> ''a sund:// address needs a #fingerprint of 64 lowercase hex characters''
   | AeUnexpectedFingerprint \<Rightarrow> ''a sund+webpki:// address must not carry a fragment''
   | AeIpLiteralNotAllowed \<Rightarrow> ''a sund+webpki:// address must name a host, not an IP''
   | AeTrailingGarbage \<Rightarrow> ''a server address is a host and port, nothing more'')"

definition webpki_default_port :: u16 where
  "webpki_default_port = 443"

definition pinned_scheme :: string where
  "pinned_scheme = ''sund://''"

definition webpki_scheme :: string where
  "webpki_scheme = ''sund+webpki://''"

section \<open>Parsing\<close>

text \<open>\<^verbatim>\<open>parse::<u16>()\<close>.\<close>

definition parse_u16 :: "string \<Rightarrow> u16 option" where
  "parse_u16 s = map_option word_of_int (parse_unsigned 65535 s)"

text \<open>\<^verbatim>\<open>split_authority\<close>: the host and the text of the port, then the port's number.\<close>

definition authority_parts :: "string \<Rightarrow> address_error + (string \<times> string option)" where
  "authority_parts authority =
     (case strip_prefix ''['' authority of
        Some rest \<Rightarrow>
          (case split_once (CHR '']'') rest of
             None \<Rightarrow> Inl AeInvalidHost
           | Some (host, after) \<Rightarrow>
               if \<not> is_ip host then Inl AeInvalidHost
               else if after = [] then Inr (host, None)
               else rbind (ok_or AeInvalidPort (strip_prefix '':'' after))
                      (\<lambda>port. Inr (host, Some port)))
      | None \<Rightarrow>
          (case split_once (CHR '':'') authority of
             Some (host, port) \<Rightarrow> Inr (host, Some port)
           | None \<Rightarrow> Inr (authority, None)))"

definition authority_port :: "string option \<Rightarrow> address_error + u16 option" where
  "authority_port port_text =
     rbind (case port_text of
              Some text \<Rightarrow> rbind (ok_or AeInvalidPort (parse_u16 text)) (\<lambda>p. Inr (Some p))
            | None \<Rightarrow> Inr None)
       (\<lambda>port. if port = Some 0 then Inl AeInvalidPort else Inr port)"

definition split_authority :: "string \<Rightarrow> address_error + (string \<times> u16 option)" where
  "split_authority authority =
     (if authority = [] then Inl AeInvalidHost
      else if CHR ''/'' \<in> set authority \<or> CHR ''?'' \<in> set authority \<or> CHR ''@'' \<in> set authority
      then Inl AeTrailingGarbage
      else rbind (authority_parts authority) (\<lambda>(host, port_text).
        if host = [] \<or> CHR '':'' \<in> set host \<and> \<not> is_ip host then Inl AeInvalidHost
        else rbind (authority_port port_text) (\<lambda>port. Inr (host, port))))"

definition hex_value :: "char \<Rightarrow> u8 option" where
  "hex_value b =
     (if CHR ''0'' \<le> b \<and> b \<le> CHR ''9'' then Some (of_char b - 48)
      else if CHR ''a'' \<le> b \<and> b \<le> CHR ''f'' then Some (of_char b - 97 + 10)
      else None)"

text \<open>The loop over the 32 slots, two characters each.\<close>

fun hex_pairs :: "string \<Rightarrow> bytes option" where
  "hex_pairs (h # l # s) =
     (case hex_value h of None \<Rightarrow> None | Some hi \<Rightarrow>
      (case hex_value l of None \<Rightarrow> None | Some lo \<Rightarrow>
       (case hex_pairs s of None \<Rightarrow> None | Some out \<Rightarrow> Some ((or (push_bit 4 hi) lo) # out))))"
| "hex_pairs s = Some []"

definition parse_fingerprint :: "string \<Rightarrow> address_error + bytes" where
  "parse_fingerprint fragment =
     (if length fragment \<noteq> 64 then Inl AeInvalidFingerprint
      else ok_or AeInvalidFingerprint (hex_pairs fragment))"

definition parse_pinned :: "string \<Rightarrow> address_error + server_address" where
  "parse_pinned rest =
     (case split_once (CHR ''#'') rest of
        None \<Rightarrow> Inl AeInvalidFingerprint
      | Some (authority, fragment) \<Rightarrow>
          rbind (parse_fingerprint fragment) (\<lambda>fingerprint.
          rbind (split_authority authority) (\<lambda>(host, port).
          rbind (ok_or AeInvalidPort port) (\<lambda>port.
            Inr \<lparr>sa_mode = Pinned fingerprint, sa_host = host, sa_port = port\<rparr>))))"

definition parse_webpki :: "string \<Rightarrow> address_error + server_address" where
  "parse_webpki rest =
     (if CHR ''#'' \<in> set rest then Inl AeUnexpectedFingerprint
      else rbind (split_authority rest) (\<lambda>(host, port).
        if is_ip host \<or> starts_with ''['' host then Inl AeIpLiteralNotAllowed
        else Inr \<lparr>sa_mode = WebPki, sa_host = host,
                  sa_port = (case port of Some p \<Rightarrow> p | None \<Rightarrow> webpki_default_port)\<rparr>))"

definition parse_address :: "string \<Rightarrow> address_error + server_address" where
  "parse_address input =
     (let trimmed = trim input; lowered = to_ascii_lowercase trimmed
      in case strip_prefix webpki_scheme lowered of
           Some rest \<Rightarrow> parse_webpki (drop (length trimmed - length rest) trimmed)
         | None \<Rightarrow>
             (case strip_prefix pinned_scheme lowered of
                Some rest \<Rightarrow> parse_pinned (drop (length trimmed - length rest) trimmed)
              | None \<Rightarrow> Inl AeUnknownScheme))"

section \<open>Rendering\<close>

definition render_host :: "string \<Rightarrow> string" where
  "render_host host =
     (if CHR '':'' \<in> set host \<and> \<not> starts_with ''['' host then ''['' @ host @ '']'' else host)"

definition origin :: "server_address \<Rightarrow> string" where
  "origin a = ''https://'' @ render_host (sa_host a) @ '':'' @ dec_digits (unat (sa_port a))"

definition display_address :: "server_address \<Rightarrow> string" where
  "display_address a =
     (case sa_mode a of
        Pinned fingerprint \<Rightarrow>
          pinned_scheme @ render_host (sa_host a) @ '':'' @ dec_digits (unat (sa_port a)) @ ''#''
            @ hex_lower fingerprint
      | WebPki \<Rightarrow>
          if sa_port a = webpki_default_port then webpki_scheme @ render_host (sa_host a)
          else webpki_scheme @ render_host (sa_host a) @ '':'' @ dec_digits (unat (sa_port a)))"

section \<open>Fingerprints\<close>

lemma len8: "LENGTH(8) = 8"
  by simp

lemma hex_value_digit:
  assumes "d < 16"
  shows "hex_value (hex_digit d) = Some (of_nat d)"
proof -
  have "(of_char (hex_digit d) :: nat) = (if d < 10 then 48 + d else 87 + d)"
    using assms by (simp add: hex_digit_def)
  moreover have "(of_char c :: u8) = of_nat (of_char c)" for c by (simp add: of_nat_of_char)
  ultimately show ?thesis
    using assms by (auto simp: hex_value_def less_eq_char_def)
qed

lemma hex_value_SomeD:
  assumes "hex_value c = Some v"
  shows "unat v < 16 \<and> hex_digit (unat v) = c"
proof -
  define n where "n = (of_char c :: nat)"
  have c: "c = char_of n" and v: "(of_char c :: u8) = of_nat n"
    by (simp_all add: n_def of_nat_of_char)
  have "n < 256" unfolding n_def by (rule of_char_less_256)
  have range: "(48 \<le> n \<and> n \<le> 57 \<and> v = of_nat n - 48) \<or> (97 \<le> n \<and> n \<le> 102 \<and> v = of_nat n - 97 + 10)"
    using assms v by (auto simp: hex_value_def less_eq_char_def n_def split: if_splits)
  then show ?thesis
  proof
    assume *: "48 \<le> n \<and> n \<le> 57 \<and> v = of_nat n - 48"
    then have "v = of_nat (n - 48)" by (simp add: of_nat_diff)
    then have "unat v = (n - 48) mod 2 ^ 8" by (simp only: unat_of_nat len8)
    moreover have "n - 48 < 2 ^ 8" using * by auto
    ultimately have "unat v = n - 48" by (simp only: mod_less)
    then show ?thesis using * c by (auto simp: hex_digit_def)
  next
    assume *: "97 \<le> n \<and> n \<le> 102 \<and> v = of_nat n - 97 + 10"
    then have "v = of_nat (n - 87)" by (simp add: of_nat_diff)
    then have "unat v = (n - 87) mod 2 ^ 8" by (simp only: unat_of_nat len8)
    moreover have "n - 87 < 2 ^ 8" using * by auto
    ultimately have "unat v = n - 87" by (simp only: mod_less)
    then show ?thesis using * c by (auto simp: hex_digit_def)
  qed
qed

lemma nibbles_or:
  assumes "a < 16" and "b < 16"
  shows "or (push_bit 4 (of_nat a :: u8)) (of_nat b) = of_nat (16 * a + b)"
proof -
  have "a \<in> {0, 1, 2, 3, 4, 5, 6, 7, 8, 9, 10, 11, 12, 13, 14, 15}"
    and "b \<in> {0, 1, 2, 3, 4, 5, 6, 7, 8, 9, 10, 11, 12, 13, 14, 15}"
    using assms by (auto simp: eval_nat_numeral less_Suc_eq)
  then show ?thesis by auto
qed


lemma hex_pairs_render: "hex_pairs (hex_lower bs) = Some bs"
proof (induction bs)
  case (Cons b bs)
  have b: "unat b div 16 < 16" "unat b mod 16 < 16" using unat_u8_bound [of b] by simp_all
  have "or (push_bit 4 (of_nat (unat b div 16) :: u8)) (of_nat (unat b mod 16))
      = of_nat (16 * (unat b div 16) + unat b mod 16)"
    using b by (rule nibbles_or)
  also have "16 * (unat b div 16) + unat b mod 16 = unat b" by simp
  also have "of_nat (unat b) = b" by simp
  finally show ?case using Cons by (simp add: hex_byte_def hex_value_digit b)
qed simp

lemma hex_pairs_SomeD: "hex_pairs s = Some bs \<Longrightarrow> even (length s) \<Longrightarrow> hex_lower bs = s"
proof (induction s arbitrary: bs rule: hex_pairs.induct)
  case (1 h l s)
  then obtain hi lo out where v: "hex_value h = Some hi" "hex_value l = Some lo"
    and out: "hex_pairs s = Some out" and bs: "bs = or (push_bit 4 hi) lo # out"
    by (auto split: option.splits)
  note hi = hex_value_SomeD [OF v(1)] and lo = hex_value_SomeD [OF v(2)]
  have "or (push_bit 4 hi) lo = or (push_bit 4 (of_nat (unat hi))) (of_nat (unat lo))" by simp
  also have "\<dots> = of_nat (16 * unat hi + unat lo)" using hi lo by (intro nibbles_or) simp_all
  finally have "unat (or (push_bit 4 hi) lo) = (16 * unat hi + unat lo) mod 2 ^ 8"
    by (simp only: unat_of_nat len8)
  then have "unat (or (push_bit 4 hi) lo) = 16 * unat hi + unat lo" using hi lo by simp
  then have "hex_byte (or (push_bit 4 hi) lo) = [h, l]" using hi lo by (simp add: hex_byte_def)
  moreover have "hex_lower out = s" using "1.IH" [OF v out] "1.prems"(2) by simp
  ultimately show ?case by (simp add: bs)
qed auto

lemma parse_fingerprint_iff:
  "parse_fingerprint f = Inr bs \<longleftrightarrow> length bs = 32 \<and> f = hex_lower bs"
proof
  assume "parse_fingerprint f = Inr bs"
  then have l: "length f = 64" and h: "hex_pairs f = Some bs"
    by (auto simp: parse_fingerprint_def ok_or_def split: if_splits option.splits)
  then have "hex_lower bs = f" using hex_pairs_SomeD by simp
  with l show "length bs = 32 \<and> f = hex_lower bs" by auto
qed (simp add: parse_fingerprint_def hex_pairs_render)

lemma hex_lower_chars: "c \<in> set (hex_lower bs) \<Longrightarrow> \<exists>d < 16. c = hex_digit d"
proof (induction bs)
  case (Cons b bs)
  have "unat b div 16 < 16" "unat b mod 16 < 16" using unat_u8_bound [of b] by simp_all
  moreover have "c = hex_digit (unat b div 16) \<or> c = hex_digit (unat b mod 16) \<or> c \<in> set (hex_lower bs)"
    using Cons.prems by (simp add: hex_byte_def)
  ultimately show ?case using Cons.IH by blast
qed simp

lemma hex_digit_code:
  "d < 16 \<Longrightarrow> (of_char (hex_digit d) :: nat) = (if d < 10 then 48 + d else 87 + d)"
  by (simp add: hex_digit_def)

lemma hex_no_space:
  assumes "d < 16" and "w \<in> set white_space"
  shows "last w \<noteq> hex_digit d"
proof
  assume "last w = hex_digit d"
  then have "(of_char (last w) :: nat) = (if d < 10 then 48 + d else 87 + d)"
    using hex_digit_code [OF assms(1)] by simp
  moreover have "(of_char (last w) :: nat) < 48 \<or> 103 \<le> (of_char (last w) :: nat)"
    using assms(2) by (auto simp: white_space_def)
  ultimately show False using assms(1) by (auto split: if_splits)
qed


section \<open>What parsing accepts\<close>

definition plain :: "string \<Rightarrow> bool" where
  "plain s \<longleftrightarrow> (\<forall>c \<in> {CHR ''/'', CHR ''?'', CHR ''@''}. c \<notin> set s)"

text \<open>The hosts \<^verbatim>\<open>split_authority\<close> returns.\<close>

definition host_ok :: "string \<Rightarrow> bool" where
  "host_ok h \<longleftrightarrow> h \<noteq> [] \<and> plain h \<and> \<not> starts_with ''['' h \<and>
     (CHR '':'' \<in> set h \<longrightarrow> is_ip h \<and> CHR '']'' \<notin> set h)"

lemma is_ip_not_bracket: "is_ip h \<Longrightarrow> \<not> starts_with ''['' h"
  using is_ip_bracket by (cases h) auto

lemma parse_u16_digits: "parse_u16 (dec_digits (unat p)) = Some p"
proof -
  obtain c r where d: "dec_digits (unat p) = c # r" by (metis dec_digits_ne neq_Nil_conv)
  then have "is_ascii_digit c" using dec_digits_digit [of "unat p"] by simp
  then have "c \<noteq> CHR ''+''" using ascii_digit_not_sign by blast
  moreover have "digits_val (dec_digits (unat p)) \<le> 65535"
  proof -
    have "unat p < 2 ^ 16" using unsigned_less [of p] by simp
    then have "unat p \<le> 65535" by simp
    then have "int (unat p) \<le> 65535" by linarith
    then show ?thesis by (simp only: dec_digits_val)
  qed
  ultimately have "parse_unsigned 65535 (dec_digits (unat p)) = Some (int (unat p))"
    using d dec_digits_ne [of "unat p"] dec_digits_digit [of "unat p"]
    by (simp add: parse_unsigned_def Let_def dec_digits_val [symmetric])
  then show ?thesis by (simp add: parse_u16_def)
qed

lemma dec_digits_chars:
  "c \<in> set (dec_digits n) \<Longrightarrow> 48 \<le> (of_char c :: nat) \<and> (of_char c :: nat) \<le> 57"
  using dec_digits_digit [of n] by (auto simp: list_all_iff dest: ascii_digit_code)

lemma authority_parts_Inr:
  assumes "authority_parts au = Inr (h, t)" and "plain au" and "h \<noteq> []"
  shows "host_ok h \<and> set h \<subseteq> set au \<and> length h \<le> length au"
proof (cases "strip_prefix ''['' au")
  case (Some rest)
  with assms(1) obtain after where s: "split_once (CHR '']'') rest = Some (h, after)" and ip: "is_ip h"
    by (auto simp: authority_parts_def rbind_Inr_iff split: option.splits if_splits)
  then have "rest = h @ CHR '']'' # after" "CHR '']'' \<notin> set h" by (simp_all add: split_once_Some)
  moreover have "au = CHR ''['' # rest" using Some by (simp add: strip_prefix_iff)
  ultimately show ?thesis using assms(2,3) ip is_ip_not_bracket by (auto simp: host_ok_def plain_def)
next
  case b: None
  show ?thesis
  proof (cases "split_once (CHR '':'') au")
    case None
    with assms(1) b have "h = au" by (simp add: authority_parts_def)
    with assms b None show ?thesis by (simp add: host_ok_def starts_with_def)
  next
    case (Some x)
    with assms(1) b obtain t' where "x = (h, t')" by (cases x) (simp add: authority_parts_def)
    with Some have au: "au = h @ CHR '':'' # t'" "CHR '':'' \<notin> set h"
      by (simp_all add: split_once_Some)
    moreover have "\<not> starts_with ''['' h"
      using b au(1) assms(3) by (cases h) (auto simp: strip_prefix_def)
    ultimately show ?thesis using assms(2,3) by (auto simp: host_ok_def plain_def)
  qed
qed

lemma authority_port_Inr: "authority_port t = Inr p \<Longrightarrow> p \<noteq> Some 0"
  by (auto simp: authority_port_def rbind_Inr_iff split: if_splits)

lemma authority_port_None [simp]: "authority_port None = Inr None"
  by (simp add: authority_port_def)

lemma authority_port_digits [simp]:
  "p \<noteq> 0 \<Longrightarrow> authority_port (Some (dec_digits (unat p))) = Inr (Some p)"
  by (simp add: authority_port_def parse_u16_digits)

lemma split_authority_iff:
  "split_authority au = Inr (h, p) \<longleftrightarrow>
     (\<exists>t. au \<noteq> [] \<and> plain au \<and> authority_parts au = Inr (h, t) \<and> host_ok h \<and> authority_port t = Inr p)"
proof
  assume "split_authority au = Inr (h, p)"
  then obtain t where "au \<noteq> []" "plain au" and t: "authority_parts au = Inr (h, t)" and "h \<noteq> []"
    and "authority_port t = Inr p"
    by (auto simp: split_authority_def plain_def rbind_Inr_iff split: if_splits prod.splits)
  with authority_parts_Inr [OF t]
  show "\<exists>t. au \<noteq> [] \<and> plain au \<and> authority_parts au = Inr (h, t) \<and> host_ok h \<and> authority_port t = Inr p"
    by blast
next
  assume "\<exists>t. au \<noteq> [] \<and> plain au \<and> authority_parts au = Inr (h, t) \<and> host_ok h \<and> authority_port t = Inr p"
  then show "split_authority au = Inr (h, p)"
    by (auto simp: split_authority_def plain_def host_ok_def)
qed

lemma split_authority_with_port:
  assumes h: "host_ok h" and "p \<noteq> 0"
  shows "split_authority (render_host h @ '':'' @ dec_digits (unat p)) = Inr (h, Some p)"
proof -
  let ?d = "dec_digits (unat p)"
  have d: "plain ?d" using dec_digits_chars by (fastforce simp: plain_def)
  have "authority_parts (render_host h @ '':'' @ ?d) = Inr (h, Some ?d)"
  proof (cases "CHR '':'' \<in> set h")
    case True
    then have r: "render_host h = CHR ''['' # h @ '']''" using h
      by (simp add: render_host_def host_ok_def)
    have "split_once (CHR '']'') (h @ CHR '']'' # CHR '':'' # ?d) = Some (h, CHR '':'' # ?d)"
      using h True by (simp add: host_ok_def)
    then show ?thesis using h True unfolding r
      by (simp add: authority_parts_def host_ok_def strip_prefix_def)
  next
    case False
    then have r: "render_host h = h" by (simp add: render_host_def)
    have "strip_prefix ''['' (h @ CHR '':'' # ?d) = None"
      using h by (cases h) (auto simp: host_ok_def strip_prefix_def)
    then show ?thesis using False unfolding r by (simp add: authority_parts_def)
  qed
  moreover have "plain (render_host h @ '':'' @ ?d)"
    using h d by (auto simp: plain_def host_ok_def render_host_def)
  ultimately show ?thesis using h assms(2) by (auto simp: split_authority_iff)
qed

lemma split_authority_bare:
  assumes "host_ok h" and "CHR '':'' \<notin> set h"
  shows "split_authority h = Inr (h, None)"
proof -
  have "strip_prefix ''['' h = None" using assms(1) by (simp add: host_ok_def starts_with_def)
  then have "authority_parts h = Inr (h, None)"
    using assms(2) split_once_None [of "CHR '':''" h] by (simp add: authority_parts_def del: split_once_None)
  then show ?thesis using assms by (auto simp: split_authority_iff host_ok_def)
qed


section \<open>The stated mode\<close>

lemma parse_pinned_iff:
  "parse_pinned rest = Inr a \<longleftrightarrow>
     (\<exists>au bs h p. rest = au @ CHR ''#'' # hex_lower bs \<and> CHR ''#'' \<notin> set au \<and> length bs = 32
        \<and> split_authority au = Inr (h, Some p) \<and> a = \<lparr>sa_mode = Pinned bs, sa_host = h, sa_port = p\<rparr>)"
  (is "?l \<longleftrightarrow> ?r")
proof
  assume ?l
  then obtain au f where s: "split_once (CHR ''#'') rest = Some (au, f)"
    by (auto simp: parse_pinned_def split: option.splits)
  with \<open>?l\<close> obtain bs h p where "parse_fingerprint f = Inr bs" "split_authority au = Inr (h, Some p)"
    "a = \<lparr>sa_mode = Pinned bs, sa_host = h, sa_port = p\<rparr>"
    by (auto simp: parse_pinned_def rbind_Inr_iff ok_or_def split: option.splits)
  with s show ?r by (auto simp: parse_fingerprint_iff split_once_Some)
next
  assume ?r
  then show ?l by (auto simp: parse_pinned_def parse_fingerprint_iff [THEN iffD2])
qed

lemma parse_pinnedI:
  "CHR ''#'' \<notin> set au \<Longrightarrow> length bs = 32 \<Longrightarrow> split_authority au = Inr (h, Some p) \<Longrightarrow>
     parse_pinned (au @ ''#'' @ hex_lower bs) = Inr \<lparr>sa_mode = Pinned bs, sa_host = h, sa_port = p\<rparr>"
  by (auto simp: parse_pinned_iff)

lemma parse_webpki_iff:
  "parse_webpki rest = Inr a \<longleftrightarrow>
     (\<exists>h p. CHR ''#'' \<notin> set rest \<and> split_authority rest = Inr (h, p) \<and> \<not> is_ip h
        \<and> a = \<lparr>sa_mode = WebPki, sa_host = h,
               sa_port = (case p of Some p \<Rightarrow> p | None \<Rightarrow> webpki_default_port)\<rparr>)"
  by (fastforce simp: parse_webpki_def rbind_Inr_iff split_authority_iff host_ok_def split: if_splits)

lemma schemes_differ: "strip_prefix webpki_scheme s = Some r \<Longrightarrow> strip_prefix pinned_scheme s = None"
  by (simp add: strip_prefix_iff) (simp add: webpki_scheme_def pinned_scheme_def strip_prefix_def)

lemma parse_address_iff:
  "parse_address input = Inr a \<longleftrightarrow>
     (\<exists>rest. (to_ascii_lowercase (take 14 (trim input)) = webpki_scheme
                \<and> rest = drop 14 (trim input) \<and> parse_webpki rest = Inr a)
           \<or> (to_ascii_lowercase (take 7 (trim input)) = pinned_scheme
                \<and> rest = drop 7 (trim input) \<and> parse_pinned rest = Inr a))"
proof -
  define t where "t = trim input"
  have l: "length webpki_scheme = 14" "length pinned_scheme = 7"
    by (simp_all add: webpki_scheme_def pinned_scheme_def)
  have w: "strip_prefix webpki_scheme (to_ascii_lowercase t) =
      (if to_ascii_lowercase (take 14 t) = webpki_scheme then Some (to_ascii_lowercase (drop 14 t)) else None)"
    unfolding strip_prefix_def l by (simp add: to_ascii_lowercase_def take_map drop_map)
  have p: "strip_prefix pinned_scheme (to_ascii_lowercase t) =
      (if to_ascii_lowercase (take 7 t) = pinned_scheme then Some (to_ascii_lowercase (drop 7 t)) else None)"
    unfolding strip_prefix_def l by (simp add: to_ascii_lowercase_def take_map drop_map)
  have len: "length t - length (to_ascii_lowercase (drop n t)) = n" if "n \<le> length t" for n
    using that by simp
  have wl: "14 \<le> length t" if "to_ascii_lowercase (take 14 t) = webpki_scheme"
  proof -
    from that have "length (to_ascii_lowercase (take 14 t)) = 14" by (simp only: l)
    then show ?thesis by (simp add: min_def split: if_splits)
  qed
  have pl: "7 \<le> length t" if "to_ascii_lowercase (take 7 t) = pinned_scheme"
  proof -
    from that have "length (to_ascii_lowercase (take 7 t)) = 7" by (simp only: l)
    then show ?thesis by (simp add: min_def split: if_splits)
  qed
  show ?thesis
  proof (cases "to_ascii_lowercase (take 14 t) = webpki_scheme")
    case True
    then have "to_ascii_lowercase (take 7 t) \<noteq> pinned_scheme"
      using schemes_differ [of "to_ascii_lowercase t"] w p by (metis option.distinct(1) option.inject)
    then show ?thesis using True wl unfolding parse_address_def Let_def t_def [symmetric] w p
      by (simp add: len)
  next
    case False
    then show ?thesis using pl unfolding parse_address_def Let_def t_def [symmetric] w p
      by (auto simp: len)
  qed
qed


text \<open>What an accepted address looks like, and what its text said.\<close>

lemma split_authorityD:
  assumes "split_authority au = Inr (h, p)"
  shows "host_ok h" and "set h \<subseteq> set au" and "length h \<le> length au" and "p \<noteq> Some 0" and "au \<noteq> []"
proof -
  obtain t where t: "au \<noteq> []" "plain au" "authority_parts au = Inr (h, t)" "host_ok h"
    "authority_port t = Inr p"
    using assms by (auto simp: split_authority_iff)
  then have "h \<noteq> []" by (simp add: host_ok_def)
  with t show "host_ok h" "set h \<subseteq> set au" "length h \<le> length au" "p \<noteq> Some 0" "au \<noteq> []"
    using authority_parts_Inr authority_port_Inr by blast+
qed

definition address_ok :: "server_address \<Rightarrow> bool" where
  "address_ok a \<longleftrightarrow> host_ok (sa_host a) \<and> CHR ''#'' \<notin> set (sa_host a) \<and> sa_port a \<noteq> 0 \<and>
     (case sa_mode a of Pinned bs \<Rightarrow> length bs = 32 | WebPki \<Rightarrow> \<not> is_ip (sa_host a))"

lemma address_ok_WebPki: "address_ok a \<Longrightarrow> sa_mode a = WebPki \<Longrightarrow> CHR '':'' \<notin> set (sa_host a)"
  by (auto simp: address_ok_def host_ok_def)

lemma parse_webpki_ok:
  assumes "parse_webpki rest = Inr a"
  shows "address_ok a \<and> sa_mode a = WebPki \<and> CHR ''#'' \<notin> set rest \<and> rest \<noteq> []
    \<and> length (sa_host a) \<le> length rest"
proof -
  obtain h p where r: "CHR ''#'' \<notin> set rest" and s: "split_authority rest = Inr (h, p)" and "\<not> is_ip h"
    and a: "a = \<lparr>sa_mode = WebPki, sa_host = h,
               sa_port = (case p of Some p \<Rightarrow> p | None \<Rightarrow> webpki_default_port)\<rparr>"
    using assms by (auto simp: parse_webpki_iff)
  moreover note split_authorityD [OF s]
  moreover have "webpki_default_port \<noteq> 0" by (simp add: webpki_default_port_def)
  ultimately show ?thesis by (auto simp: address_ok_def split: option.splits)
qed

lemma parse_pinned_ok:
  assumes "parse_pinned rest = Inr a"
  shows "address_ok a \<and> (\<exists>au bs. sa_mode a = Pinned bs \<and> rest = au @ ''#'' @ hex_lower bs)"
proof -
  obtain au bs h p where r: "rest = au @ CHR ''#'' # hex_lower bs" "CHR ''#'' \<notin> set au" "length bs = 32"
    and s: "split_authority au = Inr (h, Some p)"
    and a: "a = \<lparr>sa_mode = Pinned bs, sa_host = h, sa_port = p\<rparr>"
    using assms by (auto simp: parse_pinned_iff)
  with split_authorityD [OF s] show ?thesis by (auto simp: address_ok_def)
qed

lemma parse_address_ok: "parse_address s = Inr a \<Longrightarrow> address_ok a"
  unfolding parse_address_iff using parse_webpki_ok parse_pinned_ok by blast

section \<open>Reading back what is rendered\<close>

lemma trim_scheme:
  assumes "trim_end (CHR ''s'' # t) = CHR ''s'' # t"
  shows "trim (CHR ''s'' # t) = CHR ''s'' # t"
proof -
  have "trim_start (CHR ''s'' # t) = CHR ''s'' # t"
    by (rule trim_start_stops) (simp add: white_space_def)
  with assms show ?thesis by (simp add: trim_def)
qed

lemma dec_digits_end: "\<exists>s c. dec_digits n = s @ [c] \<and> (\<forall>w\<in>set white_space. last w \<noteq> c)"
proof -
  obtain s c where d: "dec_digits n = s @ [c]" using dec_digits_ne by (metis rev_exhaust)
  then have "is_ascii_digit c" using dec_digits_digit [of n] by simp
  with d show ?thesis using digit_not_space by blast
qed

lemma hex_lower_end: "bs \<noteq> [] \<Longrightarrow> \<exists>s c. hex_lower bs = s @ [c] \<and> (\<forall>w\<in>set white_space. last w \<noteq> c)"
proof -
  assume "bs \<noteq> []"
  then obtain s c where h: "hex_lower bs = s @ [c]"
    by (metis length_hex_lower length_0_conv mult_eq_0_iff rev_exhaust zero_neq_numeral)
  then have "c \<in> set (hex_lower bs)" by simp
  then obtain d where "d < 16" "c = hex_digit d" using hex_lower_chars by blast
  with h show ?thesis using hex_no_space by blast
qed

lemma trim_end_ends: "\<exists>s c. t = s @ [c] \<and> (\<forall>w\<in>set white_space. last w \<noteq> c) \<Longrightarrow> trim_end (u @ t) = u @ t"
  by (metis append.assoc trim_end_stops)

lemma parse_scheme:
  "trim (webpki_scheme @ r) = webpki_scheme @ r \<Longrightarrow> parse_address (webpki_scheme @ r) = parse_webpki r"
  "trim (pinned_scheme @ r) = pinned_scheme @ r \<Longrightarrow> parse_address (pinned_scheme @ r) = parse_pinned r"
proof -
  have w: "to_ascii_lowercase webpki_scheme = webpki_scheme" "to_ascii_lowercase pinned_scheme = pinned_scheme"
    by (simp_all add: to_ascii_lowercase_def webpki_scheme_def pinned_scheme_def ascii_lower_def
        less_eq_char_def)
  have l: "to_ascii_lowercase (a @ b) = to_ascii_lowercase a @ to_ascii_lowercase b" for a b
    by (simp add: to_ascii_lowercase_def)
  have n: "strip_prefix webpki_scheme (pinned_scheme @ z) = None" for z
    by (simp add: strip_prefix_def webpki_scheme_def pinned_scheme_def)
  show "trim (webpki_scheme @ r) = webpki_scheme @ r \<Longrightarrow> parse_address (webpki_scheme @ r) = parse_webpki r"
    by (simp add: parse_address_def w l)
  show "trim (pinned_scheme @ r) = pinned_scheme @ r \<Longrightarrow> parse_address (pinned_scheme @ r) = parse_pinned r"
    by (simp add: parse_address_def w l n)
qed


text \<open>The text of an address ends in white space only when its host does and the port is implied.\<close>

definition open_ended :: "server_address \<Rightarrow> bool" where
  "open_ended a \<longleftrightarrow> sa_mode a = WebPki \<and> sa_port a = webpki_default_port \<and>
     trim_end (sa_host a) \<noteq> sa_host a"

lemma scheme_heads:
  "\<exists>r. webpki_scheme = CHR ''s'' # r" "\<exists>r. pinned_scheme = CHR ''s'' # r"
  by (simp_all add: webpki_scheme_def pinned_scheme_def)

lemma trim_schemed:
  assumes "trim_end (u @ t) = u @ t" and "u = webpki_scheme \<or> u = pinned_scheme"
  shows "trim (u @ t) = u @ t"
  using assms scheme_heads trim_scheme by (metis append_Cons)

lemma reparse_pinned:
  assumes "address_ok a" and "sa_mode a = Pinned bs"
  shows "parse_address (display_address a) = Inr a"
proof -
  let ?au = "render_host (sa_host a) @ '':'' @ dec_digits (unat (sa_port a))"
  have ok: "host_ok (sa_host a)" "sa_port a \<noteq> 0" "length bs = 32" "CHR ''#'' \<notin> set (sa_host a)"
    using assms by (simp_all add: address_ok_def)
  have d: "display_address a = pinned_scheme @ (?au @ ''#'' @ hex_lower bs)"
    using assms(2) by (simp add: display_address_def)
  have "trim_end ((pinned_scheme @ ?au @ ''#'') @ hex_lower bs) = (pinned_scheme @ ?au @ ''#'') @ hex_lower bs"
    using ok(3) by (intro trim_end_ends hex_lower_end) auto
  then have "trim (pinned_scheme @ (?au @ ''#'' @ hex_lower bs)) = pinned_scheme @ (?au @ ''#'' @ hex_lower bs)"
    by (intro trim_schemed) simp_all
  then have "parse_address (display_address a) = parse_pinned (?au @ ''#'' @ hex_lower bs)"
    unfolding d by (rule parse_scheme)
  moreover have "CHR ''#'' \<notin> set ?au"
    using ok(4) dec_digits_chars [of "CHR ''#''"] by (auto simp: render_host_def)
  ultimately show ?thesis
    using parse_pinnedI [OF _ ok(3) split_authority_with_port [OF ok(1,2)]] assms(2) by simp
qed

lemma reparse_webpki_port:
  assumes "address_ok a" and "sa_mode a = WebPki" and "sa_port a \<noteq> webpki_default_port"
  shows "parse_address (display_address a) = Inr a"
proof -
  let ?au = "render_host (sa_host a) @ '':'' @ dec_digits (unat (sa_port a))"
  have ok: "host_ok (sa_host a)" "sa_port a \<noteq> 0" "\<not> is_ip (sa_host a)" "CHR ''#'' \<notin> set (sa_host a)"
    using assms by (simp_all add: address_ok_def)
  have d: "display_address a = webpki_scheme @ ?au"
    using assms(2,3) by (simp add: display_address_def)
  have "trim_end ((webpki_scheme @ render_host (sa_host a) @ '':'') @ dec_digits (unat (sa_port a)))
      = (webpki_scheme @ render_host (sa_host a) @ '':'') @ dec_digits (unat (sa_port a))"
    by (intro trim_end_ends dec_digits_end)
  then have "trim (webpki_scheme @ ?au) = webpki_scheme @ ?au" by (intro trim_schemed) simp_all
  then have "parse_address (display_address a) = parse_webpki ?au"
    unfolding d by (rule parse_scheme)
  moreover have "CHR ''#'' \<notin> set ?au"
    using ok(4) dec_digits_chars [of "CHR ''#''"] by (auto simp: render_host_def)
  ultimately show ?thesis
    using ok assms(2) split_authority_with_port [OF ok(1,2)] by (auto simp: parse_webpki_iff)
qed

lemma display_bare:
  assumes "address_ok a" and "sa_mode a = WebPki" and "sa_port a = webpki_default_port"
  shows "display_address a = webpki_scheme @ sa_host a"
  using assms address_ok_WebPki [OF assms(1,2)] by (simp add: display_address_def render_host_def)

lemma trim_bare:
  assumes "h \<noteq> []"
  shows "trim (webpki_scheme @ h) = webpki_scheme @ h \<longleftrightarrow> trim_end h = h"
proof -
  have w: "webpki_scheme @ h = CHR ''s'' # ''und+webpki:/'' @ CHR ''/'' # h"
    by (simp add: webpki_scheme_def)
  have start: "trim_start (webpki_scheme @ h) = webpki_scheme @ h"
    unfolding w by (rule trim_start_stops) (simp add: white_space_def)
  have "trim_end (''sund+webpki:/'' @ CHR ''/'' # h) = ''sund+webpki:/'' @ CHR ''/'' # h \<longleftrightarrow> trim_end h = h"
    using assms by (intro trim_end_append) (auto simp: white_space_def)
  then have "trim_end (webpki_scheme @ h) = webpki_scheme @ h \<longleftrightarrow> trim_end h = h"
    by (simp add: webpki_scheme_def)
  then show ?thesis unfolding trim_def start .
qed


lemma reparse_bare:
  assumes "address_ok a" and "sa_mode a = WebPki" and "sa_port a = webpki_default_port"
  shows "parse_address (display_address a) = Inr a \<longleftrightarrow> trim_end (sa_host a) = sa_host a"
proof
  let ?h = "sa_host a"
  have ok: "host_ok ?h" "\<not> is_ip ?h" "CHR ''#'' \<notin> set ?h" "CHR '':'' \<notin> set ?h" "?h \<noteq> []"
    using assms address_ok_WebPki [OF assms(1,2)] by (simp_all add: address_ok_def host_ok_def)
  note d = display_bare [OF assms]
  show "parse_address (display_address a) = Inr a" if "trim_end ?h = ?h"
  proof -
    have "parse_address (display_address a) = parse_webpki ?h"
      unfolding d by (rule parse_scheme) (simp add: trim_bare ok that)
    then show ?thesis
      using ok assms(2,3) split_authority_bare [OF ok(1,4)] by (auto simp: parse_webpki_iff)
  qed
  show "trim_end ?h = ?h" if "parse_address (display_address a) = Inr a"
  proof (rule ccontr)
    assume "trim_end ?h \<noteq> ?h"
    then have "trim (webpki_scheme @ ?h) \<noteq> webpki_scheme @ ?h" using ok(5) by (simp add: trim_bare)
    then have short: "length (trim (webpki_scheme @ ?h)) < length (webpki_scheme @ ?h)"
      by (rule trim_shorter)
    from that [unfolded d] obtain rest where "rest = drop 14 (trim (webpki_scheme @ ?h))"
      and "parse_webpki rest = Inr a"
      unfolding parse_address_iff using parse_pinned_ok assms(2) by fastforce
    then have "length ?h \<le> length rest" "rest \<noteq> []" using parse_webpki_ok by blast+
    then have "length ?h + 14 \<le> length (trim (webpki_scheme @ ?h))"
      using \<open>rest = _\<close> by auto
    with short show False by (simp add: webpki_scheme_def)
  qed
qed

text \<open>
  Reading the canonical form gives the address back, except for the open-ended ones. An
  address such as \<^verbatim>\<open>sund+webpki:// :443\<close> is accepted and rendered without its port, and
  what is rendered is no longer an address.
\<close>

lemma reparse_iff:
  assumes ok: "address_ok a"
  shows "parse_address (display_address a) = Inr a \<longleftrightarrow> \<not> open_ended a"
proof (cases "sa_mode a")
  case (Pinned bs)
  then show ?thesis using reparse_pinned [OF ok] by (simp add: open_ended_def)
next
  case WebPki
  then show ?thesis
    using reparse_webpki_port [OF ok] reparse_bare [OF ok] by (auto simp: open_ended_def)
qed


section \<open>The mode is what the text says\<close>

lemma accepted_text:
  assumes "parse_address s = Inr a"
  shows "case sa_mode a of
      Pinned bs \<Rightarrow> to_ascii_lowercase (take 7 (trim s)) = pinned_scheme \<and> length bs = 32
        \<and> (\<exists>au. drop 7 (trim s) = au @ ''#'' @ hex_lower bs)
    | WebPki \<Rightarrow> to_ascii_lowercase (take 14 (trim s)) = webpki_scheme
        \<and> CHR ''#'' \<notin> set (drop 14 (trim s)) \<and> \<not> is_ip (sa_host a)"
proof -
  have "address_ok a" using assms by (rule parse_address_ok)
  with assms show ?thesis unfolding parse_address_iff
    by (auto simp: address_ok_def dest!: parse_webpki_ok parse_pinned_ok)
qed

lemma fragment_required:
  assumes "to_ascii_lowercase (take 7 (trim s)) = pinned_scheme" and "CHR ''#'' \<notin> set (trim s)"
  shows "parse_address s = Inl AeInvalidFingerprint"
proof -
  let ?t = "to_ascii_lowercase (trim s)"
  have l: "length pinned_scheme = 7" by (simp add: pinned_scheme_def)
  then have p: "strip_prefix pinned_scheme ?t = Some (drop 7 ?t)"
    using assms(1) by (simp add: strip_prefix_def to_ascii_lowercase_def take_map)
  then have w: "strip_prefix webpki_scheme ?t = None"
    using schemes_differ by (metis not_None_eq option.distinct(1))
  have "CHR ''#'' \<notin> set (drop n (trim s))" for n using assms(2) by (meson in_set_dropD)
  then show ?thesis unfolding parse_address_def Let_def p w option.case parse_pinned_def
    by (metis option.case(1) split_once_None)
qed


text \<open>A text that begins with the pinned scheme is read as a pinned address or not at all.\<close>

lemma pinned_text:
  assumes "to_ascii_lowercase (take 7 (trim s)) = pinned_scheme" and "parse_address s = Inr a"
  shows "\<exists>bs au. sa_mode a = Pinned bs \<and> length bs = 32 \<and> drop 7 (trim s) = au @ ''#'' @ hex_lower bs"
proof (cases "sa_mode a")
  case WebPki
  then have "take 7 (to_ascii_lowercase (take 14 (trim s))) = take 7 webpki_scheme"
    using accepted_text [OF assms(2)] by simp
  then have "pinned_scheme = take 7 webpki_scheme"
    unfolding assms(1) [symmetric] by (simp add: to_ascii_lowercase_def take_map)
  then show ?thesis by (simp add: pinned_scheme_def webpki_scheme_def)
qed (use accepted_text [OF assms(2)] in simp)

end
