(* ===== verification/Http.thy ===== *)
theory Http
  imports Prelude
begin

text \<open>
  The HTTP seam (\<^verbatim>\<open>core/sund-client/src/http.rs\<close>): requests, responses, and the two trait
  objects a client is built over, who performs a request and who stamps it. Both act on the
  world outside the client, a state of any type that is passed through.
\<close>

section \<open>Requests and responses\<close>

datatype http_method = MtGet | MtPost | MtPut

definition method_as_str :: "http_method \<Rightarrow> string" where
  "method_as_str m = (case m of MtGet \<Rightarrow> ''GET'' | MtPost \<Rightarrow> ''POST'' | MtPut \<Rightarrow> ''PUT'')"

record http_request =
  hr_method :: http_method
  hr_path :: string
  hr_headers :: "(string \<times> string) list"
  hr_body :: bytes

definition request_new :: "http_method \<Rightarrow> string \<Rightarrow> http_request" where
  "request_new m path = \<lparr>hr_method = m, hr_path = path, hr_headers = [], hr_body = []\<rparr>"

definition with_body :: "http_request \<Rightarrow> bytes \<Rightarrow> http_request" where
  "with_body rq b = rq\<lparr>hr_body := b\<rparr>"

definition with_header :: "http_request \<Rightarrow> string \<Rightarrow> string \<Rightarrow> http_request" where
  "with_header rq name value = rq\<lparr>hr_headers := hr_headers rq @ [(name, value)]\<rparr>"

record http_response =
  hs_status :: u16
  hs_body :: bytes

datatype http_error = HeNetwork string | HeTls string | HeProtocol string

definition display_http_error :: "http_error \<Rightarrow> string" where
  "display_http_error e = (case e of
     HeNetwork detail \<Rightarrow> ''network: '' @ detail
   | HeTls detail \<Rightarrow> ''cannot verify the server'' @ [CHR 0x27] @ ''s identity: '' @ detail
   | HeProtocol detail \<Rightarrow> ''bad response: '' @ detail)"

record stamp =
  sp_timestamp :: string
  sp_nonce :: string

text \<open>\<^verbatim>\<open>Arc<dyn HttpClient>\<close> and \<^verbatim>\<open>Arc<dyn StampSource>\<close>, which are built and passed together.\<close>

record 'w wiring =
  wi_execute :: "'w \<Rightarrow> http_request \<Rightarrow> 'w \<times> (http_error + http_response)"
  wi_stamp :: "'w \<Rightarrow> 'w \<times> stamp"

lemma with_simps [simp]:
  "hr_method (request_new m p) = m" "hr_path (request_new m p) = p"
  "hr_headers (request_new m p) = []" "hr_body (request_new m p) = []"
  "hr_method (with_body rq b) = hr_method rq" "hr_path (with_body rq b) = hr_path rq"
  "hr_headers (with_body rq b) = hr_headers rq" "hr_body (with_body rq b) = b"
  "hr_method (with_header rq n v) = hr_method rq" "hr_path (with_header rq n v) = hr_path rq"
  "hr_headers (with_header rq n v) = hr_headers rq @ [(n, v)]" "hr_body (with_header rq n v) = hr_body rq"
  by (simp_all add: request_new_def with_body_def with_header_def)

section \<open>Calls that may fail\<close>

text \<open>The \<^verbatim>\<open>?\<close> operator on a call that acts on the world.\<close>

definition wbind :: "'w \<times> ('e + 'a) \<Rightarrow> ('w \<Rightarrow> 'a \<Rightarrow> 'w \<times> ('e + 'b)) \<Rightarrow> 'w \<times> ('e + 'b)" where
  "wbind p f = (case p of (w, Inl e) \<Rightarrow> (w, Inl e) | (w, Inr x) \<Rightarrow> f w x)"

definition wmap :: "'w \<times> ('e + 'a) \<Rightarrow> ('a \<Rightarrow> 'e + 'b) \<Rightarrow> 'w \<times> ('e + 'b)" where
  "wmap p f = (fst p, rbind (snd p) f)"

lemma wbind_simps [simp]: "wbind (w, Inl e) f = (w, Inl e)" "wbind (w, Inr x) f = f w x"
  by (simp_all add: wbind_def)

lemma wmap_simps [simp]:
  "fst (wmap p f) = fst p" "snd (wmap p f) = rbind (snd p) f"
  by (simp_all add: wmap_def)

text \<open>\<^verbatim>\<open>collect()\<close> into a \<^verbatim>\<open>Result\<close>: the first error, or all the values.\<close>

fun collect_results :: "('a \<Rightarrow> 'e + 'b) \<Rightarrow> 'a list \<Rightarrow> 'e + 'b list" where
  "collect_results f [] = Inr []"
| "collect_results f (x # xs) = rbind (f x) (\<lambda>y. rbind (collect_results f xs) (\<lambda>ys. Inr (y # ys)))"

lemma collect_results_Inr: "collect_results f xs = Inr ys \<longleftrightarrow> list_all2 (\<lambda>x y. f x = Inr y) xs ys"
  by (induction xs arbitrary: ys) (auto simp: rbind_Inr_iff list_all2_Cons1)

section \<open>Worlds that remember\<close>

text \<open>
  The contract of a wiring whose world remembers the requests that reached a server: executing adds
  what arrives of the request, stamping nothing. In a traced world requests arrive as they were made;
  \<^verbatim>\<open>recording\<close> adds such a memory to any wiring, as the test double \<^verbatim>\<open>ScriptedHttp\<close> does, and leaves its
  answers alone.
\<close>

locale observed =
  fixes wi :: "'w wiring" and seen :: "'w \<Rightarrow> http_request list"
    and arrives :: "http_request \<Rightarrow> http_request"
  assumes execute_seen: "seen (fst (wi_execute wi w rq)) = seen w @ [arrives rq]"
    and stamp_seen: "seen (fst (wi_stamp wi w)) = seen w"

locale traced = observed wi seen "\<lambda>rq. rq"
  for wi :: "'w wiring" and seen :: "'w \<Rightarrow> http_request list"

definition recording :: "'w wiring \<Rightarrow> ('w \<times> http_request list) wiring" where
  "recording wi =
     \<lparr>wi_execute = (\<lambda>(w, log) rq. let (w', r) = wi_execute wi w rq in ((w', log @ [rq]), r)),
      wi_stamp = (\<lambda>(w, log). let (w', st) = wi_stamp wi w in ((w', log), st))\<rparr>"

lemma recording_simps [simp]:
  "wi_execute (recording wi) p rq =
     ((fst (wi_execute wi (fst p) rq), snd p @ [rq]), snd (wi_execute wi (fst p) rq))"
  "wi_stamp (recording wi) p = ((fst (wi_stamp wi (fst p)), snd p), snd (wi_stamp wi (fst p)))"
  by (simp_all add: recording_def case_prod_beta Let_def)

interpretation rec: traced "recording wi" snd for wi
  by unfold_locales simp_all

end
