(* ===== verification/Agent.thy ===== *)
theory Agent
  imports Address Http Identity Calendar
begin

text \<open>
  The shipping HTTP client (\<^verbatim>\<open>core/sund-client/src/agent.rs\<close>): the trust configuration an address
  selects, the pinned certificate verifier, the classification of failures, and the platform's
  stamps. The libraries underneath are parameters: \<^verbatim>\<open>rustls\<close> parses certificates and checks
  chains, \<^verbatim>\<open>ureq\<close> runs a request under a configuration. The TLS
  stream and the handshake are in \<open>Tls\<close>.
\<close>

section \<open>The libraries\<close>

text \<open>A certificate is its DER bytes. An error keeps its kind; its text is the library's.\<close>

datatype rustls_error = RlGeneral string | RlOther string

text \<open>
  \<^verbatim>\<open>rl_spki\<close> is \<^verbatim>\<open>ParsedCertificate::try_from\<close> with \<^verbatim>\<open>subject_public_key_info\<close>; \<^verbatim>\<open>rl_add_root\<close>
  says whether a root store takes a certificate; \<^verbatim>\<open>rl_verify_chain\<close> is
  \<^verbatim>\<open>verify_server_cert_signed_by_trust_anchor\<close> on the leaf, the roots, the intermediates and the
  time. \<^verbatim>\<open>rl_versions\<close> is \<^verbatim>\<open>with_safe_default_protocol_versions\<close>.
\<close>

record rustls =
  rl_spki :: "bytes \<Rightarrow> rustls_error + bytes"
  rl_add_root :: "bytes \<Rightarrow> string + unit"
  rl_verify_chain :: "bytes \<Rightarrow> bytes list \<Rightarrow> bytes list \<Rightarrow> int \<Rightarrow> rustls_error + unit"
  rl_versions :: "string + unit"
  rl_native_certs :: "bytes list"
  rl_webpki_roots :: "bytes list"
  rl_text :: "rustls_error \<Rightarrow> string"

text \<open>
  An \<^verbatim>\<open>io::Error\<close> by what \<^verbatim>\<open>get_ref\<close> gives; another error by its \<^verbatim>\<open>source\<close>. A \<^verbatim>\<open>ureq\<close>
  error keeps the text it renders as.
\<close>

datatype dyn_error = DynRustls | DynIo "dyn_error option" | DynOther "dyn_error option"

record io_error =
  io_inner :: "dyn_error option"
  io_text :: string

datatype ureq_error =
    UqTls string
  | UqRustls rustls_error
  | UqIo io_error string
  | UqTimeout string
  | UqHostNotFound string
  | UqConnectionFailed string
  | UqOther string

section \<open>Trust configurations\<close>

datatype tls_config = PinnedConfig bytes | WebPkiConfig "bytes list"

definition pinned_config :: "rustls \<Rightarrow> bytes \<Rightarrow> http_error + tls_config" where
  "pinned_config rl fingerprint =
     rbind (map_err HeTls (rl_versions rl)) (\<lambda>_. Inr (PinnedConfig fingerprint))"

definition webpki_config :: "rustls \<Rightarrow> http_error + tls_config" where
  "webpki_config rl =
     (let roots = filter (\<lambda>c. is_ok (rl_add_root rl c)) (rl_native_certs rl);
          roots = (if roots = [] then rl_webpki_roots rl else roots)
      in if roots = []
         then Inl (HeTls ''no trusted certificate authorities are available on this platform'')
         else rbind (map_err HeTls (rl_versions rl)) (\<lambda>_. Inr (WebPkiConfig roots)))"

text \<open>What \<^verbatim>\<open>ureq\<close> is told.\<close>

record agent_config =
  ac_timeout_secs :: nat
  ac_status_as_error :: bool
  ac_max_redirects :: nat
  ac_redirects_will_error :: bool
  ac_https_only :: bool
  ac_user_agent :: string

record http_agent =
  ha_tls :: tls_config
  ha_config :: agent_config
  ha_origin :: string

definition request_timeout_secs :: nat where
  "request_timeout_secs = 30"

definition agent_new :: "rustls \<Rightarrow> server_address \<Rightarrow> http_error + http_agent" where
  "agent_new rl address =
     rbind (case sa_mode address of
              Pinned fingerprint \<Rightarrow> pinned_config rl fingerprint
            | WebPki \<Rightarrow> webpki_config rl)
       (\<lambda>tls. Inr \<lparr>ha_tls = tls,
          ha_config = \<lparr>ac_timeout_secs = request_timeout_secs, ac_status_as_error = False,
            ac_max_redirects = 0, ac_redirects_will_error = True, ac_https_only = True,
            ac_user_agent = ''sund-client/0.1.0''\<rparr>,
          ha_origin = origin address\<rparr>)"

section \<open>Performing a request\<close>

text \<open>The walk from an I/O error inwards: at most \<^verbatim>\<open>n\<close> steps.\<close>

fun tls_walk :: "nat \<Rightarrow> dyn_error option \<Rightarrow> bool" where
  "tls_walk 0 current = False"
| "tls_walk (Suc n) current =
     (case current of
        None \<Rightarrow> False
      | Some DynRustls \<Rightarrow> True
      | Some (DynIo nested) \<Rightarrow> tls_walk n nested
      | Some (DynOther src) \<Rightarrow> tls_walk n src)"

definition is_tls_failure :: "io_error \<Rightarrow> bool" where
  "is_tls_failure e = tls_walk 8 (io_inner e)"

definition classify :: "rustls \<Rightarrow> ureq_error \<Rightarrow> http_error" where
  "classify rl e = (case e of
     UqTls detail \<Rightarrow> HeTls detail
   | UqRustls detail \<Rightarrow> HeTls (rl_text rl detail)
   | UqIo io t \<Rightarrow> if is_tls_failure io then HeTls (io_text io) else HeNetwork t
   | UqTimeout t \<Rightarrow> HeNetwork t
   | UqHostNotFound t \<Rightarrow> HeNetwork t
   | UqConnectionFailed t \<Rightarrow> HeNetwork t
   | UqOther t \<Rightarrow> HeProtocol t)"

text \<open>
  \<^verbatim>\<open>uq_build\<close> is the request builder, which refuses text that is no URI or header; \<^verbatim>\<open>uq_run\<close> runs
  a request under a TLS configuration, with the status and the reading of the body as its answer.
\<close>

record 'w ureq =
  uq_build :: "string \<Rightarrow> string \<Rightarrow> (string \<times> string) list \<Rightarrow> bytes \<Rightarrow> string + unit"
  uq_run :: "tls_config \<Rightarrow> agent_config \<Rightarrow> 'w \<Rightarrow> string \<Rightarrow> string \<Rightarrow> (string \<times> string) list \<Rightarrow> bytes
     \<Rightarrow> 'w \<times> (ureq_error + u16 \<times> (string + bytes))"

definition agent_execute ::
  "rustls \<Rightarrow> 'w ureq \<Rightarrow> http_agent \<Rightarrow> 'w \<Rightarrow> http_request \<Rightarrow> 'w \<times> (http_error + http_response)"
where
  "agent_execute rl uq agent w rq =
     (let url = ha_origin agent @ hr_path rq;
          verb = method_as_str (hr_method rq)
      in case uq_build uq verb url (hr_headers rq) (hr_body rq) of
           Inl e \<Rightarrow> (w, Inl (HeProtocol e))
         | Inr _ \<Rightarrow>
             (let (w, r) = uq_run uq (ha_tls agent) (ha_config agent) w verb url (hr_headers rq) (hr_body rq)
              in (w, rbind (map_err (classify rl) r) (\<lambda>(status, body).
                       rbind (map_err HeProtocol body) (\<lambda>b. Inr \<lparr>hs_status = status, hs_body = b\<rparr>)))))"

section \<open>The pinned verifier\<close>

definition spki_fingerprint :: "crypto \<Rightarrow> rustls \<Rightarrow> bytes \<Rightarrow> bytes option" where
  "spki_fingerprint cr rl certificate =
     (case rl_spki rl certificate of Inl _ \<Rightarrow> None | Inr spki \<Rightarrow> Some (cr_sha256 cr spki))"

definition fingerprints_match :: "bytes \<Rightarrow> bytes \<Rightarrow> bool" where
  "fingerprints_match a b \<longleftrightarrow> foldl (\<lambda>acc (x, y). or acc (xor x y)) 0 (zip a b) = 0"

definition verify_server_cert ::
  "crypto \<Rightarrow> rustls \<Rightarrow> bytes \<Rightarrow> bytes \<Rightarrow> bytes list \<Rightarrow> int \<Rightarrow> rustls_error + unit"
where
  "verify_server_cert cr rl pin end_entity intermediates now =
     (case find (\<lambda>certificate.
              case spki_fingerprint cr rl certificate of
                None \<Rightarrow> False
              | Some fingerprint \<Rightarrow> fingerprints_match fingerprint pin) (end_entity # intermediates) of
        None \<Rightarrow> Inl (RlGeneral ''server certificate does not match the pinned fingerprint'')
      | Some pinned \<Rightarrow>
          rbind (map_err (\<lambda>e. RlGeneral (''pinned certificate unusable: '' @ e)) (rl_add_root rl pinned)) (\<lambda>_.
          rbind (rl_spki rl end_entity) (\<lambda>_.
            rl_verify_chain rl end_entity [pinned] intermediates now)))"

section \<open>Stamps and connections\<close>

text \<open>
  \<^verbatim>\<open>SystemStamps\<close>: the random source answers with sixteen bytes or fails, and the clock is read once
  for the timestamp and, when the random source failed, once before for the nonce, whose debug
  rendering is the parameter.
\<close>

definition system_stamp :: "(system_time \<Rightarrow> string) \<Rightarrow> bytes option \<Rightarrow> system_time \<Rightarrow> system_time \<Rightarrow> stamp" where
  "system_stamp debug_time entropy now1 now2 =
     \<lparr>sp_timestamp = format_rfc3339 now2,
      sp_nonce = (case entropy of
         Some b \<Rightarrow> hex_lower b | None \<Rightarrow> ''no-entropy-'' @ debug_time now1)\<rparr>"

text \<open>
  The connector: it takes a transport to wrap, and only for a URL that needs TLS. The name for SNI
  is the URL's host where that is one (\<^verbatim>\<open>valid_name\<close> is \<^verbatim>\<open>ServerName::try_from\<close>), and a placeholder
  otherwise.
\<close>

definition sni_name :: "(string \<Rightarrow> bool) \<Rightarrow> string option \<Rightarrow> string" where
  "sni_name valid_name authority_host =
     (let host = (case authority_host of None \<Rightarrow> ''sund.invalid'' | Some h \<Rightarrow> h)
      in if valid_name host then host
         else if valid_name ''sund.invalid'' then ''sund.invalid'' else ''127.0.0.1'')"

definition connect_checks ::
  "(string \<Rightarrow> bool) \<Rightarrow> bool \<Rightarrow> bool \<Rightarrow> string option \<Rightarrow> (string \<Rightarrow> 'c option) \<Rightarrow> ureq_error + 'c"
where
  "connect_checks valid_name chained needs_tls authority_host start_tls =
     (if \<not> chained then Inl (UqTls ''no transport to wrap in TLS'')
      else if \<not> needs_tls then Inl (UqTls ''refusing to speak plain HTTP'')
      else ok_or (UqTls ''could not start the TLS connection'')
             (start_tls (sni_name valid_name authority_host)))"

section \<open>What the verifier decides\<close>

lemma or_zero_iff: "or a b = 0 \<longleftrightarrow> a = 0 \<and> b = (0 :: u8)"
  by (auto simp: bit_eq_iff bit_or_iff)

lemma xor_zero_iff: "xor a b = 0 \<longleftrightarrow> a = (b :: u8)"
  by (auto simp: bit_eq_iff bit_xor_iff)

lemma fold_diff:
  "length a = length b \<Longrightarrow>
     foldl (\<lambda>acc (x, y). or acc (xor x y)) acc (zip a b) = 0 \<longleftrightarrow> acc = (0 :: u8) \<and> a = b"
  by (induction a b arbitrary: acc rule: list_induct2) (auto simp: or_zero_iff xor_zero_iff)

lemma fingerprints_match_iff: "length a = length b \<Longrightarrow> fingerprints_match a b \<longleftrightarrow> a = b"
  by (simp add: fingerprints_match_def fold_diff)

text \<open>
  Acceptance in pinned mode: a presented certificate has the pinned key, and the leaf chains to that
  certificate with no other root.
\<close>

lemma verify_server_cert_iff:
  assumes sha: "\<forall>b. length (cr_sha256 cr b) = 32" and pin: "length pin = 32"
  shows "verify_server_cert cr rl pin leaf intermediates now = Inr () \<longleftrightarrow>
    (\<exists>pinned. find (\<lambda>c. spki_fingerprint cr rl c = Some pin) (leaf # intermediates) = Some pinned
       \<and> rl_add_root rl pinned = Inr () \<and> (\<exists>spki. rl_spki rl leaf = Inr spki)
       \<and> rl_verify_chain rl leaf [pinned] intermediates now = Inr ())"
proof -
  have len: "length f = length pin" if "spki_fingerprint cr rl c = Some f" for c f
    using that sha pin by (auto simp: spki_fingerprint_def split: sum.splits)
  have "(case spki_fingerprint cr rl c of None \<Rightarrow> False | Some f \<Rightarrow> fingerprints_match f pin)
      \<longleftrightarrow> spki_fingerprint cr rl c = Some pin" for c
    using len [of c] by (cases "spki_fingerprint cr rl c") (auto simp: fingerprints_match_iff)
  then show ?thesis
    unfolding verify_server_cert_def by (auto simp: rbind_Inr_iff split: option.split)
qed

lemma mismatch_refused:
  assumes "\<forall>b. length (cr_sha256 cr b) = 32" and "length pin = 32"
    and "\<forall>c \<in> set (leaf # intermediates). spki_fingerprint cr rl c \<noteq> Some pin"
  shows "verify_server_cert cr rl pin leaf intermediates now
    = Inl (RlGeneral ''server certificate does not match the pinned fingerprint'')"
proof -
  have "(case spki_fingerprint cr rl c of None \<Rightarrow> False | Some f \<Rightarrow> fingerprints_match f pin) = False"
    if "c \<in> set (leaf # intermediates)" for c
    using that assms fingerprints_match_iff
    by (force simp: spki_fingerprint_def split: sum.splits)
  then have "find (\<lambda>c. case spki_fingerprint cr rl c of None \<Rightarrow> False | Some f \<Rightarrow> fingerprints_match f pin)
      (leaf # intermediates) = None"
    unfolding find_None_iff by blast
  then show ?thesis by (simp add: verify_server_cert_def)
qed

section \<open>What a failure is reported as\<close>

text \<open>How deep a TLS error sits inside an I/O error.\<close>

fun tls_depth :: "dyn_error option \<Rightarrow> nat option" where
  "tls_depth None = None"
| "tls_depth (Some DynRustls) = Some 0"
| "tls_depth (Some (DynIo nested)) = map_option Suc (tls_depth nested)"
| "tls_depth (Some (DynOther src)) = map_option Suc (tls_depth src)"

lemma tls_walk_depth: "tls_walk n e \<longleftrightarrow> (\<exists>d < n. tls_depth e = Some d)"
proof (induction n e rule: tls_walk.induct)
  case (2 n current)
  show ?case
  proof (cases current)
    case (Some x)
    with 2 show ?thesis by (cases x) auto
  qed simp
qed simp

lemma is_tls_failure_iff: "is_tls_failure e \<longleftrightarrow> (\<exists>d < 8. tls_depth (io_inner e) = Some d)"
  by (simp add: is_tls_failure_def tls_walk_depth)

lemma agent_new_Inr:
  assumes "agent_new rl a = Inr agent"
  shows "ha_origin agent = origin a" and "ac_https_only (ha_config agent)"
    and "case sa_mode a of Pinned bs \<Rightarrow> ha_tls agent = PinnedConfig bs
         | WebPki \<Rightarrow> \<exists>roots. roots \<noteq> [] \<and> ha_tls agent = WebPkiConfig roots"
  using assms
  by (auto simp: agent_new_def pinned_config_def webpki_config_def Let_def rbind_Inr_iff
      split: trust_mode.splits if_splits)

text \<open>Every URL an agent asks for is the address's origin and the request's path.\<close>

lemma origin_https: "\<exists>rest. origin a = ''https://'' @ rest"
  by (simp add: origin_def)

end
