(* ===== verification/SundClient.thy ===== *)
theory SundClient
  imports Text Http Identity Calendar Transport
begin

text \<open>
  The Sund API as a client (\<^verbatim>\<open>core/sund-client/src/client.rs\<close>): what each call sends, how it is
  signed, and what the answer means. The management plane is signed with the device key and names
  the device; the transport plane is signed with a queue key and names nobody. Reading a JSON
  reply is \<^verbatim>\<open>serde_json\<close>'s: one parameter per reply type, in the record \<^verbatim>\<open>replies\<close>.
\<close>

section \<open>Errors and values\<close>

datatype sund_error =
    SeHttp http_error
  | SeUnauthorized
  | SeNotFound
  | SeRejected string
  | SeTooLarge
  | SeQuotaExceeded
  | SeStatus u16 string
  | SeMalformed string

definition display_sund_error :: "sund_error \<Rightarrow> string" where
  "display_sund_error e = (case e of
     SeHttp h \<Rightarrow> display_http_error h
   | SeUnauthorized \<Rightarrow> ''unauthorized''
   | SeNotFound \<Rightarrow> ''not found''
   | SeRejected m \<Rightarrow> ''rejected: '' @ m
   | SeTooLarge \<Rightarrow> ''too large''
   | SeQuotaExceeded \<Rightarrow> ''the recipient'' @ [CHR 0x27] @ ''s account is over its storage quota''
   | SeStatus status message \<Rightarrow> ''HTTP '' @ dec_digits (unat status) @ '': '' @ message
   | SeMalformed detail \<Rightarrow> ''unexpected response: '' @ detail)"

record server_health =
  sh_status :: string
  sh_version :: string

record enrollment =
  en_token :: string
  en_public_key :: bytes
  en_push_endpoint :: string
  en_capabilities :: string

record enrolled =
  ed_device_id :: string
  ed_account_id :: string

record server_device_record =
  sd_id :: string
  sd_public_key :: bytes
  sd_push_endpoint :: string
  sd_capabilities :: string
  sd_created :: "system_time option"
  sd_last_seen :: "system_time option"
  sd_revoked :: bool

record invitation =
  iv_token :: string
  iv_id :: string
  iv_expires :: "system_time option"

record invitation_record =
  ir_id :: string
  ir_created :: "system_time option"
  ir_expires :: "system_time option"

record fetched_bundle =
  kb_bundle :: bytes
  kb_updated :: "system_time option"

record queue_ids =
  qi_recipient_id :: string
  qi_sender_id :: string

record queue_message =
  qm_payload :: bytes
  qm_ttl :: "duration option"
  qm_priority :: bool
  qm_bind_sender_key :: bool

record queued_message =
  qd_id :: string
  qd_payload :: bytes
  qd_received_at :: "system_time option"
  qd_expires :: "system_time option"

text \<open>The shapes the replies have on the wire; an absent optional field reads as empty.\<close>

record device_view =
  dw_id :: string
  dw_public_key :: string
  dw_push_endpoint :: string
  dw_capabilities :: string
  dw_created :: string
  dw_last_seen :: string
  dw_revoked :: bool

record message_view =
  mw_id :: string
  mw_payload :: string
  mw_received_at :: string
  mw_expires :: string

record replies =
  ry_health :: "bytes \<Rightarrow> string + server_health"
  ry_registered :: "bytes \<Rightarrow> string + (string \<times> string)"
  ry_sent :: "bytes \<Rightarrow> string + string"
  ry_messages :: "bytes \<Rightarrow> string + message_view list"
  ry_deleted :: "bytes \<Rightarrow> string + nat"
  ry_devices :: "bytes \<Rightarrow> string + device_view list"
  ry_invitation :: "bytes \<Rightarrow> string + (string \<times> string \<times> string)"
  ry_invitations :: "bytes \<Rightarrow> string + (string \<times> string \<times> string) list"
  ry_bundle :: "bytes \<Rightarrow> string + (string \<times> string)"
  ry_queue :: "bytes \<Rightarrow> string + queue_ids"
  ry_error :: "bytes \<Rightarrow> string + string"

section \<open>Plumbing\<close>

definition json_request :: "http_method \<Rightarrow> string \<Rightarrow> bytes \<Rightarrow> http_request" where
  "json_request m path body =
     with_body (with_header (request_new m path) ''Content-Type'' ''application/json'') body"

definition to_json :: "crypto \<Rightarrow> json \<Rightarrow> sund_error + bytes" where
  "to_json cr v = map_err (\<lambda>e. SeMalformed (''cannot encode: '' @ e)) (cr_to_vec cr v)"

definition parse_json :: "(bytes \<Rightarrow> string + 'a) \<Rightarrow> bytes \<Rightarrow> sund_error + 'a" where
  "parse_json from_slice body = map_err SeMalformed (from_slice body)"

definition decode_base64 :: "crypto \<Rightarrow> string \<Rightarrow> string \<Rightarrow> sund_error + bytes" where
  "decode_base64 cr text field =
     ok_or (SeMalformed (field @ '' is not base64'')) (cr_b64_decode cr text)"

definition is_ascii_alphanumeric :: "char \<Rightarrow> bool" where
  "is_ascii_alphanumeric c \<longleftrightarrow>
     list_ex (\<lambda>(low, high). low \<le> of_char c \<and> of_char c \<le> high) [(48 :: nat, 57 :: nat), (65, 90), (97, 122)]"

definition path_segment :: "string \<Rightarrow> sund_error + string" where
  "path_segment ident =
     (if ident \<noteq> [] \<and> list_all (\<lambda>b. is_ascii_alphanumeric b \<or> b \<in> {CHR ''_'', CHR ''-'', CHR ''.''}) ident
      then Inr ident
      else Inl (SeMalformed (''`'' @ ident @ ''` is not a usable path segment'')))"

definition server_message :: "replies \<Rightarrow> bytes \<Rightarrow> string" where
  "server_message rp body =
     (case ry_error rp body of Inl _ \<Rightarrow> trim (from_utf8_lossy body) | Inr parsed \<Rightarrow> parsed)"

definition check_status :: "replies \<Rightarrow> http_response \<Rightarrow> sund_error + http_response" where
  "check_status rp response =
     (let status = hs_status response in
      if 200 \<le> status \<and> status \<le> 299 then Inr response
      else if status = 400 then Inl (SeRejected (server_message rp (hs_body response)))
      else if status = 401 then Inl SeUnauthorized
      else if status = 404 then Inl SeNotFound
      else if status = 413 then Inl SeTooLarge
      else if status = 507 then Inl SeQuotaExceeded
      else Inl (SeStatus status (server_message rp (hs_body response))))"

text \<open>
  A client: the primitives, the reply readers and the wiring. \<^verbatim>\<open>DeviceClient\<close> adds the device's
  id and key.
\<close>

record 'w sund_client =
  sc_crypto :: crypto
  sc_replies :: replies
  sc_wiring :: "'w wiring"

record 'w device_client =
  dc_client :: "'w sund_client"
  dc_device_id :: string
  dc_key :: device_key

definition sund_device :: "'w sund_client \<Rightarrow> string \<Rightarrow> device_key \<Rightarrow> 'w device_client" where
  "sund_device sc device_id key = \<lparr>dc_client = sc, dc_device_id = device_id, dc_key = key\<rparr>"

definition perform :: "'w sund_client \<Rightarrow> 'w \<Rightarrow> http_request \<Rightarrow> 'w \<times> (sund_error + http_response)" where
  "perform sc w rq =
     (let (w', r) = wi_execute (sc_wiring sc) w rq
      in (w', rbind (map_err SeHttp r) (check_status (sc_replies sc))))"

text \<open>\<^verbatim>\<open>perform_signed\<close>: the request as it goes out under one stamp, and performing it.\<close>

definition signed_request ::
  "crypto \<Rightarrow> http_request \<Rightarrow> device_key \<Rightarrow> string option \<Rightarrow> stamp \<Rightarrow> http_request"
where
  "signed_request cr rq key device_id st =
     (let signature = device_sign cr key
            \<lparr>rq_method = method_as_str (hr_method rq), rq_path = hr_path rq,
             rq_timestamp = sp_timestamp st, rq_nonce = sp_nonce st, rq_body = hr_body rq\<rparr>;
          rq = (case device_id of None \<Rightarrow> rq | Some d \<Rightarrow> with_header rq ''Sund-Device-Id'' d)
      in with_header (with_header (with_header rq ''Sund-Timestamp'' (sp_timestamp st))
           ''Sund-Nonce'' (sp_nonce st)) ''Sund-Signature'' signature)"

definition perform_signed ::
  "'w sund_client \<Rightarrow> 'w \<Rightarrow> http_request \<Rightarrow> device_key \<Rightarrow> string option
     \<Rightarrow> 'w \<times> (sund_error + http_response)"
where
  "perform_signed sc w rq key device_id =
     (let (w, st) = wi_stamp (sc_wiring sc) w
      in perform sc w (signed_request (sc_crypto sc) rq key device_id st))"

section \<open>Calls without an identity\<close>

definition health :: "'w sund_client \<Rightarrow> 'w \<Rightarrow> 'w \<times> (sund_error + server_health)" where
  "health sc w =
     wmap (perform sc w (request_new MtGet ''/health''))
       (\<lambda>response. parse_json (ry_health (sc_replies sc)) (hs_body response))"

definition register_device :: "'w sund_client \<Rightarrow> 'w \<Rightarrow> enrollment \<Rightarrow> 'w \<times> (sund_error + enrolled)" where
  "register_device sc w en =
     wbind (w, to_json (sc_crypto sc) (JObject
        [(''token'', JString (en_token en)),
         (''public_key'', JString (cr_b64_encode (sc_crypto sc) (en_public_key en))),
         (''push_endpoint'', JString (en_push_endpoint en)),
         (''capabilities'', JString (en_capabilities en))]))
     (\<lambda>w body. wmap (perform sc w (json_request MtPost ''/v1/devices/register'' body))
        (\<lambda>response. rbind (parse_json (ry_registered (sc_replies sc)) (hs_body response))
           (\<lambda>(device_id, account_id). Inr \<lparr>ed_device_id = device_id, ed_account_id = account_id\<rparr>)))"

section \<open>The transport plane\<close>

definition send_to_queue ::
  "'w sund_client \<Rightarrow> 'w \<Rightarrow> string \<Rightarrow> device_key \<Rightarrow> queue_message \<Rightarrow> 'w \<times> (sund_error + string)"
where
  "send_to_queue sc w sender_id key m =
     wbind (w, path_segment sender_id) (\<lambda>w segment.
     wbind (w, to_json (sc_crypto sc) (JObject
        [(''payload'', JString (cr_b64_encode (sc_crypto sc) (qm_payload m))),
         (''ttl'', json_nat (case qm_ttl m of None \<Rightarrow> 0 | Some ttl \<Rightarrow> duration_as_secs ttl)),
         (''priority'', JBool (qm_priority m))])) (\<lambda>w body.
       (let rq = json_request MtPost (''/v1/send/'' @ segment) body;
            rq = (if qm_bind_sender_key m
                  then with_header rq ''Sund-Sender-Key''
                         (cr_b64_encode (sc_crypto sc) (device_public_key (sc_crypto sc) key))
                  else rq)
        in wmap (perform_signed sc w rq key None)
             (\<lambda>response. parse_json (ry_sent (sc_replies sc)) (hs_body response)))))"

definition message_of_view :: "crypto \<Rightarrow> message_view \<Rightarrow> sund_error + queued_message" where
  "message_of_view cr v =
     rbind (decode_base64 cr (mw_payload v) ''payload'') (\<lambda>payload.
       Inr \<lparr>qd_id = mw_id v, qd_payload = payload, qd_received_at = parse_rfc3339 (mw_received_at v),
            qd_expires = parse_rfc3339 (mw_expires v)\<rparr>)"

definition receive_from_queue ::
  "'w sund_client \<Rightarrow> 'w \<Rightarrow> string \<Rightarrow> device_key \<Rightarrow> 'w \<times> (sund_error + queued_message list)"
where
  "receive_from_queue sc w recipient_id key =
     wbind (w, path_segment recipient_id) (\<lambda>w segment.
       wmap (perform_signed sc w (request_new MtGet (''/v1/recv/'' @ segment)) key None)
         (\<lambda>response. rbind (parse_json (ry_messages (sc_replies sc)) (hs_body response))
            (collect_results (message_of_view (sc_crypto sc)))))"

definition acknowledge_messages ::
  "'w sund_client \<Rightarrow> 'w \<Rightarrow> string \<Rightarrow> device_key \<Rightarrow> string list \<Rightarrow> 'w \<times> (sund_error + nat)"
where
  "acknowledge_messages sc w recipient_id key ids =
     wbind (w, path_segment recipient_id) (\<lambda>w segment.
     wbind (w, to_json (sc_crypto sc) (JObject [(''ids'', JArray (map JString ids))])) (\<lambda>w body.
       wmap (perform_signed sc w (json_request MtPost (''/v1/ack/'' @ segment) body) key None)
         (\<lambda>response. parse_json (ry_deleted (sc_replies sc)) (hs_body response))))"

definition retire_queue :: "'w sund_client \<Rightarrow> 'w \<Rightarrow> string \<Rightarrow> device_key \<Rightarrow> 'w \<times> (sund_error + unit)" where
  "retire_queue sc w recipient_id key =
     wbind (w, path_segment recipient_id) (\<lambda>w segment.
       wmap (perform_signed sc w (request_new MtPost (''/v1/retire/'' @ segment)) key None)
         (\<lambda>_. Inr ()))"

section \<open>The management plane\<close>

definition signed_call :: "'w device_client \<Rightarrow> 'w \<Rightarrow> http_request \<Rightarrow> 'w \<times> (sund_error + http_response)" where
  "signed_call dc w rq = perform_signed (dc_client dc) w rq (dc_key dc) (Some (dc_device_id dc))"

definition record_of_view :: "crypto \<Rightarrow> device_view \<Rightarrow> sund_error + server_device_record" where
  "record_of_view cr v =
     rbind (decode_base64 cr (dw_public_key v) ''public_key'') (\<lambda>key.
       if length key \<noteq> 32 then Inl (SeMalformed ''public_key is not 32 bytes'')
       else Inr \<lparr>sd_id = dw_id v, sd_public_key = key, sd_push_endpoint = dw_push_endpoint v,
                 sd_capabilities = dw_capabilities v, sd_created = parse_rfc3339 (dw_created v),
                 sd_last_seen = parse_rfc3339 (dw_last_seen v), sd_revoked = dw_revoked v\<rparr>)"

definition list_devices :: "'w device_client \<Rightarrow> 'w \<Rightarrow> 'w \<times> (sund_error + server_device_record list)" where
  "list_devices dc w =
     wmap (signed_call dc w (request_new MtGet ''/v1/devices''))
       (\<lambda>response. rbind (parse_json (ry_devices (sc_replies (dc_client dc))) (hs_body response))
          (collect_results (record_of_view (sc_crypto (dc_client dc)))))"

definition revoke_device :: "'w device_client \<Rightarrow> 'w \<Rightarrow> string \<Rightarrow> 'w \<times> (sund_error + unit)" where
  "revoke_device dc w device_id =
     wbind (w, path_segment device_id) (\<lambda>w segment.
       wmap (signed_call dc w (request_new MtPost (''/v1/devices/'' @ segment @ ''/revoke'')))
         (\<lambda>_. Inr ()))"

definition create_invitation :: "'w device_client \<Rightarrow> 'w \<Rightarrow> 'w \<times> (sund_error + invitation)" where
  "create_invitation dc w =
     wmap (signed_call dc w (request_new MtPost ''/v1/invitations''))
       (\<lambda>response. rbind (parse_json (ry_invitation (sc_replies (dc_client dc))) (hs_body response))
          (\<lambda>(token, id, expires). Inr \<lparr>iv_token = token, iv_id = id, iv_expires = parse_rfc3339 expires\<rparr>))"

definition list_invitations :: "'w device_client \<Rightarrow> 'w \<Rightarrow> 'w \<times> (sund_error + invitation_record list)" where
  "list_invitations dc w =
     wmap (signed_call dc w (request_new MtGet ''/v1/invitations''))
       (\<lambda>response. rbind (parse_json (ry_invitations (sc_replies (dc_client dc))) (hs_body response))
          (\<lambda>views. Inr (map (\<lambda>(id, created, expires). \<lparr>ir_id = id,
             ir_created = parse_rfc3339 created, ir_expires = parse_rfc3339 expires\<rparr>) views)))"

definition revoke_invitation :: "'w device_client \<Rightarrow> 'w \<Rightarrow> string \<Rightarrow> 'w \<times> (sund_error + unit)" where
  "revoke_invitation dc w invitation_id =
     wbind (w, path_segment invitation_id) (\<lambda>w segment.
       wmap (signed_call dc w (request_new MtPost (''/v1/invitations/'' @ segment @ ''/revoke'')))
         (\<lambda>_. Inr ()))"

definition push_bundle :: "'w device_client \<Rightarrow> 'w \<Rightarrow> bytes \<Rightarrow> 'w \<times> (sund_error + unit)" where
  "push_bundle dc w bundle =
     wbind (w, to_json (sc_crypto (dc_client dc)) (JObject
        [(''bundle'', JString (cr_b64_encode (sc_crypto (dc_client dc)) bundle))])) (\<lambda>w body.
       wmap (signed_call dc w (json_request MtPut ''/v1/me/bundle'' body)) (\<lambda>_. Inr ()))"

definition fetch_bundle :: "'w device_client \<Rightarrow> 'w \<Rightarrow> string \<Rightarrow> 'w \<times> (sund_error + fetched_bundle)" where
  "fetch_bundle dc w device_id =
     wbind (w, path_segment device_id) (\<lambda>w segment.
       wmap (signed_call dc w (request_new MtGet (''/v1/devices/'' @ segment @ ''/bundle'')))
         (\<lambda>response. rbind (parse_json (ry_bundle (sc_replies (dc_client dc))) (hs_body response))
            (\<lambda>(encoded, updated).
               rbind (decode_base64 (sc_crypto (dc_client dc)) encoded ''bundle'') (\<lambda>bundle.
                 Inr \<lparr>kb_bundle = bundle, kb_updated = parse_rfc3339 updated\<rparr>))))"

definition set_push_endpoint :: "'w device_client \<Rightarrow> 'w \<Rightarrow> string \<Rightarrow> 'w \<times> (sund_error + unit)" where
  "set_push_endpoint dc w endpoint =
     wbind (w, to_json (sc_crypto (dc_client dc)) (JObject [(''push_endpoint'', JString endpoint)]))
       (\<lambda>w body. wmap (signed_call dc w (json_request MtPut ''/v1/me/push'' body)) (\<lambda>_. Inr ()))"

definition create_queue :: "'w device_client \<Rightarrow> 'w \<Rightarrow> bytes \<Rightarrow> 'w \<times> (sund_error + queue_ids)" where
  "create_queue dc w recipient_public_key =
     wbind (w, to_json (sc_crypto (dc_client dc)) (JObject
        [(''recipient_key'', JString (cr_b64_encode (sc_crypto (dc_client dc)) recipient_public_key))]))
       (\<lambda>w body. wmap (signed_call dc w (json_request MtPost ''/v1/queues'' body))
          (\<lambda>response. parse_json (ry_queue (sc_replies (dc_client dc))) (hs_body response)))"

section \<open>What a request carries\<close>

definition header :: "string \<Rightarrow> http_request \<Rightarrow> string option" where
  "header name rq = map_of (hr_headers rq) name"

text \<open>The server's check: the signature header over the request as it arrived.\<close>

definition carries_signature :: "crypto \<Rightarrow> bytes \<Rightarrow> http_request \<Rightarrow> bool" where
  "carries_signature cr pk rq \<longleftrightarrow>
     (\<exists>t n s. header ''Sund-Timestamp'' rq = Some t \<and> header ''Sund-Nonce'' rq = Some n
        \<and> header ''Sund-Signature'' rq = Some s
        \<and> sigauth_verify cr pk \<lparr>rq_method = method_as_str (hr_method rq), rq_path = hr_path rq,
             rq_timestamp = t, rq_nonce = n, rq_body = hr_body rq\<rparr> s)"

text \<open>The characters a path is made of: none that starts a query, a fragment or a new line.\<close>

definition safe_path :: "string \<Rightarrow> bool" where
  "safe_path p \<longleftrightarrow> list_all (\<lambda>b. is_ascii_alphanumeric b \<or> b \<in> {CHR ''_'', CHR ''-'', CHR ''.'', CHR ''/''}) p"

lemma header_simps [simp]:
  "header n (request_new m p) = None"
  "header n (with_body rq b) = header n rq"
  "header n (with_header rq k v) =
     (case header n rq of Some x \<Rightarrow> Some x | None \<Rightarrow> if n = k then Some v else None)"
  by (auto simp: header_def map_add_def split: option.splits)

lemma json_request_simps [simp]:
  "hr_method (json_request m p b) = m" "hr_path (json_request m p b) = p"
  "hr_body (json_request m p b) = b"
  "header n (json_request m p b) = (if n = ''Content-Type'' then Some ''application/json'' else None)"
  by (simp_all add: json_request_def)

definition unsigned_yet :: "http_request \<Rightarrow> bool" where
  "unsigned_yet rq \<longleftrightarrow> (\<forall>n \<in> {''Sund-Device-Id'', ''Sund-Timestamp'', ''Sund-Nonce'', ''Sund-Signature''}.
     header n rq = None)"

lemma signed_request_parts [simp]:
  "hr_method (signed_request cr rq key d st) = hr_method rq"
  "hr_path (signed_request cr rq key d st) = hr_path rq"
  "hr_body (signed_request cr rq key d st) = hr_body rq"
  by (simp_all add: signed_request_def Let_def split: option.split)

lemma signed_request_device: "unsigned_yet rq \<Longrightarrow> header ''Sund-Device-Id'' (signed_request cr rq key d st) = d"
  by (simp add: signed_request_def unsigned_yet_def Let_def split: option.split)

lemma signed_request_verifies:
  assumes "signs_correctly cr" and "unsigned_yet rq"
  shows "carries_signature cr (device_public_key cr key) (signed_request cr rq key d st)"
proof -
  let ?r = "\<lparr>rq_method = method_as_str (hr_method rq), rq_path = hr_path rq,
     rq_timestamp = sp_timestamp st, rq_nonce = sp_nonce st, rq_body = hr_body rq\<rparr>"
  have "header ''Sund-Timestamp'' (signed_request cr rq key d st) = Some (sp_timestamp st)"
    and "header ''Sund-Nonce'' (signed_request cr rq key d st) = Some (sp_nonce st)"
    and "header ''Sund-Signature'' (signed_request cr rq key d st) = Some (device_sign cr key ?r)"
    using assms(2) by (simp_all add: signed_request_def unsigned_yet_def Let_def split: option.split)
  then show ?thesis using device_signature_verifies [OF assms(1)] by (auto simp: carries_signature_def)
qed

lemma path_segment_Inr: "path_segment i = Inr s \<Longrightarrow> s = i \<and> i \<noteq> [] \<and> safe_path i"
  by (auto simp: path_segment_def safe_path_def list_all_iff split: if_splits)

lemma safe_path_append [simp]: "safe_path (a @ b) \<longleftrightarrow> safe_path a \<and> safe_path b"
  by (simp add: safe_path_def)

lemma safe_path_simps [simp]:
  "safe_path []"
  "safe_path (c # s) \<longleftrightarrow>
     (let n = of_char c :: nat in n \<in> {45, 46, 47, 95} \<or> 48 \<le> n \<and> n \<le> 57 \<or> 97 \<le> n \<and> n \<le> 122 \<or> 65 \<le> n \<and> n \<le> 90)
     \<and> safe_path s"
proof -
  have "c = CHR ''_'' \<or> c = CHR ''-'' \<or> c = CHR ''.'' \<or> c = CHR ''/'' \<longleftrightarrow>
      (of_char c :: nat) \<in> {45, 46, 47, 95}"
    by (auto simp: of_char_eq_iff [where ?'a = nat, symmetric])
  then show "safe_path []" and "safe_path (c # s) \<longleftrightarrow>
     (let n = of_char c :: nat in n \<in> {45, 46, 47, 95} \<or> 48 \<le> n \<and> n \<le> 57 \<or> 97 \<le> n \<and> n \<le> 122 \<or> 65 \<le> n \<and> n \<le> 90)
     \<and> safe_path s"
    by (auto simp: safe_path_def is_ascii_alphanumeric_def Let_def)
qed

text \<open>
  One call of a plane, whatever its arguments and its outcome. The rules are the public
  operations of the two client types.
\<close>

inductive transport_call :: "'w sund_client \<Rightarrow> device_key \<Rightarrow> 'w \<Rightarrow> 'w \<Rightarrow> bool" for sc key where
  "send_to_queue sc w sender_id key m = (w', r) \<Longrightarrow> transport_call sc key w w'"
| "receive_from_queue sc w recipient_id key = (w', rr) \<Longrightarrow> transport_call sc key w w'"
| "acknowledge_messages sc w recipient_id key ids = (w', ra) \<Longrightarrow> transport_call sc key w w'"
| "retire_queue sc w recipient_id key = (w', rt) \<Longrightarrow> transport_call sc key w w'"

inductive management_call :: "'w device_client \<Rightarrow> 'w \<Rightarrow> 'w \<Rightarrow> bool" for dc where
  "list_devices dc w = (w', r1) \<Longrightarrow> management_call dc w w'"
| "revoke_device dc w device_id = (w', r2) \<Longrightarrow> management_call dc w w'"
| "create_invitation dc w = (w', r3) \<Longrightarrow> management_call dc w w'"
| "list_invitations dc w = (w', r4) \<Longrightarrow> management_call dc w w'"
| "revoke_invitation dc w invitation_id = (w', r5) \<Longrightarrow> management_call dc w w'"
| "push_bundle dc w bundle = (w', r6) \<Longrightarrow> management_call dc w w'"
| "fetch_bundle dc w device_id = (w', r7) \<Longrightarrow> management_call dc w w'"
| "set_push_endpoint dc w endpoint = (w', r8) \<Longrightarrow> management_call dc w w'"
| "create_queue dc w recipient_public_key = (w', r9) \<Longrightarrow> management_call dc w w'"

text \<open>At most one request, and one with the property.\<close>

definition asks :: "(http_request \<Rightarrow> bool) \<Rightarrow> http_request list \<Rightarrow> http_request list \<Rightarrow> bool" where
  "asks P before after \<longleftrightarrow> (\<exists>rqs. after = before @ rqs \<and> length rqs \<le> 1 \<and> (\<forall>rq \<in> set rqs. P rq))"

lemma asks_none [simp]: "asks P l l"
  by (simp add: asks_def)

lemma asks_one: "P rq \<Longrightarrow> asks P l (l @ [rq])"
  by (auto simp: asks_def)

lemma asks_mono: "asks P l l' \<Longrightarrow> (\<And>rq. P rq \<Longrightarrow> Q rq) \<Longrightarrow> asks Q l l'"
  by (auto simp: asks_def)

text \<open>The requests of a run, one call added at the end.\<close>

lemma asks_run:
  assumes "asks P l' l''" and "\<exists>rqs. l' = l @ rqs \<and> (\<forall>rq \<in> set rqs. P rq)"
  shows "\<exists>rqs. l'' = l @ rqs \<and> (\<forall>rq \<in> set rqs. P rq)"
proof -
  from assms obtain xs ys where "l' = l @ xs" "\<forall>rq \<in> set xs. P rq" "l'' = l' @ ys" "\<forall>rq \<in> set ys. P rq"
    by (auto simp: asks_def)
  then show ?thesis by (intro exI [of _ "xs @ ys"]) auto
qed

definition anonymous :: "crypto \<Rightarrow> device_key \<Rightarrow> http_request \<Rightarrow> bool" where
  "anonymous cr key rq \<longleftrightarrow> header ''Sund-Device-Id'' rq = None \<and> safe_path (hr_path rq)
     \<and> carries_signature cr (device_public_key cr key) rq"

definition attributed :: "crypto \<Rightarrow> string \<Rightarrow> device_key \<Rightarrow> http_request \<Rightarrow> bool" where
  "attributed cr device_id key rq \<longleftrightarrow> header ''Sund-Device-Id'' rq = Some device_id
     \<and> safe_path (hr_path rq) \<and> carries_signature cr (device_public_key cr key) rq"

text \<open>A request that went out signed, from one that no signature header had been put on.\<close>

definition signed_as :: "crypto \<Rightarrow> device_key \<Rightarrow> string option \<Rightarrow> http_request \<Rightarrow> bool" where
  "signed_as cr key d rq \<longleftrightarrow> safe_path (hr_path rq)
     \<and> (\<exists>rq0 st. unsigned_yet rq0 \<and> rq = signed_request cr rq0 key d st)"

lemma signed_as_reads:
  assumes "signs_correctly cr" and "signed_as cr key d rq"
  shows "d = None \<Longrightarrow> anonymous cr key rq" and "d = Some i \<Longrightarrow> attributed cr i key rq"
  using assms signed_request_device signed_request_verifies
  by (auto simp: signed_as_def anonymous_def attributed_def)

lemmas transport_ops = send_to_queue_def receive_from_queue_def acknowledge_messages_def retire_queue_def

lemmas management_ops = list_devices_def revoke_device_def create_invitation_def list_invitations_def
  revoke_invitation_def push_bundle_def fetch_bundle_def set_push_endpoint_def create_queue_def

lemma fst_wmapD: "wmap p f = (w', r) \<Longrightarrow> w' = fst p"
  by (auto simp: wmap_def)

text \<open>How an answer is read: success is a 2xx, and what the HTTP layer reported is kept.\<close>

lemma check_status_Inr: "check_status rp x = Inr y \<longleftrightarrow> y = x \<and> 200 \<le> hs_status x \<and> hs_status x \<le> 299"
  by (auto simp: check_status_def Let_def)

lemma check_status_not_http: "check_status rp x \<noteq> Inl (SeHttp e)"
  by (simp add: check_status_def Let_def)

lemma perform_Inr:
  "snd (perform sc w rq) = Inr x \<longleftrightarrow>
     snd (wi_execute (sc_wiring sc) w rq) = Inr x \<and> 200 \<le> hs_status x \<and> hs_status x \<le> 299"
  by (auto simp: perform_def case_prod_beta Let_def rbind_Inr_iff check_status_Inr)

lemma perform_http:
  "snd (perform sc w rq) = Inl (SeHttp e) \<longleftrightarrow> snd (wi_execute (sc_wiring sc) w rq) = Inl e"
  by (auto simp: perform_def case_prod_beta Let_def rbind_Inl_iff map_err_Inl_iff check_status_not_http)

context observed
begin

lemma perform_seen: "sc_wiring sc = wi \<Longrightarrow> seen (fst (perform sc w rq)) = seen w @ [arrives rq]"
  using execute_seen [of w rq] by (simp add: perform_def case_prod_beta Let_def)

lemma perform_signed_seen:
  assumes "sc_wiring sc = wi"
  shows "\<exists>st. seen (fst (perform_signed sc w rq key d))
    = seen w @ [arrives (signed_request (sc_crypto sc) rq key d st)]"
proof -
  obtain w1 st where s: "wi_stamp wi w = (w1, st)" by fastforce
  then have "seen w1 = seen w" using stamp_seen [of w] by simp
  with s assms show ?thesis by (auto simp: perform_signed_def perform_seen)
qed

lemma perform_signed_arrives:
  assumes "sc_wiring sc = wi" and "unsigned_yet rq" and "safe_path (hr_path rq)"
  shows "asks (\<lambda>r. \<exists>q. r = arrives q \<and> signed_as (sc_crypto sc) key d q)
    (seen w) (seen (fst (perform_signed sc w rq key d)))"
proof -
  obtain st where "seen (fst (perform_signed sc w rq key d))
      = seen w @ [arrives (signed_request (sc_crypto sc) rq key d st)]"
    using perform_signed_seen [OF assms(1)] by blast
  moreover have "signed_as (sc_crypto sc) key d (signed_request (sc_crypto sc) rq key d st)"
    using assms(2,3) by (auto simp: signed_as_def)
  ultimately show ?thesis by (auto intro!: asks_one)
qed

lemma transport_call_arrives:
  assumes "transport_call sc key w w'" and "sc_wiring sc = wi"
  shows "asks (\<lambda>r. \<exists>q. r = arrives q \<and> signed_as (sc_crypto sc) key None q) (seen w) (seen w')"
proof -
  note P = perform_signed_arrives [OF assms(2), where key = key and d = None]
  from assms(1) show ?thesis
  proof cases
    case (1 sender_id m r)
    then show ?thesis
      by (auto simp: send_to_queue_def wbind_def Let_def unsigned_yet_def dest!: fst_wmapD path_segment_Inr
          intro!: P split: sum.splits)
  next
    case (2 recipient_id r)
    then show ?thesis
      by (auto simp: receive_from_queue_def wbind_def unsigned_yet_def dest!: fst_wmapD path_segment_Inr
          intro!: P split: sum.splits)
  next
    case (3 recipient_id ids r)
    then show ?thesis
      by (auto simp: acknowledge_messages_def wbind_def unsigned_yet_def dest!: fst_wmapD path_segment_Inr
          intro!: P split: sum.splits)
  next
    case (4 recipient_id r)
    then show ?thesis
      by (auto simp: retire_queue_def wbind_def unsigned_yet_def dest!: fst_wmapD path_segment_Inr
          intro!: P split: sum.splits)
  qed
qed

lemma management_call_arrives:
  assumes "management_call dc w w'" and "sc_wiring (dc_client dc) = wi"
  shows "asks (\<lambda>r. \<exists>q. r = arrives q \<and> signed_as (sc_crypto (dc_client dc)) (dc_key dc) (Some (dc_device_id dc)) q)
    (seen w) (seen w')"
proof -
  note P = perform_signed_arrives [OF assms(2), where key = "dc_key dc" and d = "Some (dc_device_id dc)",
    folded signed_call_def]
  from assms(1) show ?thesis
    by cases (auto simp: management_ops wbind_def unsigned_yet_def dest!: fst_wmapD path_segment_Inr
        intro!: P split: sum.splits)
qed

lemma management_run_arrives:
  assumes "(management_call dc)\<^sup>*\<^sup>* w w'" and "sc_wiring (dc_client dc) = wi"
  shows "\<exists>rqs. seen w' = seen w @ rqs \<and> (\<forall>r \<in> set rqs. \<exists>q. r = arrives q
    \<and> signed_as (sc_crypto (dc_client dc)) (dc_key dc) (Some (dc_device_id dc)) q)"
  using assms(1)
proof (induction rule: rtranclp_induct)
  case (step v v')
  from management_call_arrives [OF step.hyps(2) assms(2)] step.IH show ?case by (rule asks_run)
qed simp

end

context traced
begin

lemma perform_signed_asks:
  assumes "sc_wiring sc = wi" and "\<And>st. P (signed_request (sc_crypto sc) rq key d st)"
  shows "asks P (seen w) (seen (fst (perform_signed sc w rq key d)))"
  using perform_signed_seen [OF assms(1), of w rq key d] assms(2) by (metis asks_one)

lemma transport_call_asks:
  assumes "transport_call sc key w w'" and "sc_wiring sc = wi" and "signs_correctly (sc_crypto sc)"
  shows "asks (anonymous (sc_crypto sc) key) (seen w) (seen w')"
  by (rule asks_mono [OF transport_call_arrives [OF assms(1,2)]])
    (use signed_as_reads(1) [OF assms(3)] in blast)

lemma management_call_asks:
  assumes "management_call dc w w'" and "sc_wiring (dc_client dc) = wi"
    and "signs_correctly (sc_crypto (dc_client dc))"
  shows "asks (attributed (sc_crypto (dc_client dc)) (dc_device_id dc) (dc_key dc)) (seen w) (seen w')"
  by (rule asks_mono [OF management_call_arrives [OF assms(1,2)]])
    (use signed_as_reads(2) [OF assms(3)] in blast)

text \<open>A run of transport-plane calls, each under any key.\<close>

lemma transport_run_anonymous:
  assumes "(\<lambda>w w'. \<exists>key. transport_call sc key w w')\<^sup>*\<^sup>* w w'" and "sc_wiring sc = wi"
    and "signs_correctly (sc_crypto sc)"
  shows "\<exists>rqs. seen w' = seen w @ rqs \<and> (\<forall>rq \<in> set rqs. \<exists>key. anonymous (sc_crypto sc) key rq)"
  using assms(1)
proof (induction rule: rtranclp_induct)
  case (step v v')
  then obtain key where c: "transport_call sc key v v'" by blast
  show ?case by (rule asks_run [OF asks_mono [OF transport_call_asks [OF c assms(2,3)]] step.IH]) blast
qed simp

lemma management_run_attributed:
  assumes "(management_call dc)\<^sup>*\<^sup>* w w'" and "sc_wiring (dc_client dc) = wi"
    and "signs_correctly (sc_crypto (dc_client dc))"
  shows "\<exists>rqs. seen w' = seen w @ rqs
    \<and> (\<forall>rq \<in> set rqs. attributed (sc_crypto (dc_client dc)) (dc_device_id dc) (dc_key dc) rq)"
  using management_run_arrives [OF assms(1,2)] signed_as_reads(2) [OF assms(3)] by metis

end

end
