(* ===== verification/SundTransport.thy ===== *)
theory SundTransport
  imports SundClient BTree
begin

text \<open>
  The transport port over Sund queues (\<^verbatim>\<open>core/sund-client/src/sund_transport.rs\<close>). A channel is
  two queues, the one this device owns and the one the peer owns, held in a table behind a mutex.
  An operation that talks to the server releases the mutex for the request, so it is written as
  the code writes it: a read of the table, the request, and a commit that looks the channel up
  again. Each of the three is a definition of its own; the operation runs them one after the
  other, and the lemmas on the commits hold for whatever other calls did to the table in between.
\<close>

section \<open>The channel table\<close>

record outbound_queue =
  oq_sender_id :: string
  oq_sender_seed :: bytes
  oq_bound :: bool

record channel_record =
  qr_channel :: string
  qr_recipient_seed :: bytes
  qr_inbound :: "queue_ids option"
  qr_outbound :: "outbound_queue option"
  qr_retired :: bool

text \<open>The \<^verbatim>\<open>HashMap\<close> is an ordered map: its iteration order is sorted away wherever it shows.\<close>

type_synonym channel_table = "(string, channel_record) btree"

record 'w sund_transport =
  sx_device :: "'w device_client"
  sx_channels :: channel_table

definition sund_transport_new :: "'w device_client \<Rightarrow> 'w sund_transport" where
  "sund_transport_new device = \<lparr>sx_device = device, sx_channels = bt_empty\<rparr>"

definition live :: "channel_table \<Rightarrow> string \<Rightarrow> transport_error + channel_record" where
  "live channels c =
     (case bt_get channels c of
        None \<Rightarrow> Inl (TeUnknownChannel c)
      | Some rec \<Rightarrow> if qr_retired rec then Inl (TeRetired c) else Inr rec)"

definition backend :: "sund_error \<Rightarrow> transport_error" where
  "backend e = TeBackend (display_sund_error e)"

definition channel_error :: "string \<Rightarrow> sund_error \<Rightarrow> transport_error" where
  "channel_error c e = (case e of SeNotFound \<Rightarrow> TeRetired c | other \<Rightarrow> backend other)"

section \<open>Local operations\<close>

definition declare_channel :: "channel_table \<Rightarrow> string \<Rightarrow> bytes \<Rightarrow> channel_table" where
  "declare_channel channels c recipient_seed =
     (case bt_get channels c of
        Some _ \<Rightarrow> channels
      | None \<Rightarrow> bt_insert c \<lparr>qr_channel = c, qr_recipient_seed = recipient_seed, qr_inbound = None,
                               qr_outbound = None, qr_retired = False\<rparr> channels)"

definition attach_outbound ::
  "channel_table \<Rightarrow> string \<Rightarrow> string \<Rightarrow> bytes \<Rightarrow> channel_table \<times> (transport_error + unit)"
where
  "attach_outbound channels c sender_id sender_seed =
     (case live channels c of
        Inl e \<Rightarrow> (channels, Inl e)
      | Inr rec \<Rightarrow>
          (bt_insert c (rec\<lparr>qr_outbound := Some \<lparr>oq_sender_id = sender_id,
             oq_sender_seed = sender_seed, oq_bound = False\<rparr>\<rparr>) channels, Inr ()))"

definition inbound_ids :: "channel_table \<Rightarrow> string \<Rightarrow> queue_ids option" where
  "inbound_ids channels c = Option.bind (bt_get channels c) qr_inbound"

definition export_channels :: "channel_table \<Rightarrow> channel_record list" where
  "export_channels channels = sort_key qr_channel (bt_values channels)"

definition import_channels :: "channel_table \<Rightarrow> channel_record list \<Rightarrow> channel_table" where
  "import_channels channels records = foldl (\<lambda>m rec. bt_insert (qr_channel rec) rec m) channels records"

definition channel_ids :: "channel_table \<Rightarrow> string list" where
  "channel_ids channels = sort (bt_keys channels)"

definition recipient_key :: "channel_table \<Rightarrow> string \<Rightarrow> transport_error + device_key" where
  "recipient_key channels c =
     rbind (ok_or (TeUnknownChannel c) (bt_get channels c)) (\<lambda>rec.
       Inr (device_from_seed (qr_recipient_seed rec)))"

definition recipient_id :: "channel_table \<Rightarrow> string \<Rightarrow> transport_error + string" where
  "recipient_id channels c =
     rbind (live channels c) (\<lambda>rec.
       ok_or (TeUnknownChannel c) (map_option qi_recipient_id (qr_inbound rec)))"

section \<open>Commits\<close>

definition open_commit :: "channel_table \<Rightarrow> string \<Rightarrow> queue_ids \<Rightarrow> channel_table \<times> (transport_error + unit)" where
  "open_commit channels c ids =
     (case live channels c of
        Inl e \<Rightarrow> (channels, Inl e)
      | Inr rec \<Rightarrow>
          ((if qr_inbound rec = None then bt_insert c (rec\<lparr>qr_inbound := Some ids\<rparr>) channels
            else channels), Inr ()))"

definition rotate_commit ::
  "channel_table \<Rightarrow> string \<Rightarrow> bytes \<Rightarrow> queue_ids \<Rightarrow> channel_table \<times> (transport_error + queue_ids)"
where
  "rotate_commit channels c new_seed ids =
     (case live channels c of
        Inl e \<Rightarrow> (channels, Inl e)
      | Inr rec \<Rightarrow>
          (bt_insert c (rec\<lparr>qr_recipient_seed := new_seed, qr_inbound := Some ids\<rparr>) channels, Inr ids))"

definition retire_commit :: "channel_table \<Rightarrow> string \<Rightarrow> channel_table \<times> (transport_error + unit)" where
  "retire_commit channels c =
     (case bt_get channels c of
        None \<Rightarrow> (channels, Inl (TeUnknownChannel c))
      | Some rec \<Rightarrow> (bt_insert c (rec\<lparr>qr_retired := True\<rparr>) channels, Inr ()))"

definition send_commit :: "channel_table \<Rightarrow> string \<Rightarrow> outbound_queue \<Rightarrow> channel_table" where
  "send_commit channels c sent =
     (if oq_bound sent then channels
      else (case bt_get channels c of
              None \<Rightarrow> channels
            | Some rec \<Rightarrow>
                (case qr_outbound rec of
                   None \<Rightarrow> channels
                 | Some existing \<Rightarrow>
                     if oq_sender_id existing = oq_sender_id sent
                     then bt_insert c (rec\<lparr>qr_outbound := Some (existing\<lparr>oq_bound := True\<rparr>)\<rparr>) channels
                     else channels)))"

section \<open>Operations on the server\<close>

text \<open>The state of a call: the transport and the world it talks to.\<close>

type_synonym 'w sund_state = "'w sund_transport \<times> 'w"

definition with_table :: "'w sund_transport \<Rightarrow> channel_table \<times> 'r \<Rightarrow> 'w \<Rightarrow> 'w sund_state \<times> 'r" where
  "with_table t p w = ((t\<lparr>sx_channels := fst p\<rparr>, w), snd p)"

definition sund_create_queue ::
  "'w sund_transport \<Rightarrow> 'w \<Rightarrow> bytes \<Rightarrow> 'w \<times> (transport_error + queue_ids)"
where
  "sund_create_queue t w seed =
     (let dc = sx_device t;
          (w, r) = create_queue dc w (device_public_key (sc_crypto (dc_client dc)) (device_from_seed seed))
      in (w, map_err backend r))"

text \<open>Retiring the queue this device owns; one that is gone already counts as retired.\<close>

definition retire_inbound ::
  "'w sund_transport \<Rightarrow> 'w \<Rightarrow> string \<Rightarrow> queue_ids option \<Rightarrow> 'w \<times> (transport_error + unit)"
where
  "retire_inbound t w c inbound =
     (case inbound of
        None \<Rightarrow> (w, Inr ())
      | Some ids \<Rightarrow>
          wbind (w, recipient_key (sx_channels t) c) (\<lambda>w key.
            (let (w, r) = retire_queue (dc_client (sx_device t)) w (qi_recipient_id ids) key
             in (w, case r of
                      Inr _ \<Rightarrow> Inr ()
                    | Inl e \<Rightarrow> if e = SeNotFound then Inr () else Inl (backend e)))))"

definition sund_open :: "'w sund_state \<Rightarrow> string \<Rightarrow> 'w sund_state \<times> (transport_error + unit)" where
  "sund_open p c =
     (let (t, w) = p in
      case live (sx_channels t) c of
        Inl e \<Rightarrow> (p, Inl e)
      | Inr rec \<Rightarrow>
          if qr_inbound rec \<noteq> None then (p, Inr ())
          else (case sund_create_queue t w (qr_recipient_seed rec) of
                  (w, Inl e) \<Rightarrow> ((t, w), Inl e)
                | (w, Inr ids) \<Rightarrow> with_table t (open_commit (sx_channels t) c ids) w))"

definition rotate_inbound ::
  "'w sund_state \<Rightarrow> string \<Rightarrow> bytes \<Rightarrow> 'w sund_state \<times> (transport_error + queue_ids)"
where
  "rotate_inbound p c new_seed =
     (let (t, w) = p in
      case live (sx_channels t) c of
        Inl e \<Rightarrow> (p, Inl e)
      | Inr rec \<Rightarrow>
          (case retire_inbound t w c (qr_inbound rec) of
             (w, Inl e) \<Rightarrow> ((t, w), Inl e)
           | (w, Inr _) \<Rightarrow>
               (case sund_create_queue t w new_seed of
                  (w, Inl e) \<Rightarrow> ((t, w), Inl e)
                | (w, Inr ids) \<Rightarrow> with_table t (rotate_commit (sx_channels t) c new_seed ids) w)))"

definition sund_retire :: "'w sund_state \<Rightarrow> string \<Rightarrow> 'w sund_state \<times> (transport_error + unit)" where
  "sund_retire p c =
     (let (t, w) = p in
      case live (sx_channels t) c of
        Inl e \<Rightarrow> (p, Inl e)
      | Inr rec \<Rightarrow>
          (case retire_inbound t w c (qr_inbound rec) of
             (w, Inl e) \<Rightarrow> ((t, w), Inl e)
           | (w, Inr _) \<Rightarrow> with_table t (retire_commit (sx_channels t) c) w))"

definition sund_send :: "'w sund_state \<Rightarrow> string \<Rightarrow> outbound \<Rightarrow> 'w sund_state \<times> (transport_error + string)" where
  "sund_send p c m =
     (let (t, w) = p in
      case rbind (live (sx_channels t) c) (\<lambda>rec. ok_or (TeUnknownChannel c) (qr_outbound rec)) of
        Inl e \<Rightarrow> (p, Inl e)
      | Inr oq \<Rightarrow>
          (case send_to_queue (dc_client (sx_device t)) w (oq_sender_id oq)
                  (device_from_seed (oq_sender_seed oq))
                  \<lparr>qm_payload = ob_ciphertext m, qm_ttl = ob_ttl m,
                   qm_priority = (ob_priority m = PrHigh), qm_bind_sender_key = \<not> oq_bound oq\<rparr> of
             (w, Inl e) \<Rightarrow> ((t, w), Inl (channel_error c e))
           | (w, Inr i) \<Rightarrow> with_table t (send_commit (sx_channels t) c oq, Inr i) w))"

text \<open>\<^verbatim>\<open>now\<close> is the \<^verbatim>\<open>SystemTime::now()\<close> that stands in for a missing receive time.\<close>

definition sund_subscribe ::
  "system_time \<Rightarrow> 'w sund_state \<Rightarrow> string \<Rightarrow> 'w sund_state \<times> (transport_error + delivery list)"
where
  "sund_subscribe now p c =
     (let (t, w) = p in
      case recipient_id (sx_channels t) c of
        Inl e \<Rightarrow> (p, Inl e)
      | Inr rid \<Rightarrow>
          (case recipient_key (sx_channels t) c of
             Inl e \<Rightarrow> (p, Inl e)
           | Inr key \<Rightarrow>
               (case receive_from_queue (dc_client (sx_device t)) w rid key of
                  (w, Inl e) \<Rightarrow> ((t, w), Inl (channel_error c e))
                | (w, Inr messages) \<Rightarrow>
                    ((t, w), Inr (map (\<lambda>m. \<lparr>dl_id = qd_id m, dl_ciphertext = qd_payload m,
                       dl_received_at = (case qd_received_at m of Some at \<Rightarrow> at | None \<Rightarrow> now)\<rparr>)
                       messages)))))"

definition sund_next_delivery :: "delivery list \<Rightarrow> delivery list \<times> (transport_error + delivery option)" where
  "sund_next_delivery pending = (case pending of [] \<Rightarrow> ([], Inr None) | d # ds \<Rightarrow> (ds, Inr (Some d)))"

definition acknowledge_all ::
  "'w sund_state \<Rightarrow> string \<Rightarrow> string list \<Rightarrow> 'w sund_state \<times> (transport_error + unit)"
where
  "acknowledge_all p c messages =
     (if messages = [] then (p, Inr ())
      else
       (let (t, w) = p in
        case recipient_id (sx_channels t) c of
          Inl e \<Rightarrow> (p, Inl e)
        | Inr rid \<Rightarrow>
            (case recipient_key (sx_channels t) c of
               Inl e \<Rightarrow> (p, Inl e)
             | Inr key \<Rightarrow>
                 (let (w, r) = acknowledge_messages (dc_client (sx_device t)) w rid key messages
                  in ((t, w), rbind (map_err (channel_error c) r) (\<lambda>_. Inr ()))))))"

definition sund_ack :: "'w sund_state \<Rightarrow> string \<Rightarrow> string \<Rightarrow> 'w sund_state \<times> (transport_error + unit)" where
  "sund_ack p c message = acknowledge_all p c [message]"

definition sund_port :: "'w sund_state port" where
  "sund_port = \<lparr>po_open = sund_open, po_retire = sund_retire, po_send = sund_send, po_ack = sund_ack\<rparr>"

lemma sund_port_simps [simp]:
  "po_open sund_port = sund_open" "po_retire sund_port = sund_retire"
  "po_send sund_port = sund_send" "po_ack sund_port = sund_ack"
  by (simp_all add: sund_port_def)

section \<open>What a call can do to the table\<close>

lemma live_Inr: "live channels c = Inr rec \<longleftrightarrow> bt_get channels c = Some rec \<and> \<not> qr_retired rec"
  by (auto simp: live_def split: option.split if_splits)

lemma live_Inl:
  "live channels c = Inl e \<longleftrightarrow>
     bt_get channels c = None \<and> e = TeUnknownChannel c
     \<or> (\<exists>rec. bt_get channels c = Some rec \<and> qr_retired rec \<and> e = TeRetired c)"
  by (auto simp: live_def split: option.split if_splits)

inductive table_step :: "channel_table \<Rightarrow> channel_table \<Rightarrow> bool" where
  st_declare: "table_step m (declare_channel m c seed)"
| st_attach: "table_step m (fst (attach_outbound m c sender_id seed))"
| st_open: "table_step m (fst (open_commit m c ids))"
| st_rotate: "table_step m (fst (rotate_commit m c seed ids))"
| st_retire: "table_step m (fst (retire_commit m c))"
| st_send: "table_step m (send_commit m c sent)"

lemmas table_ops = declare_channel_def attach_outbound_def open_commit_def rotate_commit_def
  retire_commit_def send_commit_def live_def

text \<open>A retired channel keeps its queues as they were, whatever calls follow.\<close>

definition retired_as :: "channel_table \<Rightarrow> string \<Rightarrow> queue_ids option \<Rightarrow> bool" where
  "retired_as m c ids \<longleftrightarrow> (\<exists>rec. bt_get m c = Some rec \<and> qr_retired rec \<and> qr_inbound rec = ids)"

lemma step_retired: "table_step m m' \<Longrightarrow> retired_as m c ids \<Longrightarrow> retired_as m' c ids"
  by (induction rule: table_step.induct)
    (auto simp: table_ops retired_as_def split: option.splits if_splits)

text \<open>The key of an entry is the channel its record names.\<close>

definition table_ok :: "channel_table \<Rightarrow> bool" where
  "table_ok m \<longleftrightarrow> (\<forall>c rec. bt_get m c = Some rec \<longrightarrow> qr_channel rec = c)"

lemma table_ok_insert: "table_ok m \<Longrightarrow> qr_channel rec = c \<Longrightarrow> table_ok (bt_insert c rec m)"
  unfolding table_ok_def by simp

lemma table_ok_update:
  "table_ok m \<Longrightarrow> bt_get m c = Some rec \<Longrightarrow> qr_channel rec' = qr_channel rec \<Longrightarrow> table_ok (bt_insert c rec' m)"
  by (rule table_ok_insert) (simp_all add: table_ok_def)

lemma step_ok:
  assumes "table_step m m'" and ok: "table_ok m"
  shows "table_ok m'"
  using assms(1)
proof cases
  case (st_declare c seed)
  then show ?thesis using ok
    by (cases "bt_get m c") (simp_all add: declare_channel_def table_ok_insert)
next
  case (st_attach c sender_id seed)
  then show ?thesis using ok
    by (cases "live m c") (simp_all add: attach_outbound_def live_Inr table_ok_update)
next
  case (st_open c ids)
  then show ?thesis using ok
    by (cases "live m c") (simp_all add: open_commit_def live_Inr table_ok_update)
next
  case (st_rotate c seed ids)
  then show ?thesis using ok
    by (cases "live m c") (simp_all add: rotate_commit_def live_Inr table_ok_update)
next
  case (st_retire c)
  then show ?thesis using ok
    by (cases "bt_get m c") (simp_all add: retire_commit_def table_ok_update)
next
  case (st_send c sent)
  show ?thesis unfolding st_send(1)
  proof (cases "bt_get m c")
    case (Some rec)
    then have "table_ok (bt_insert c (rec\<lparr>qr_outbound := ob\<rparr>) m)" for ob
      using ok by (intro table_ok_update) simp_all
    then show "table_ok (send_commit m c sent)"
      using ok Some by (cases "qr_outbound rec") (simp_all add: send_commit_def)
  qed (simp add: send_commit_def ok)
qed

lemma table_ok_empty [simp]: "table_ok bt_empty"
  by (simp add: table_ok_def)

lemma table_ok_import: "table_ok m \<Longrightarrow> table_ok (import_channels m records)"
  unfolding import_channels_def by (induction records arbitrary: m) (simp_all add: table_ok_insert)

text \<open>The queue that was opened first stays until it is rotated away.\<close>

lemma open_commit_first:
  assumes "bt_get m c = Some rec" and "qr_inbound rec = Some ids"
  shows "fst (open_commit m c ids') = m"
  using assms by (simp add: open_commit_def live_def)

section \<open>The table on disk\<close>

lemma export_wf:
  assumes "table_ok m"
  shows "export_channels m = bt_values m"
proof -
  have "map qr_channel (bt_values m) = bt_keys m"
    unfolding bt_values_def bt_keys_def map_map
    using assms by (auto simp: table_ok_def bt.entries_iff)
  moreover have "sorted (bt_keys m)"
    using bt_entries_sorted [of m] unfolding keys_sorted_def bt_keys_def
    by (simp add: strict_sorted_imp_sorted)
  ultimately show ?thesis unfolding export_channels_def by (metis sort_key_id_if_sorted)
qed

lemma import_as_bt_of_list:
  "import_channels bt_empty records = bt_of_list (map (\<lambda>rec. (qr_channel rec, rec)) records)"
proof -
  have "import_channels m records
      = foldl (\<lambda>m (k, v). bt_insert k v m) m (map (\<lambda>rec. (qr_channel rec, rec)) records)" for m
    unfolding import_channels_def by (induction records arbitrary: m) simp_all
  then show ?thesis by (simp add: bt_of_list_def)
qed

lemma import_export: "table_ok m \<Longrightarrow> import_channels bt_empty (export_channels m) = m"
  by (simp add: export_wf import_as_bt_of_list bt_rebuild table_ok_def)

text \<open>Restoring into a fresh transport; reading the records back cannot fail.\<close>

interpretation channel_disk: snapshot export_channels "\<lambda>records. Inr (import_channels bt_empty records)"
    table_ok
  by unfold_locales (simp add: import_export)

section \<open>The port\<close>

definition sund_gone :: "'w sund_state \<Rightarrow> string \<Rightarrow> bool" where
  "sund_gone p c \<longleftrightarrow> (\<exists>ids. retired_as (sx_channels (fst p)) c ids)"

text \<open>An operation leaves the device alone and takes at most one step on the table.\<close>

definition moves :: "'w sund_state \<Rightarrow> 'w sund_state \<Rightarrow> bool" where
  "moves p p' \<longleftrightarrow> sx_device (fst p') = sx_device (fst p) \<and>
     (sx_channels (fst p') = sx_channels (fst p) \<or> table_step (sx_channels (fst p)) (sx_channels (fst p')))"

lemma moves_refl [simp]: "moves p p" "moves p (fst p, w')"
  by (simp_all add: moves_def)

lemma moves_with_table:
  "table_step (sx_channels (fst p)) (fst q) \<Longrightarrow> moves p (fst (with_table (fst p) q w'))"
  by (simp add: moves_def with_table_def)

lemma open_moves: "moves p (fst (sund_open p c))"
  by (auto simp: sund_open_def case_prod_beta Let_def intro!: moves_with_table st_open split: sum.split)

lemma retire_moves: "moves p (fst (sund_retire p c))"
  by (auto simp: sund_retire_def case_prod_beta Let_def intro!: moves_with_table st_retire split: sum.split)

lemma rotate_moves: "moves p (fst (rotate_inbound p c seed))"
  by (auto simp: rotate_inbound_def case_prod_beta Let_def intro!: moves_with_table st_rotate split: sum.split)

lemma send_moves: "moves p (fst (sund_send p c m))"
  by (auto simp: sund_send_def case_prod_beta Let_def intro!: moves_with_table st_send split: sum.split)

lemma ack_moves: "moves p (fst (acknowledge_all p c ids))"
  by (auto simp: acknowledge_all_def case_prod_beta Let_def split: sum.split)

lemma subscribe_moves: "moves p (fst (sund_subscribe now p c))"
  by (auto simp: sund_subscribe_def case_prod_beta Let_def split: sum.split)

lemma moves_gone: "moves p p' \<Longrightarrow> sund_gone p c \<Longrightarrow> sund_gone p' c"
  unfolding moves_def sund_gone_def using step_retired by metis

lemma sund_retire_gone: "sund_retire p c = (p', Inr ()) \<Longrightarrow> sund_gone p' c"
  by (auto simp: sund_retire_def with_table_def retire_commit_def sund_gone_def retired_as_def
      split: prod.splits sum.splits option.splits)

text \<open>Sending on a retired channel asks the server nothing.\<close>

lemma sund_send_gone: "sund_gone p c \<Longrightarrow> sund_send p c m = (p, Inl (TeRetired c))"
  by (auto simp: sund_gone_def retired_as_def sund_send_def live_def split: prod.splits)

interpretation sund: retiring_port sund_port sund_gone
proof
  fix t t' :: "'w sund_state" and c c' i :: string and m :: outbound
    and r :: "transport_error + unit" and sr :: "transport_error + string"
  show "po_retire sund_port t c = (t', Inr ()) \<Longrightarrow> sund_gone t' c"
    by (simp add: sund_retire_gone)
  show "po_open sund_port t c' = (t', r) \<Longrightarrow> sund_gone t c \<Longrightarrow> sund_gone t' c"
    using moves_gone [OF open_moves [of t c']] by simp
  show "po_retire sund_port t c' = (t', r) \<Longrightarrow> sund_gone t c \<Longrightarrow> sund_gone t' c"
    using moves_gone [OF retire_moves [of t c']] by simp
  show "po_send sund_port t c' m = (t', sr) \<Longrightarrow> sund_gone t c \<Longrightarrow> sund_gone t' c"
    using moves_gone [OF send_moves [of t c' m]] by simp
  show "po_ack sund_port t c' i = (t', r) \<Longrightarrow> sund_gone t c \<Longrightarrow> sund_gone t' c"
    using moves_gone [OF ack_moves [of t c' "[i]"]] by (simp add: sund_ack_def)
  show "po_send sund_port t c m = (t', sr) \<Longrightarrow> sund_gone t c \<Longrightarrow> sr = Inl (TeRetired c)"
    by (simp add: sund_send_gone)
qed

section \<open>What the server sees\<close>

text \<open>
  The requests of a run of the port: creating a queue names the device, and nothing else does.
\<close>

definition port_request :: "'w device_client \<Rightarrow> http_request \<Rightarrow> bool" where
  "port_request dc rq \<longleftrightarrow>
     hr_path rq = ''/v1/queues''
       \<and> attributed (sc_crypto (dc_client dc)) (dc_device_id dc) (dc_key dc) rq
     \<or> (\<exists>key. anonymous (sc_crypto (dc_client dc)) key rq)"

definition offers_key :: "http_request \<Rightarrow> bool" where
  "offers_key rq \<longleftrightarrow> header ''Sund-Sender-Key'' rq \<noteq> None"

definition all_requests :: "(http_request \<Rightarrow> bool) \<Rightarrow> http_request list \<Rightarrow> http_request list \<Rightarrow> bool" where
  "all_requests P before after \<longleftrightarrow> (\<exists>rqs. after = before @ rqs \<and> (\<forall>rq \<in> set rqs. P rq))"

lemma all_requests_refl [simp]: "all_requests P l l"
  by (simp add: all_requests_def)

lemma all_requests_trans: "all_requests P l l' \<Longrightarrow> all_requests P l' l'' \<Longrightarrow> all_requests P l l''"
  by (fastforce simp: all_requests_def)

lemma asks_all: "asks P l l' \<Longrightarrow> all_requests P l l'"
  by (auto simp: asks_def all_requests_def)

lemma signed_request_other:
  "n \<notin> {''Sund-Device-Id'', ''Sund-Timestamp'', ''Sund-Nonce'', ''Sund-Signature''} \<Longrightarrow>
     header n (signed_request cr rq key d st) = header n rq"
  by (simp add: signed_request_def Let_def split: option.split)

context traced
begin

lemma create_queue_asks:
  assumes "sc_wiring (dc_client dc) = wi" and "signs_correctly (sc_crypto (dc_client dc))"
  shows "asks (port_request dc) (seen w) (seen (fst (create_queue dc w pk)))"
proof -
  have "asks (port_request dc) (seen v) (seen (fst (signed_call dc v (json_request MtPost ''/v1/queues'' body))))"
    for v body
    using assms signed_request_device signed_request_verifies unfolding signed_call_def
    by (intro perform_signed_asks) (simp_all add: port_request_def attributed_def unsigned_yet_def)
  then show ?thesis by (auto simp: create_queue_def wbind_def split: sum.split)
qed

lemma transport_call_port:
  assumes "transport_call (dc_client dc) key w w'" and "sc_wiring (dc_client dc) = wi"
    and "signs_correctly (sc_crypto (dc_client dc))"
  shows "asks (port_request dc) (seen w) (seen w')"
  by (rule asks_mono [OF transport_call_asks [OF assms]]) (auto simp: port_request_def)

lemma retire_inbound_asks:
  assumes "sc_wiring (dc_client (sx_device t)) = wi"
    and "signs_correctly (sc_crypto (dc_client (sx_device t)))"
  shows "asks (port_request (sx_device t)) (seen w) (seen (fst (retire_inbound t w c ids)))"
proof (cases ids)
  case (Some i)
  have "asks (port_request (sx_device t)) (seen w)
      (seen (fst (retire_queue (dc_client (sx_device t)) w (qi_recipient_id i) key)))" for key
    using transport_call_port [OF transport_call.intros(4) assms] by (metis prod.collapse)
  then show ?thesis using Some
    by (auto simp: retire_inbound_def wbind_def case_prod_beta Let_def split: sum.split)
qed (simp add: retire_inbound_def)

definition wired :: "'w sund_state \<Rightarrow> bool" where
  "wired p \<longleftrightarrow> sc_wiring (dc_client (sx_device (fst p))) = wi
     \<and> signs_correctly (sc_crypto (dc_client (sx_device (fst p))))"

abbreviation sees :: "'w sund_state \<Rightarrow> 'w sund_state \<Rightarrow> bool" where
  "sees p p' \<equiv> all_requests (port_request (sx_device (fst p))) (seen (snd p)) (seen (snd p'))"

lemma create_step:
  assumes "wired p"
  shows "all_requests (port_request (sx_device (fst p))) (seen w)
    (seen (fst (sund_create_queue (fst p) w seed)))"
  using create_queue_asks assms
  by (auto simp: sund_create_queue_def wired_def case_prod_beta Let_def intro: asks_all)

lemma retire_step:
  assumes "wired p"
  shows "all_requests (port_request (sx_device (fst p))) (seen w)
    (seen (fst (retire_inbound (fst p) w c ids)))"
  using retire_inbound_asks assms by (auto simp: wired_def intro: asks_all)

lemma call_step:
  assumes "wired p" and "transport_call (dc_client (sx_device (fst p))) key w w'"
  shows "all_requests (port_request (sx_device (fst p))) (seen w) (seen w')"
  using transport_call_port [OF assms(2)] assms(1) by (auto simp: wired_def intro: asks_all)

lemma snd_with_table [simp]: "snd (fst (with_table t q w)) = w"
  by (simp add: with_table_def)

lemma open_sees: "wired p \<Longrightarrow> sees p (fst (sund_open p c))"
  using create_step [of p "snd p"]
  by (auto simp: sund_open_def case_prod_beta Let_def split: sum.split)

lemma retire_sees: "wired p \<Longrightarrow> sees p (fst (sund_retire p c))"
  using retire_step [of p "snd p" c]
  by (auto simp: sund_retire_def case_prod_beta Let_def split: sum.split)

lemma rotate_sees: "wired p \<Longrightarrow> sees p (fst (rotate_inbound p c seed))"
  using retire_step [of p "snd p" c] create_step [of p] all_requests_trans
  by (fastforce simp: rotate_inbound_def case_prod_beta Let_def split: sum.split)

lemma send_sees: "wired p \<Longrightarrow> sees p (fst (sund_send p c m))"
  using call_step [OF _ transport_call.intros(1) [OF prod.collapse [symmetric]], of p "snd p"]
  by (auto simp: sund_send_def case_prod_beta Let_def split: sum.split)

lemma ack_sees: "wired p \<Longrightarrow> sees p (fst (acknowledge_all p c ids))"
  using call_step [OF _ transport_call.intros(3) [OF prod.collapse [symmetric]], of p "snd p"]
  by (auto simp: acknowledge_all_def case_prod_beta Let_def split: sum.split)

lemma subscribe_sees: "wired p \<Longrightarrow> sees p (fst (sund_subscribe now p c))"
  using call_step [OF _ transport_call.intros(2) [OF prod.collapse [symmetric]], of p "snd p"]
  by (auto simp: sund_subscribe_def case_prod_beta Let_def split: sum.split)

lemma used_device:
  assumes "retiring_port.used sund_port p p'"
  shows "sx_device (fst p') = sx_device (fst p)"
  using assms
proof (cases rule: sund.used.cases)
  case (used_open c r)
  then show ?thesis using open_moves [of p c] by (simp add: moves_def)
next
  case (used_retire c r)
  then show ?thesis using retire_moves [of p c] by (simp add: moves_def)
next
  case (used_send c m sr)
  then show ?thesis using send_moves [of p c m] by (simp add: moves_def)
next
  case (used_ack c i r)
  then show ?thesis using ack_moves [of p c "[i]"] by (simp add: moves_def sund_ack_def)
qed

lemma used_sees:
  assumes "retiring_port.used sund_port p p'" and w: "wired p"
  shows "sees p p'"
  using assms(1)
proof (cases rule: sund.used.cases)
  case (used_open c r)
  then show ?thesis using open_sees [OF w, of c] by simp
next
  case (used_retire c r)
  then show ?thesis using retire_sees [OF w, of c] by simp
next
  case (used_send c m sr)
  then show ?thesis using send_sees [OF w, of c m] by simp
next
  case (used_ack c i r)
  then show ?thesis using ack_sees [OF w, of c "[i]"] by (simp add: sund_ack_def)
qed

lemma run_sees:
  assumes "(retiring_port.used sund_port)\<^sup>*\<^sup>* p p'" and "wired p"
  shows "sees p p' \<and> sx_device (fst p') = sx_device (fst p)"
  using assms(1)
proof (induction rule: rtranclp_induct)
  case (step q q')
  then have "wired q" using assms(2) by (simp add: wired_def)
  with step used_sees used_device all_requests_trans show ?case by metis
qed simp

end

section \<open>One queue, one sender key\<close>

text \<open>The peer queue of a channel and whether our key is bound to it.\<close>

definition bound_to :: "channel_table \<Rightarrow> string \<Rightarrow> string \<Rightarrow> bytes \<Rightarrow> bool" where
  "bound_to m c sender_id seed \<longleftrightarrow>
     (\<exists>rec. bt_get m c = Some rec
        \<and> qr_outbound rec = Some \<lparr>oq_sender_id = sender_id, oq_sender_seed = seed, oq_bound = True\<rparr>)"

lemma bound_open: "bound_to m c s k \<Longrightarrow> bound_to (fst (open_commit m c' ids)) c s k"
  by (auto simp: bound_to_def open_commit_def live_def split: option.split)

lemma bound_retire: "bound_to m c s k \<Longrightarrow> bound_to (fst (retire_commit m c')) c s k"
  by (auto simp: bound_to_def retire_commit_def split: option.split)

lemma bound_rotate: "bound_to m c s k \<Longrightarrow> bound_to (fst (rotate_commit m c' seed ids)) c s k"
  by (auto simp: bound_to_def rotate_commit_def live_def split: option.split)

lemma bound_send: "bound_to m c s k \<Longrightarrow> bound_to (send_commit m c' sent) c s k"
  by (auto simp: bound_to_def send_commit_def split: option.split)

lemma bound_declare: "bound_to m c s k \<Longrightarrow> bound_to (declare_channel m c' seed) c s k"
  by (auto simp: bound_to_def declare_channel_def split: option.split)

lemma used_bound:
  assumes "retiring_port.used sund_port p p'" and "bound_to (sx_channels (fst p)) c s k"
  shows "bound_to (sx_channels (fst p')) c s k"
  using assms(1)
proof (cases rule: sund.used.cases)
  case (used_open c' r)
  then have "p' = fst (sund_open p c')" by simp
  then show ?thesis using assms(2)
    by (auto simp: sund_open_def with_table_def case_prod_beta Let_def bound_open split: sum.split)
next
  case (used_retire c' r)
  then have "p' = fst (sund_retire p c')" by simp
  then show ?thesis using assms(2)
    by (auto simp: sund_retire_def with_table_def case_prod_beta Let_def bound_retire split: sum.split)
next
  case (used_send c' m sr)
  then have "p' = fst (sund_send p c' m)" by simp
  then show ?thesis using assms(2)
    by (auto simp: sund_send_def with_table_def case_prod_beta Let_def bound_send split: sum.split)
next
  case (used_ack c' i r)
  then have "p' = fst (acknowledge_all p c' [i])" by (simp add: sund_ack_def)
  then show ?thesis using assms(2)
    by (auto simp: acknowledge_all_def case_prod_beta Let_def split: sum.split)
qed

lemma run_bound:
  "(retiring_port.used sund_port)\<^sup>*\<^sup>* p p' \<Longrightarrow> bound_to (sx_channels (fst p)) c s k
     \<Longrightarrow> bound_to (sx_channels (fst p')) c s k"
  by (induction rule: rtranclp_induct) (auto intro: used_bound)

text \<open>A send that succeeds leaves the key bound.\<close>

lemma send_binds:
  assumes "sund_send p c m = (p', Inr i)"
  shows "\<exists>s k. bound_to (sx_channels (fst p')) c s k
    \<and> (\<exists>rec oq. bt_get (sx_channels (fst p)) c = Some rec \<and> qr_outbound rec = Some oq
          \<and> oq_sender_id oq = s \<and> oq_sender_seed oq = k)"
proof -
  obtain rec oq where l: "live (sx_channels (fst p)) c = Inr rec" and q: "qr_outbound rec = Some oq"
    and p': "sx_channels (fst p') = send_commit (sx_channels (fst p)) c oq"
    using assms
    by (auto simp: sund_send_def with_table_def rbind_Inr_iff rbind_Inl_iff ok_or_def
        split: prod.splits sum.splits option.splits)
  have "bound_to (sx_channels (fst p')) c (oq_sender_id oq) (oq_sender_seed oq)"
    using l q unfolding p' by (cases oq) (auto simp: bound_to_def send_commit_def live_Inr)
  with l q show ?thesis by (auto simp: live_Inr)
qed

context traced
begin

lemma send_to_queue_offer:
  assumes "sc_wiring sc = wi"
  shows "asks (\<lambda>rq. offers_key rq = qm_bind_sender_key m) (seen w) (seen (fst (send_to_queue sc w s key m)))"
proof -
  have "asks (\<lambda>rq. offers_key rq = qm_bind_sender_key m) (seen v)
      (seen (fst (perform_signed sc v (if qm_bind_sender_key m
         then with_header (json_request MtPost path body) ''Sund-Sender-Key'' h
         else json_request MtPost path body) key None)))" for v path body h
    by (rule perform_signed_asks [OF assms]) (simp add: offers_key_def signed_request_other)
  then show ?thesis by (auto simp: send_to_queue_def wbind_def Let_def split: sum.split)
qed

lemma send_offers:
  assumes "sc_wiring (dc_client (sx_device (fst p))) = wi"
    and "bt_get (sx_channels (fst p)) c = Some rec" and "qr_outbound rec = Some oq"
  shows "asks (\<lambda>rq. offers_key rq = (\<not> oq_bound oq)) (seen (snd p)) (seen (snd (fst (sund_send p c m))))"
proof -
  let ?m = "\<lparr>qm_payload = ob_ciphertext m, qm_ttl = ob_ttl m, qm_priority = (ob_priority m = PrHigh),
      qm_bind_sender_key = \<not> oq_bound oq\<rparr>"
  have "asks (\<lambda>rq. offers_key rq = (\<not> oq_bound oq)) (seen (snd p))
      (seen (fst (send_to_queue (dc_client (sx_device (fst p))) (snd p) (oq_sender_id oq)
        (device_from_seed (oq_sender_seed oq)) ?m)))"
    using send_to_queue_offer [OF assms(1), of ?m] by simp
  then show ?thesis using assms(2,3)
    by (auto simp: sund_send_def live_def case_prod_beta Let_def split: sum.split)
qed

text \<open>Once a send has succeeded, no later one on that peer queue offers the key again.\<close>

lemma offered_once:
  assumes "sc_wiring (dc_client (sx_device (fst p))) = wi"
    and "sund_send p c m = (p1, Inr i)" and run: "(retiring_port.used sund_port)\<^sup>*\<^sup>* p1 p2"
  shows "asks (\<lambda>rq. \<not> offers_key rq) (seen (snd p2)) (seen (snd (fst (sund_send p2 c m'))))"
proof -
  obtain s k where "bound_to (sx_channels (fst p1)) c s k" using send_binds [OF assms(2)] by blast
  then have "bound_to (sx_channels (fst p2)) c s k" by (rule run_bound [OF run])
  then obtain rec where r: "bt_get (sx_channels (fst p2)) c = Some rec"
    "qr_outbound rec = Some \<lparr>oq_sender_id = s, oq_sender_seed = k, oq_bound = True\<rparr>"
    by (auto simp: bound_to_def)
  have "sx_device (fst p1) = sx_device (fst p)"
    using send_moves [of p c m] assms(2) by (simp add: moves_def)
  moreover have "sx_device (fst p2) = sx_device (fst p1)" using run
    by (induction rule: rtranclp_induct) (simp_all add: used_device)
  ultimately have "sc_wiring (dc_client (sx_device (fst p2))) = wi" using assms(1) by simp
  from send_offers [OF this r] show ?thesis by simp
qed

end

section \<open>Errors of the queue server\<close>

text \<open>Which answer of the server the port reports as what.\<close>

lemma send_error:
  assumes "live (sx_channels t) c = Inr rec" and "qr_outbound rec = Some oq"
    and "snd (send_to_queue (dc_client (sx_device t)) w (oq_sender_id oq) (device_from_seed (oq_sender_seed oq))
          \<lparr>qm_payload = ob_ciphertext m, qm_ttl = ob_ttl m, qm_priority = (ob_priority m = PrHigh),
           qm_bind_sender_key = \<not> oq_bound oq\<rparr>) = Inl e"
  shows "snd (sund_send (t, w) c m) = Inl (if e = SeNotFound then TeRetired c else TeBackend (display_sund_error e))"
    and "fst (fst (sund_send (t, w) c m)) = t"
  using assms
  by (auto simp: sund_send_def case_prod_beta channel_error_def backend_def split: sum.splits sund_error.splits)


lemma sund_send_retired_iff:
  "snd (sund_send (t, w) c m) = Inl (TeRetired c') \<longleftrightarrow> c' = c \<and>
     (\<exists>rec. bt_get (sx_channels t) c = Some rec \<and> (qr_retired rec \<or>
        (\<exists>oq. qr_outbound rec = Some oq \<and>
           snd (send_to_queue (dc_client (sx_device t)) w (oq_sender_id oq) (device_from_seed (oq_sender_seed oq))
             \<lparr>qm_payload = ob_ciphertext m, qm_ttl = ob_ttl m, qm_priority = (ob_priority m = PrHigh),
              qm_bind_sender_key = \<not> oq_bound oq\<rparr>) = Inl SeNotFound)))"
  by (auto simp: sund_send_def live_def with_table_def channel_error_def backend_def case_prod_beta ok_or_def
      split: option.splits sum.split sund_error.split)

text \<open>A retired channel refuses every operation before it asks anything.\<close>

lemma gone_refuses:
  assumes "sund_gone p c"
  shows "sund_send p c m = (p, Inl (TeRetired c))" and "sund_open p c = (p, Inl (TeRetired c))"
    and "sund_retire p c = (p, Inl (TeRetired c))" and "sund_subscribe now p c = (p, Inl (TeRetired c))"
    and "rotate_inbound p c seed = (p, Inl (TeRetired c))"
    and "sund_ack p c i = (p, Inl (TeRetired c))"
  using assms
  by (auto simp: sund_gone_def retired_as_def sund_send_def sund_open_def sund_retire_def sund_subscribe_def
      rotate_inbound_def sund_ack_def acknowledge_all_def recipient_id_def live_def split: prod.splits)

end
