(* ===== verification/BeaconClient.thy ===== *)
theory BeaconClient
  imports Agent SundTransport Outbox Family
begin

text \<open>
  The facade the application holds (\<^verbatim>\<open>core/beacon-client/src\<close>): one error type over every layer's
  (\<^verbatim>\<open>error.rs\<close>), the two seeds (\<^verbatim>\<open>seeds.rs\<close>), the state blob (\<^verbatim>\<open>state.rs\<close>), the rows that are
  rendered (\<^verbatim>\<open>views.rs\<close>), and enrolling, reopening and listing (\<^verbatim>\<open>client.rs\<close>).
\<close>

section \<open>Errors\<close>

datatype client_error =
    CeServerIdentity string
  | CeNetwork string
  | CeUnauthorized
  | CeNotFound
  | CeServerRefused string
  | CeProtocol string
  | CeAddress string
  | CeState string
  | CeSession string
  | CeRoster string
  | CeTransport string
  | CeRng string

definition is_server_identity :: "client_error \<Rightarrow> bool" where
  "is_server_identity e = (case e of CeServerIdentity _ \<Rightarrow> True | _ \<Rightarrow> False)"

definition display_client_error :: "client_error \<Rightarrow> string" where
  "display_client_error e = (case e of
     CeServerIdentity detail \<Rightarrow> ''this is not the server you paired with: '' @ detail
   | CeNetwork detail \<Rightarrow> ''the server could not be reached: '' @ detail
   | CeUnauthorized \<Rightarrow> ''the server did not accept this device''
   | CeNotFound \<Rightarrow> ''not found''
   | CeServerRefused detail \<Rightarrow> ''the server refused: '' @ detail
   | CeProtocol detail \<Rightarrow> ''unexpected response from the server: '' @ detail
   | CeAddress detail \<Rightarrow> ''not a Sund address: '' @ detail
   | CeState detail \<Rightarrow> ''stored state could not be read: '' @ detail
   | CeSession detail \<Rightarrow> ''session state: '' @ detail
   | CeRoster detail \<Rightarrow> ''family membership: '' @ detail
   | CeTransport detail \<Rightarrow> ''transport: '' @ detail
   | CeRng detail \<Rightarrow> ''no secure random source: '' @ detail)"

definition from_http_error :: "http_error \<Rightarrow> client_error" where
  "from_http_error e = (case e of
     HeTls detail \<Rightarrow> CeServerIdentity detail
   | HeNetwork detail \<Rightarrow> CeNetwork detail
   | HeProtocol detail \<Rightarrow> CeProtocol detail)"

definition from_sund_error :: "sund_error \<Rightarrow> client_error" where
  "from_sund_error e = (case e of
     SeHttp h \<Rightarrow> from_http_error h
   | SeUnauthorized \<Rightarrow> CeUnauthorized
   | SeNotFound \<Rightarrow> CeNotFound
   | SeRejected detail \<Rightarrow> CeServerRefused detail
   | SeTooLarge \<Rightarrow> CeServerRefused (''the message is over the server'' @ [CHR 0x27] @ ''s size cap'')
   | SeQuotaExceeded \<Rightarrow> CeServerRefused (''the recipient'' @ [CHR 0x27] @ ''s account is over its storage quota'')
   | SeStatus status message \<Rightarrow> CeServerRefused (''HTTP '' @ dec_digits (unat status) @ '': '' @ message)
   | SeMalformed detail \<Rightarrow> CeProtocol detail)"

definition from_address_error :: "address_error \<Rightarrow> client_error" where
  "from_address_error e = CeAddress (display_address_error e)"

definition from_store_error :: "store_error \<Rightarrow> client_error" where
  "from_store_error e = CeSession (display_store_error e)"

definition from_session_error :: "session_error \<Rightarrow> client_error" where
  "from_session_error e = CeSession (display_session_error e)"

definition from_transport_error :: "transport_error \<Rightarrow> client_error" where
  "from_transport_error e = CeTransport (display_transport_error e)"

text \<open>A \<^verbatim>\<open>serde_json::Error\<close> is its text.\<close>

definition from_json_error :: "string \<Rightarrow> client_error" where
  "from_json_error e = CeState e"

section \<open>Seeds\<close>

definition seed_bytes :: nat where
  "seed_bytes = 32"

definition pickle_domain :: bytes where
  "pickle_domain = utf8 ''family-beacon/session-pickle/v1'' @ [0]"

record seeds =
  ks_device :: bytes
  ks_identity :: bytes

text \<open>\<^verbatim>\<open>fill\<close> is \<^verbatim>\<open>getrandom::fill\<close> on a buffer of the given length, over the platform's state.\<close>

definition seeds_generate :: "('g \<Rightarrow> nat \<Rightarrow> 'g \<times> (string + bytes)) \<Rightarrow> 'g \<Rightarrow> 'g \<times> (client_error + seeds)" where
  "seeds_generate fill g =
     wbind (let (g, r) = fill g seed_bytes in (g, map_err CeRng r)) (\<lambda>g device.
     wbind (let (g, r) = fill g seed_bytes in (g, map_err CeRng r)) (\<lambda>g identity.
       (g, Inr \<lparr>ks_device = device, ks_identity = identity\<rparr>)))"

definition seed_of_slice :: "bytes \<Rightarrow> string \<Rightarrow> client_error + bytes" where
  "seed_of_slice b which =
     (if length b = seed_bytes then Inr b
      else Inl (CeState (''the '' @ which @ '' seed is '' @ dec_digits (length b)
             @ '' bytes, and a seed is '' @ dec_digits seed_bytes)))"

definition seeds_from_slices :: "bytes \<Rightarrow> bytes \<Rightarrow> client_error + seeds" where
  "seeds_from_slices device identity =
     rbind (seed_of_slice device ''device'') (\<lambda>d.
     rbind (seed_of_slice identity ''identity'') (\<lambda>i. Inr \<lparr>ks_device = d, ks_identity = i\<rparr>))"

definition seeds_device_key :: "seeds \<Rightarrow> device_key" where
  "seeds_device_key s = device_from_seed (ks_device s)"

definition seeds_identity_key :: "seeds \<Rightarrow> identity_key" where
  "seeds_identity_key s = identity_from_seed (ks_identity s)"

definition seeds_pickle_key :: "crypto \<Rightarrow> seeds \<Rightarrow> bytes" where
  "seeds_pickle_key cr s = cr_sha256 cr (pickle_domain @ ks_identity s)"

section \<open>The state blob\<close>

definition state_version :: u8 where
  "state_version = 1"

record client_state =
  cs_device_id :: string
  cs_account_id :: string
  cs_server :: string
  cs_roster :: roster_snapshot
  cs_sessions :: session_store
  cs_channels :: "channel_record list"
  cs_outbox :: outbox_snapshot

text \<open>\<^verbatim>\<open>serde_json\<close> on the state and on a signed bundle.\<close>

record state_codec =
  sj_state_to_vec :: "client_state \<Rightarrow> string + bytes"
  sj_state_from_slice :: "bytes \<Rightarrow> string + client_state"
  sj_bundle_to_vec :: "signed_bundle \<Rightarrow> string + bytes"

definition state_encode :: "state_codec \<Rightarrow> client_state \<Rightarrow> client_error + bytes" where
  "state_encode sj s =
     rbind (map_err from_json_error (sj_state_to_vec sj s)) (\<lambda>b. Inr (state_version # b))"

definition state_decode :: "state_codec \<Rightarrow> bytes \<Rightarrow> client_error + client_state" where
  "state_decode sj b =
     (case b of
        [] \<Rightarrow> Inl (CeState ''the stored state is empty'')
      | version # body \<Rightarrow>
          if version \<noteq> state_version
          then Inl (CeState (''stored state is version '' @ dec_digits (unat version)
                  @ '', and this build speaks '' @ dec_digits (unat state_version)))
          else map_err from_json_error (sj_state_from_slice sj body))"

section \<open>Rows\<close>

record member_row =
  mr_device_id :: string
  mr_identity_pk :: string
  mr_display_name :: string
  mr_member_group :: string
  mr_role :: string
  mr_joined_at :: string
  mr_introduced_by :: string
  mr_active :: bool
  mr_is_self :: bool

definition member_row_of :: "device_record \<Rightarrow> string \<Rightarrow> member_row" where
  "member_row_of d self_id =
     \<lparr>mr_device_id = dr_device_id d, mr_identity_pk = dr_identity_pk d,
      mr_display_name = dr_display_name d, mr_member_group = dr_member_group d,
      mr_role = dr_role d, mr_joined_at = dr_joined_at d, mr_introduced_by = dr_introduced_by d,
      mr_active = record_is_active d, mr_is_self = (dr_device_id d = self_id)\<rparr>"

record server_device_row =
  vr_device_id :: string
  vr_revoked :: bool
  vr_vouched :: bool
  vr_last_seen :: "system_time option"

definition server_row_of :: "server_device_record \<Rightarrow> bool \<Rightarrow> server_device_row" where
  "server_row_of d vouched =
     \<lparr>vr_device_id = sd_id d, vr_revoked = sd_revoked d, vr_vouched = vouched,
      vr_last_seen = sd_last_seen d\<rparr>"

section \<open>The client\<close>

record profile =
  pf_display_name :: string
  pf_member_group :: string
  pf_role :: string

record ('acc, 'ses, 'w) client =
  cl_address :: server_address
  cl_account_id :: string
  cl_device :: "'w device_client"
  cl_roster :: roster
  cl_sessions :: "('acc, 'ses) session_manager"
  cl_transport :: "'w sund_transport"
  cl_outbox :: outbox
  cl_pickle_key :: bytes

definition wmap_err :: "('e \<Rightarrow> 'f) \<Rightarrow> 'w \<times> ('e + 'a) \<Rightarrow> 'w \<times> ('f + 'a)" where
  "wmap_err f p = (fst p, map_err f (snd p))"

text \<open>
  \<^verbatim>\<open>enroll_with\<close>, over the client built from the wiring. Registering and publishing are its two
  requests; nothing is handed back unless both were accepted. The client it builds, and what it
  does once the server has named the device, are definitions of their own.
\<close>

definition founded_client ::
  "'w sund_client \<Rightarrow> server_address \<Rightarrow> enrolled \<Rightarrow> profile \<Rightarrow> seeds \<Rightarrow> system_time
     \<Rightarrow> ('acc, 'ses) session_manager \<Rightarrow> ('acc, 'ses, 'w) client applied"
where
  "founded_client sc address en pf sd now sessions =
     (let dc = sund_device sc (ed_device_id en) (seeds_device_key sd);
          founded = found (sc_crypto sc) \<lparr>me_device_id = ed_device_id en,
             me_display_name = pf_display_name pf, me_member_group = pf_member_group pf,
             me_role = pf_role pf, me_joined_at = format_rfc3339 now\<rparr> (seeds_identity_key sd)
      in applied
           \<lparr>cl_address = address, cl_account_id = ed_account_id en, cl_device = dc,
            cl_roster = ap_outcome founded, cl_sessions = sessions,
            cl_transport = sund_transport_new dc, cl_outbox = outbox_new,
            cl_pickle_key = seeds_pickle_key (sc_crypto sc) sd\<rparr> (ap_ledger founded))"

definition enroll_registered ::
  "('acc, 'ses) olm \<Rightarrow> state_codec \<Rightarrow> 'w sund_client \<Rightarrow> 'w \<Rightarrow> server_address \<Rightarrow> enrolled \<Rightarrow> profile
     \<Rightarrow> seeds \<Rightarrow> system_time \<Rightarrow> 'w \<times> (client_error + ('acc, 'ses, 'w) client applied)"
where
  "enroll_registered om sj sc w address en pf sd now =
     (let sessions = session_create om (ed_device_id en) (seeds_identity_key sd);
          (sessions, bundle) = publish_bundle (sc_crypto sc) om sessions (format_rfc3339 now)
      in wbind (w, map_err from_session_error bundle) (\<lambda>w bundle.
         wbind (w, map_err (\<lambda>e. CeSession (display_bundle_error e))
                     (bundle_encode (sj_bundle_to_vec sj) bundle)) (\<lambda>w encoded.
         wbind (wmap_err from_sund_error
                  (push_bundle (sund_device sc (ed_device_id en) (seeds_device_key sd)) w encoded)) (\<lambda>w _.
           (w, Inr (founded_client sc address en pf sd now sessions))))))"

definition enroll_with ::
  "('acc, 'ses) olm \<Rightarrow> state_codec \<Rightarrow> 'w sund_client \<Rightarrow> 'w \<Rightarrow> server_address \<Rightarrow> string \<Rightarrow> profile
     \<Rightarrow> seeds \<Rightarrow> system_time \<Rightarrow> 'w \<times> (client_error + ('acc, 'ses, 'w) client applied)"
where
  "enroll_with om sj sc w address invitation pf sd now =
     wbind (wmap_err from_sund_error (register_device sc w
         \<lparr>en_token = invitation,
          en_public_key = device_public_key (sc_crypto sc) (seeds_device_key sd),
          en_push_endpoint = [], en_capabilities = []\<rparr>)) (\<lambda>w en.
       enroll_registered om sj sc w address en pf sd now)"

definition client_restore ::
  "('acc, 'ses) olm \<Rightarrow> 'w sund_client \<Rightarrow> server_address \<Rightarrow> client_state \<Rightarrow> seeds
     \<Rightarrow> client_error + ('acc, 'ses, 'w) client"
where
  "client_restore om sc address st sd =
     (let cr = sc_crypto sc;
          k = seeds_identity_key sd;
          pickle_key = seeds_pickle_key cr sd
      in rbind (map_err from_store_error (store_import cr om (cs_sessions st) (cs_device_id st) k pickle_key))
           (\<lambda>sessions.
         rbind (map_err (\<lambda>e. CeState (display_snapshot_error e)) (roster_import (cs_roster st) (cs_device_id st)))
           (\<lambda>roster.
         if bt_get (ro_devices roster) (cs_device_id st) = None
         then Inl (CeState (''stored roster carries no record for `'' @ cs_device_id st @ ''`''))
         else
         rbind (map_err (\<lambda>e. CeState (display_outbox_snapshot_error e)) (outbox_import (cs_outbox st)))
           (\<lambda>outbox.
         (let dc = sund_device sc (cs_device_id st) (seeds_device_key sd);
              transport = sund_transport_new dc;
              transport = transport\<lparr>sx_channels := import_channels (sx_channels transport) (cs_channels st)\<rparr>
          in Inr \<lparr>cl_address = address, cl_account_id = cs_account_id st, cl_device = dc,
                  cl_roster = roster, cl_sessions = sessions, cl_transport = transport,
                  cl_outbox = outbox, cl_pickle_key = pickle_key\<rparr>)))))"

definition open_with ::
  "('acc, 'ses) olm \<Rightarrow> state_codec \<Rightarrow> 'w sund_client \<Rightarrow> bytes \<Rightarrow> seeds
     \<Rightarrow> client_error + ('acc, 'ses, 'w) client"
where
  "open_with om sj sc blob sd =
     rbind (state_decode sj blob) (\<lambda>st.
     rbind (map_err from_address_error (parse_address (cs_server st))) (\<lambda>address.
       client_restore om sc address st sd))"

text \<open>\<^verbatim>\<open>agent_for\<close>, \<^verbatim>\<open>enroll\<close> and \<^verbatim>\<open>open\<close>, with the shipping agent and stamps.\<close>

definition agent_for ::
  "rustls \<Rightarrow> 'w ureq \<Rightarrow> ('w \<Rightarrow> 'w \<times> stamp) \<Rightarrow> server_address \<Rightarrow> client_error + 'w wiring"
where
  "agent_for rl uq stamps address =
     rbind (map_err from_http_error (agent_new rl address)) (\<lambda>agent.
       Inr \<lparr>wi_execute = agent_execute rl uq agent, wi_stamp = stamps\<rparr>)"

definition sund_client_new :: "crypto \<Rightarrow> replies \<Rightarrow> 'w wiring \<Rightarrow> 'w sund_client" where
  "sund_client_new cr rp wi = \<lparr>sc_crypto = cr, sc_replies = rp, sc_wiring = wi\<rparr>"

definition client_enroll ::
  "rustls \<Rightarrow> 'w ureq \<Rightarrow> ('w \<Rightarrow> 'w \<times> stamp) \<Rightarrow> crypto \<Rightarrow> replies \<Rightarrow> ('acc, 'ses) olm \<Rightarrow> state_codec \<Rightarrow> 'w
     \<Rightarrow> string \<Rightarrow> string \<Rightarrow> profile \<Rightarrow> seeds \<Rightarrow> system_time
     \<Rightarrow> 'w \<times> (client_error + ('acc, 'ses, 'w) client applied)"
where
  "client_enroll rl uq stamps cr rp om sj w address invitation pf sd now =
     wbind (w, map_err from_address_error (parse_address address)) (\<lambda>w address.
     wbind (w, agent_for rl uq stamps address) (\<lambda>w wi.
       enroll_with om sj (sund_client_new cr rp wi) w address invitation pf sd now))"

definition client_open ::
  "rustls \<Rightarrow> 'w ureq \<Rightarrow> ('w \<Rightarrow> 'w \<times> stamp) \<Rightarrow> crypto \<Rightarrow> replies \<Rightarrow> ('acc, 'ses) olm \<Rightarrow> state_codec
     \<Rightarrow> bytes \<Rightarrow> seeds \<Rightarrow> client_error + ('acc, 'ses, 'w) client"
where
  "client_open rl uq stamps cr rp om sj blob sd =
     rbind (state_decode sj blob) (\<lambda>st.
     rbind (map_err from_address_error (parse_address (cs_server st))) (\<lambda>address.
     rbind (agent_for rl uq stamps address) (\<lambda>wi.
       client_restore om (sund_client_new cr rp wi) address st sd)))"

definition client_state_of :: "('acc, 'ses) olm \<Rightarrow> ('acc, 'ses, 'w) client \<Rightarrow> client_state" where
  "client_state_of om c =
     \<lparr>cs_device_id = dc_device_id (cl_device c), cs_account_id = cl_account_id c,
      cs_server = display_address (cl_address c), cs_roster = roster_export (cl_roster c),
      cs_sessions = store_export (sc_crypto (dc_client (cl_device c))) om (cl_sessions c) (cl_pickle_key c),
      cs_channels = export_channels (sx_channels (cl_transport c)),
      cs_outbox = outbox_export (cl_outbox c)\<rparr>"

definition client_snapshot ::
  "('acc, 'ses) olm \<Rightarrow> state_codec \<Rightarrow> ('acc, 'ses, 'w) client \<Rightarrow> client_error + bytes" where
  "client_snapshot om sj c = state_encode sj (client_state_of om c)"

section \<open>What is shown\<close>

text \<open>\<^verbatim>\<open>self_description\<close> panics where the roster has no record for the device: \<^verbatim>\<open>None\<close>.\<close>

definition client_self :: "('acc, 'ses, 'w) client \<Rightarrow> member_row option" where
  "client_self c =
     (let i = dc_device_id (cl_device c)
      in map_option (\<lambda>d. member_row_of d i) (bt_get (ro_devices (cl_roster c)) i))"

definition client_roster :: "('acc, 'ses, 'w) client \<Rightarrow> member_row list" where
  "client_roster c =
     (let i = dc_device_id (cl_device c);
          rows = map (\<lambda>d. member_row_of d i) (active (cl_roster c));
          gone = map (\<lambda>d. member_row_of d i)
                   (List.map_filter (\<lambda>t. bt_get (ro_devices (cl_roster c)) (ts_subject t)) (tombstones (cl_roster c)))
      in sort_key mr_device_id (rows @ gone))"

definition server_devices ::
  "('acc, 'ses, 'w) client \<Rightarrow> 'w \<Rightarrow> 'w \<times> (client_error + server_device_row list)" where
  "server_devices c w =
     wmap (wmap_err from_sund_error (list_devices (cl_device c) w)) (\<lambda>listed.
       Inr (map (\<lambda>d. server_row_of d (is_active (cl_roster c) (sd_id d))) listed))"

definition server_device_list ::
  "('acc, 'ses, 'w) client \<Rightarrow> 'w \<Rightarrow> 'w \<times> (client_error + server_device list)" where
  "server_device_list c w =
     wmap (wmap_err from_sund_error (list_devices (cl_device c) w)) (\<lambda>listed.
       Inr (map (\<lambda>d. \<lparr>sv_device_id = sd_id d, sv_revoked = sd_revoked d\<rparr>) listed))"

section \<open>The parts agree\<close>

text \<open>
  A client that belongs to a pair of seeds: one device id throughout, the keys the seeds give, and
  every layer's own invariant.
\<close>

definition client_wf :: "seeds \<Rightarrow> ('acc, 'ses, 'w) client \<Rightarrow> bool" where
  "client_wf sd c \<longleftrightarrow>
     (let cr = sc_crypto (dc_client (cl_device c)); i = dc_device_id (cl_device c)
      in address_ok (cl_address c) \<and> dc_key (cl_device c) = seeds_device_key sd
         \<and> cl_pickle_key c = seeds_pickle_key cr sd
         \<and> session_inv (cl_sessions c) \<and> identities_parse cr (cl_sessions c)
         \<and> sm_device_id (cl_sessions c) = i \<and> sm_identity (cl_sessions c) = seeds_identity_key sd
         \<and> roster_inv (cl_roster c) \<and> ro_self_id (cl_roster c) = i
         \<and> table_ok (sx_channels (cl_transport c)) \<and> sx_device (cl_transport c) = cl_device c)"

lemma wmap_err_simps [simp]: "fst (wmap_err f p) = fst p" "snd (wmap_err f p) = map_err f (snd p)"
  by (simp_all add: wmap_err_def)

lemma wbind_Inr_iff: "wbind p f = (w', Inr y) \<longleftrightarrow> (\<exists>w x. p = (w, Inr x) \<and> f w x = (w', Inr y))"
  by (auto simp: wbind_def split: prod.splits sum.splits)

lemma publish_bundle_fields:
  "publish_bundle cr om s t = (s', r) \<Longrightarrow>
     sm_device_id s' = sm_device_id s \<and> sm_identity s' = sm_identity s \<and> sm_peers s' = sm_peers s"
  by (auto simp: publish_bundle_def Let_def split: list.splits sum.splits if_splits)

lemma enroll_result:
  assumes "enroll_with om sj sc w address invitation pf sd now = (w', Inr a)"
  shows "\<exists>en sessions. a = founded_client sc address en pf sd now sessions
    \<and> sm_device_id sessions = ed_device_id en \<and> sm_identity sessions = seeds_identity_key sd
    \<and> sm_peers sessions = bt_empty"
proof -
  obtain w1 en where r: "enroll_registered om sj sc w1 address en pf sd now = (w', Inr a)"
    using assms by (auto simp: enroll_with_def wbind_Inr_iff)
  obtain sessions b where p: "publish_bundle (sc_crypto sc) om
      (session_create om (ed_device_id en) (seeds_identity_key sd)) (format_rfc3339 now) = (sessions, b)"
    by fastforce
  have "a = founded_client sc address en pf sd now sessions"
    using r unfolding enroll_registered_def Let_def p case_prod_conv wbind_Inr_iff by blast
  then show ?thesis using publish_bundle_fields [OF p] by (auto simp: session_create_def)
qed

lemma found_self: "ro_self_id (ap_outcome (found cr me k)) = me_device_id me"
  by (simp add: found_def Let_def)

lemma enroll_wf:
  assumes "enroll_with om sj sc w address invitation pf sd now = (w', Inr a)" and "address_ok address"
  shows "client_wf sd (ap_outcome a)"
  using enroll_result [OF assms(1)] assms(2)
  by (auto simp: client_wf_def founded_client_def Let_def found_inv found_self sund_transport_new_def
      sund_device_def session_inv_def identities_parse_def)

text \<open>The family is the device alone, and the ledger says it joined.\<close>

lemma enroll_family:
  assumes "enroll_with om sj sc w address invitation pf sd now = (w', Inr a)"
  shows "is_active (cl_roster (ap_outcome a)) i \<longleftrightarrow> i = dc_device_id (cl_device (ap_outcome a))"
    and "ap_ledger a = [le_local (dc_device_id (cl_device (ap_outcome a)))
      (EvDeviceJoined (dc_device_id (cl_device (ap_outcome a))))]"
  using enroll_result [OF assms]
  by (auto simp: founded_client_def Let_def found_def sund_device_def is_active_def record_is_active_def
      split: if_splits option.splits)

section \<open>Closing and reopening\<close>

definition codec_reads_back :: "state_codec \<Rightarrow> bool" where
  "codec_reads_back sj \<longleftrightarrow> (\<forall>s b. sj_state_to_vec sj s = Inr b \<longrightarrow> sj_state_from_slice sj b = Inr s)"

lemma restore_state_of:
  assumes wf: "client_wf sd c" and olm: "olm_encodings om"
  shows "client_restore om (dc_client (cl_device c)) a (client_state_of om c) sd = Inr (c\<lparr>cl_address := a\<rparr>)"
proof -
  let ?cr = "sc_crypto (dc_client (cl_device c))" and ?i = "dc_device_id (cl_device c)"
  from wf have k: "dc_key (cl_device c) = seeds_device_key sd" and p: "cl_pickle_key c = seeds_pickle_key ?cr sd"
    and s: "session_inv (cl_sessions c)" "identities_parse ?cr (cl_sessions c)"
      "sm_device_id (cl_sessions c) = ?i" "sm_identity (cl_sessions c) = seeds_identity_key sd"
    and r: "roster_inv (cl_roster c)" "ro_self_id (cl_roster c) = ?i"
    and t: "table_ok (sx_channels (cl_transport c))" "sx_device (cl_transport c) = cl_device c"
    by (simp_all add: client_wf_def Let_def)
  have "store_import ?cr om (store_export ?cr om (cl_sessions c) (cl_pickle_key c)) ?i
      (seeds_identity_key sd) (seeds_pickle_key ?cr sd) = Inr (cl_sessions c)"
    using store_import_export [OF olm s(1,2)] s(3,4) p by simp
  moreover have "roster_import (roster_export (cl_roster c)) ?i = Inr (cl_roster c)"
    using roster_disk.restore_export r by blast
  moreover have "bt_get (ro_devices (cl_roster c)) ?i \<noteq> None"
    using r by (simp add: roster_inv_def bt_contains_def)
  moreover have "outbox_import (outbox_export (cl_outbox c)) = Inr (cl_outbox c)"
    by (rule outbox_disk.restore_export) simp
  moreover have "import_channels bt_empty (export_channels (sx_channels (cl_transport c)))
      = sx_channels (cl_transport c)"
    by (rule import_export [OF t(1)])
  moreover have "sund_device (dc_client (cl_device c)) ?i (seeds_device_key sd) = cl_device c"
    using k by (simp add: sund_device_def)
  moreover have "sund_transport_new (cl_device c)\<lparr>sx_channels := sx_channels (cl_transport c)\<rparr> = cl_transport c"
    using t(2) by (simp add: sund_transport_new_def)
  ultimately show ?thesis
    using p by (simp add: client_restore_def client_state_of_def Let_def) (simp add: sund_transport_new_def t)
qed

lemma decode_encode:
  assumes "codec_reads_back sj" and "state_encode sj st = Inr b"
  shows "state_decode sj b = Inr st"
  using assms by (auto simp: state_encode_def state_decode_def rbind_Inr_iff codec_reads_back_def)

text \<open>Reopening a snapshot gives the client back, unless its address is open-ended.\<close>

lemma reopen_iff:
  assumes wf: "client_wf sd c" and olm: "olm_encodings om" and codec: "codec_reads_back sj"
    and snap: "client_snapshot om sj c = Inr blob"
  shows "open_with om sj (dc_client (cl_device c)) blob sd = Inr c \<longleftrightarrow> \<not> open_ended (cl_address c)"
proof -
  have d: "state_decode sj blob = Inr (client_state_of om c)"
    using snap by (intro decode_encode [OF codec]) (simp add: client_snapshot_def)
  have s: "cs_server (client_state_of om c) = display_address (cl_address c)"
    by (simp add: client_state_of_def)
  have a: "parse_address (display_address (cl_address c)) = Inr (cl_address c) \<longleftrightarrow> \<not> open_ended (cl_address c)"
    using wf by (intro reparse_iff) (simp add: client_wf_def Let_def)
  show ?thesis
  proof (cases "parse_address (display_address (cl_address c))")
    case (Inl e)
    then show ?thesis using a by (simp add: open_with_def d s)
  next
    case (Inr b)
    have "c\<lparr>cl_address := b\<rparr> = c \<longleftrightarrow> b = cl_address c"
      by (metis client.select_convs(1) client.surjective client.update_convs(1))
    then show ?thesis using a Inr restore_state_of [OF wf olm] by (simp add: open_with_def d s)
  qed
qed

text \<open>What a blob must be for this device to open it.\<close>

lemma open_checks:
  assumes "open_with om sj sc blob sd = Inr c"
  shows "\<exists>st body. blob = state_version # body \<and> sj_state_from_slice sj body = Inr st
    \<and> parse_address (cs_server st) = Inr (cl_address c)
    \<and> ss_device_id (cs_sessions st) = cs_device_id st
    \<and> ss_identity_pk (cs_sessions st) = public_to_base64 (sc_crypto sc)
        (identity_public_key (sc_crypto sc) (seeds_identity_key sd))
    \<and> sn_self_id (cs_roster st) = cs_device_id st
    \<and> dc_device_id (cl_device c) = cs_device_id st"
proof -
  obtain st where d: "state_decode sj blob = Inr st" and a: "parse_address (cs_server st) = Inr (cl_address c)"
    and r: "client_restore om sc (cl_address c) st sd = Inr c"
    using assms by (auto simp: open_with_def client_restore_def Let_def rbind_Inr_iff split: if_splits)
  from d obtain body where b: "blob = state_version # body" "sj_state_from_slice sj body = Inr st"
    by (auto simp: state_decode_def split: list.splits if_splits)
  from r obtain s where s: "store_import (sc_crypto sc) om (cs_sessions st) (cs_device_id st)
      (seeds_identity_key sd) (seeds_pickle_key (sc_crypto sc) sd) = Inr s"
    and i: "\<exists>ro. roster_import (cs_roster st) (cs_device_id st) = Inr ro"
    by (auto simp: client_restore_def Let_def rbind_Inr_iff split: if_splits)
  have "sn_self_id (cs_roster st) = cs_device_id st"
    using i by (auto simp: roster_import_def split: if_splits)
  moreover have "dc_device_id (cl_device c) = cs_device_id st"
    using r by (auto simp: client_restore_def Let_def rbind_Inr_iff sund_device_def split: if_splits
        dest!: arg_cong [where f = "\<lambda>c. dc_device_id (cl_device c)"])
  ultimately show ?thesis using b a store_import_identity [OF s] by blast
qed

section \<open>What an error says\<close>

text \<open>An identity failure is reported for a TLS failure and for nothing else.\<close>

lemma identity_error_iff:
  "from_sund_error e = CeServerIdentity d \<longleftrightarrow> e = SeHttp (HeTls d)"
  by (auto simp: from_sund_error_def from_http_error_def split: sund_error.splits http_error.splits)

lemma list_devices_http:
  "snd (list_devices dc w) = Inl (SeHttp e) \<longleftrightarrow>
     snd (signed_call dc w (request_new MtGet ''/v1/devices'')) = Inl (SeHttp e)"
proof -
  have "collect_results (record_of_view cr) vs \<noteq> Inl (SeHttp e)" for cr vs
    by (induction vs)
      (auto simp: rbind_Inl_iff record_of_view_def decode_base64_def ok_or_def split: option.splits if_splits)
  then show ?thesis
    by (auto simp: list_devices_def rbind_Inl_iff parse_json_def map_err_Inl_iff)
qed

lemma signed_call_http:
  "snd (signed_call dc w rq) = Inl (SeHttp e) \<longleftrightarrow>
     (\<exists>w1 st. wi_stamp (sc_wiring (dc_client dc)) w = (w1, st)
        \<and> snd (wi_execute (sc_wiring (dc_client dc)) w1
            (signed_request (sc_crypto (dc_client dc)) rq (dc_key dc) (Some (dc_device_id dc)) st)) = Inl e)"
  by (auto simp: signed_call_def perform_signed_def perform_http split: prod.split)

lemma server_devices_identity:
  "snd (server_devices c w) = Inl (CeServerIdentity d) \<longleftrightarrow>
     (\<exists>w1 st. wi_stamp (sc_wiring (dc_client (cl_device c))) w = (w1, st)
        \<and> snd (wi_execute (sc_wiring (dc_client (cl_device c))) w1
            (signed_request (sc_crypto (dc_client (cl_device c))) (request_new MtGet ''/v1/devices'')
              (dc_key (cl_device c)) (Some (dc_device_id (cl_device c))) st)) = Inl (HeTls d))"
proof -
  have "snd (server_devices c w) = Inl (CeServerIdentity d) \<longleftrightarrow>
      snd (list_devices (cl_device c) w) = Inl (SeHttp (HeTls d))"
    by (auto simp: server_devices_def rbind_Inl_iff map_err_Inl_iff identity_error_iff
        eq_commute [of "CeServerIdentity d"])
  then show ?thesis by (simp add: list_devices_http signed_call_http)
qed

section \<open>The two lists\<close>

lemma is_active_iff: "is_active r i \<longleftrightarrow> (\<exists>d. bt_get (ro_devices r) i = Some d \<and> record_is_active d)"
  by (auto simp: is_active_def split: option.split)

lemma set_active:
  assumes "roster_inv r"
  shows "d \<in> set (active r) \<longleftrightarrow>
    bt_get (ro_devices r) (dr_device_id d) = Some d \<and> is_active r (dr_device_id d)"
proof -
  have "dr_device_id d = k" if "bt_get (ro_devices r) k = Some d" for k
    using roster_invD(1) [OF assms that] .
  then have "(\<exists>k. bt_get (ro_devices r) k = Some d) \<longleftrightarrow> bt_get (ro_devices r) (dr_device_id d) = Some d"
    by metis
  then show ?thesis by (auto simp: active_def set_bt_values is_active_iff)
qed


text \<open>The devices a member row is built for: those in the family and those removed from it.\<close>

definition shown :: "roster \<Rightarrow> string \<Rightarrow> bool" where
  "shown r i \<longleftrightarrow> is_active r i \<or> bt_contains (ro_tombstones r) i \<and> bt_contains (ro_devices r) i"

definition removed_records :: "roster \<Rightarrow> device_record list" where
  "removed_records r = List.map_filter (\<lambda>t. bt_get (ro_devices r) (ts_subject t)) (tombstones r)"

lemma active_ids:
  assumes "roster_inv r"
  shows "distinct (map dr_device_id (active r))" and "dr_device_id ` set (active r) = {i. is_active r i}"
proof -
  have ids: "map dr_device_id (bt_values (ro_devices r)) = bt_keys (ro_devices r)"
    unfolding bt_values_def bt_keys_def map_map
    using roster_invD(1) [OF assms] by (auto simp: bt.entries_iff)
  have "distinct (bt_keys (ro_devices r))"
    unfolding bt_keys_def by (rule keys_sorted_distinct) simp
  then show "distinct (map dr_device_id (active r))"
    unfolding active_def using ids by (metis distinct_map_filter)
  show "dr_device_id ` set (active r) = {i. is_active r i}"
    using roster_invD(1) [OF assms] set_active [OF assms]
    by (auto simp: is_active_iff image_iff) metis
qed

lemma removed_ids:
  assumes "roster_inv r"
  shows "distinct (map dr_device_id (removed_records r))"
    and "dr_device_id ` set (removed_records r)
      = {i. bt_contains (ro_tombstones r) i \<and> bt_contains (ro_devices r) i}"
proof -
  let ?g = "\<lambda>t. bt_get (ro_devices r) (ts_subject t)"
  have ts: "map ts_subject (tombstones r) = bt_keys (ro_tombstones r)"
    unfolding tombstones_def bt_values_def bt_keys_def map_map
    using roster_invD(2) [OF assms] by (auto simp: bt.entries_iff)
  have "distinct (bt_keys (ro_tombstones r))"
    unfolding bt_keys_def by (rule keys_sorted_distinct) simp
  then have d: "distinct (map ts_subject (tombstones r))" by (simp add: ts)
  have sub: "map dr_device_id (List.map_filter ?g xs) = filter (bt_contains (ro_devices r)) (map ts_subject xs)"
    for xs
    using roster_invD(1) [OF assms]
    by (induction xs) (auto simp: List.map_filter_simps bt_contains_def split: option.split)
  show "distinct (map dr_device_id (removed_records r))"
    unfolding removed_records_def sub using d by simp
  have "set (map dr_device_id (removed_records r))
      = set (filter (bt_contains (ro_devices r)) (bt_keys (ro_tombstones r)))"
    unfolding removed_records_def sub ts ..
  then show "dr_device_id ` set (removed_records r)
      = {i. bt_contains (ro_tombstones r) i \<and> bt_contains (ro_devices r) i}"
    by (auto simp: set_bt_keys)
qed

lemma row_ids: "map mr_device_id (map (\<lambda>d. member_row_of d i) ds) = map dr_device_id ds"
  by (simp add: member_row_of_def)

text \<open>
  The family as it is shown: one row for each device that is active or removed, in id order. A
  device the server revoked has a record that is neither, and no row.
\<close>

lemma client_roster_rows:
  assumes inv: "roster_inv (cl_roster c)"
  shows "sorted (map mr_device_id (client_roster c))" and "distinct (map mr_device_id (client_roster c))"
    and "mr_device_id ` set (client_roster c) = {i. shown (cl_roster c) i}"
    and "row \<in> set (client_roster c) \<Longrightarrow>
      mr_active row = is_active (cl_roster c) (mr_device_id row)
      \<and> mr_is_self row = (mr_device_id row = dc_device_id (cl_device c))"
proof -
  let ?r = "cl_roster c" and ?i = "dc_device_id (cl_device c)"
  let ?rows = "map (\<lambda>d. member_row_of d ?i) (active ?r @ removed_records ?r)"
  have c: "client_roster c = sort_key mr_device_id ?rows"
    by (simp add: client_roster_def Let_def removed_records_def)
  have ids: "map mr_device_id ?rows = map dr_device_id (active ?r) @ map dr_device_id (removed_records ?r)"
    unfolding row_ids by simp
  show "sorted (map mr_device_id (client_roster c))" unfolding c by simp
  have "{i. is_active ?r i} \<inter> {i. bt_contains (ro_tombstones ?r) i \<and> bt_contains (ro_devices ?r) i} = {}"
    using roster_invD(4) [OF inv] by auto
  then have "distinct (map mr_device_id ?rows)"
    unfolding ids using active_ids [OF inv] removed_ids [OF inv] by simp
  moreover have "mset (client_roster c) = mset ?rows" unfolding c by (rule mset_sort)
  then have "mset (map mr_device_id (client_roster c)) = mset (map mr_device_id ?rows)"
    by (simp only: mset_map)
  ultimately show "distinct (map mr_device_id (client_roster c))"
    by (metis mset_eq_imp_distinct_iff)
  have "set (map mr_device_id ?rows) = {i. shown ?r i}"
    unfolding ids using active_ids [OF inv] removed_ids [OF inv] by (auto simp: shown_def)
  then show "mr_device_id ` set (client_roster c) = {i. shown ?r i}"
    unfolding c set_sort by (simp only: set_map)
  show "mr_active row = is_active ?r (mr_device_id row) \<and> mr_is_self row = (mr_device_id row = ?i)"
    if "row \<in> set (client_roster c)"
  proof -
    from that obtain d where d: "d \<in> set (active ?r) \<or> d \<in> set (removed_records ?r)"
      and row: "row = member_row_of d ?i" unfolding c by auto
    have "bt_get (ro_devices ?r) (dr_device_id d) = Some d"
      using d set_active [OF inv] roster_invD(1) [OF inv]
      by (auto simp: removed_records_def List.map_filter_def split: option.splits)
    then show ?thesis by (simp add: row member_row_of_def is_active_def)
  qed
qed

text \<open>The server's list: a row is vouched for exactly when the roster has the device active.\<close>

lemma server_rows:
  assumes "server_devices c w = (w', Inr rows)"
  shows "\<exists>listed. list_devices (cl_device c) w = (w', Inr listed)
    \<and> map vr_device_id rows = map sd_id listed \<and> map vr_revoked rows = map sd_revoked listed
    \<and> (\<forall>row \<in> set rows. vr_vouched row = is_active (cl_roster c) (vr_device_id row))"
proof -
  obtain listed where l: "list_devices (cl_device c) w = (w', Inr listed)"
    and "rows = map (\<lambda>d. server_row_of d (is_active (cl_roster c) (sd_id d))) listed"
    using assms by (cases "list_devices (cl_device c) w")
      (auto simp: server_devices_def wmap_def wmap_err_def rbind_Inr_iff)
  then show ?thesis by (auto simp: server_row_of_def)
qed


section \<open>What enrolling asks of the server\<close>

context traced
begin

lemma register_seen:
  assumes "register_device sc w en = (w', Inr ed)" and "sc_wiring sc = wi"
  shows "\<exists>rq. seen w' = seen w @ [rq] \<and> hr_path rq = ''/v1/devices/register''
    \<and> header ''Sund-Device-Id'' rq = None \<and> header ''Sund-Signature'' rq = None"
proof -
  obtain body where b: "w' = fst (perform sc w (json_request MtPost ''/v1/devices/register'' body))"
    using assms(1) by (auto simp: register_device_def wbind_Inr_iff dest!: fst_wmapD)
  show ?thesis unfolding b perform_seen [OF assms(2)] by simp
qed

lemma push_bundle_seen:
  assumes "push_bundle dc w b = (w', Inr ())" and "sc_wiring (dc_client dc) = wi"
    and "signs_correctly (sc_crypto (dc_client dc))"
  shows "\<exists>rq. seen w' = seen w @ [rq] \<and> hr_path rq = ''/v1/me/bundle''
    \<and> attributed (sc_crypto (dc_client dc)) (dc_device_id dc) (dc_key dc) rq"
proof -
  obtain body where b: "w' = fst (perform_signed (dc_client dc) w (json_request MtPut ''/v1/me/bundle'' body)
      (dc_key dc) (Some (dc_device_id dc)))"
    using assms(1) by (auto simp: push_bundle_def signed_call_def wbind_Inr_iff dest!: fst_wmapD)
  obtain st where "seen w' = seen w @ [signed_request (sc_crypto (dc_client dc))
      (json_request MtPut ''/v1/me/bundle'' body) (dc_key dc) (Some (dc_device_id dc)) st]"
    unfolding b using perform_signed_seen [OF assms(2)] by blast
  then show ?thesis using assms(3) signed_request_device signed_request_verifies
    by (auto simp: attributed_def unsigned_yet_def)
qed

text \<open>Enrolling asks for the device anonymously and then publishes its bundle under the device's name.\<close>

lemma enroll_asks:
  assumes "enroll_with om sj sc w address invitation pf sd now = (w', Inr a)" and "sc_wiring sc = wi"
    and "signs_correctly (sc_crypto sc)"
  shows "\<exists>r1 r2. seen w' = seen w @ [r1, r2]
    \<and> hr_path r1 = ''/v1/devices/register'' \<and> header ''Sund-Device-Id'' r1 = None
    \<and> hr_path r2 = ''/v1/me/bundle''
    \<and> attributed (sc_crypto sc) (dc_device_id (cl_device (ap_outcome a))) (seeds_device_key sd) r2"
proof -
  obtain w1 en ed where r: "register_device sc w en = (w1, Inr ed)"
    and e: "enroll_registered om sj sc w1 address ed pf sd now = (w', Inr a)"
    using assms(1) by (auto simp: enroll_with_def wbind_Inr_iff wmap_err_def) (metis prod.collapse)
  obtain encoded sessions where p: "push_bundle (sund_device sc (ed_device_id ed) (seeds_device_key sd)) w1 encoded
      = (w', Inr ())" and a: "a = founded_client sc address ed pf sd now sessions"
    using e by (auto simp: enroll_registered_def Let_def wbind_Inr_iff wmap_err_def split: prod.splits)
      (metis prod.collapse)
  have "dc_device_id (cl_device (ap_outcome a)) = ed_device_id ed"
    by (simp add: a founded_client_def Let_def sund_device_def)
  moreover obtain r1 where "seen w1 = seen w @ [r1]" "hr_path r1 = ''/v1/devices/register''"
    "header ''Sund-Device-Id'' r1 = None"
    using register_seen [OF r assms(2)] by blast
  moreover obtain r2 where "seen w' = seen w1 @ [r2]" "hr_path r2 = ''/v1/me/bundle''"
    "attributed (sc_crypto sc) (ed_device_id ed) (seeds_device_key sd) r2"
    using push_bundle_seen [OF p] assms(2,3) by (auto simp: sund_device_def)
  ultimately show ?thesis by auto
qed

end

end
