(* ===== verification/Ffi.thy ===== *)
theory Ffi
  imports BeaconClient
begin

text \<open>
  The boundary the mobile application calls (\<^verbatim>\<open>core/beacon-ffi/src\<close>): the mirrored vocabulary of the
  activity log (\<^verbatim>\<open>ledger.rs\<close>), the mirrored error (\<^verbatim>\<open>error.rs\<close>), the value types (\<^verbatim>\<open>views.rs\<close>) and the
  exported object with the functions that make one (\<^verbatim>\<open>client.rs\<close>). The object's mutex is modelled by
  the one bit it has beside the client: whether a panic has poisoned it.
\<close>

section \<open>The activity log's vocabulary\<close>

datatype direction_view = DvInbound | DvOutbound | DvLocal

datatype message_type_view =
    VtLocation | VtBattery | VtSos | VtSosClear | VtAttention | VtGeofenceEvent
  | VtConsentUpdate | VtConfigUpdate | VtMemberInfo | VtRosterIntroduce | VtRosterRemove
  | VtRosterSync | VtChannelOffer | VtReceipt | VtUnknown string

fun view_of_message_type :: "message_type \<Rightarrow> message_type_view" where
  "view_of_message_type MtLocation = VtLocation"
| "view_of_message_type MtBattery = VtBattery"
| "view_of_message_type MtSos = VtSos"
| "view_of_message_type MtSosClear = VtSosClear"
| "view_of_message_type MtAttention = VtAttention"
| "view_of_message_type MtGeofenceEvent = VtGeofenceEvent"
| "view_of_message_type MtConsentUpdate = VtConsentUpdate"
| "view_of_message_type MtConfigUpdate = VtConfigUpdate"
| "view_of_message_type MtMemberInfo = VtMemberInfo"
| "view_of_message_type MtRosterIntroduce = VtRosterIntroduce"
| "view_of_message_type MtRosterRemove = VtRosterRemove"
| "view_of_message_type MtRosterSync = VtRosterSync"
| "view_of_message_type MtChannelOffer = VtChannelOffer"
| "view_of_message_type MtReceipt = VtReceipt"
| "view_of_message_type (MtUnknown wire_type) = VtUnknown wire_type"

datatype feature_view = VfLocation | VfBattery | VfGeofence | VfAttention | VfReceipts | VfUnknown string

fun view_of_feature :: "feature \<Rightarrow> feature_view" where
  "view_of_feature FtLocation = VfLocation"
| "view_of_feature FtBattery = VfBattery"
| "view_of_feature FtGeofence = VfGeofence"
| "view_of_feature FtAttention = VfAttention"
| "view_of_feature FtReceipts = VfReceipts"
| "view_of_feature (FtUnknown name) = VfUnknown name"

datatype deny_reason_view = VdNoGrant feature_view | VdNoInboundAllow feature_view | VdUnknownType string

fun view_of_deny_reason :: "deny_reason \<Rightarrow> deny_reason_view" where
  "view_of_deny_reason (NoGrant f) = VdNoGrant (view_of_feature f)"
| "view_of_deny_reason (NoInboundAllow f) = VdNoInboundAllow (view_of_feature f)"
| "view_of_deny_reason (DenyUnknownType wire_type) = VdUnknownType wire_type"

datatype reject_reason_view =
    VrMalformed string
  | VrUnsupportedVersion u8
  | VrEmptyField string
  | VrBodyNotObject
  | VrBadTimestamp string
  | VrSenderMismatch string string

fun view_of_reject_reason :: "reject_reason \<Rightarrow> reject_reason_view" where
  "view_of_reject_reason (RjMalformed detail) = VrMalformed detail"
| "view_of_reject_reason (RjUnsupportedVersion version) = VrUnsupportedVersion version"
| "view_of_reject_reason (RjEmptyField field) = VrEmptyField field"
| "view_of_reject_reason RjBodyNotObject = VrBodyNotObject"
| "view_of_reject_reason (RjBadTimestamp value) = VrBadTimestamp value"
| "view_of_reject_reason (RjSenderMismatch claimed authenticated) = VrSenderMismatch claimed authenticated"

datatype removal_reason_view = VmLeft | VmRemoved | VmLost

fun view_of_removal_reason :: "removal_reason \<Rightarrow> removal_reason_view" where
  "view_of_removal_reason RrLeft = VmLeft"
| "view_of_removal_reason RrRemoved = VmRemoved"
| "view_of_removal_reason RrLost = VmLost"

datatype ledger_event_view =
    VwReceived message_type_view
  | VwReceivedUnknownType string
  | VwRejected reject_reason_view
  | VwSent message_type_view
  | VwSendRefused message_type_view deny_reason_view
  | VwConsentChanged feature_view bool
  | VwPeerAdvertisedConsent feature_view bool
  | VwDeviceJoined string
  | VwDeviceRemoved string removal_reason_view
  | VwVouchRejected string
  | VwAdmissionHeld u32
  | VwAdmissionResolved bool
  | VwUnvouchedDeviceListed
  | VwEpochBumped u64
  | VwFamilySplit string
  | VwChannelEstablished bool
  | VwChannelOfferRefused string
  | VwLabelsChanged string string

text \<open>\<^verbatim>\<open>u32::try_from(n).unwrap_or(u32::MAX)\<close>.\<close>

definition saturating_u32 :: "nat \<Rightarrow> u32" where
  "saturating_u32 n = (if n < 2 ^ 32 then of_nat n else - 1)"

fun view_of_ledger_event :: "ledger_event \<Rightarrow> ledger_event_view" where
  "view_of_ledger_event (EvReceived m) = VwReceived (view_of_message_type m)"
| "view_of_ledger_event (EvReceivedUnknownType wire_type) = VwReceivedUnknownType wire_type"
| "view_of_ledger_event (EvRejected reason) = VwRejected (view_of_reject_reason reason)"
| "view_of_ledger_event (EvSent m) = VwSent (view_of_message_type m)"
| "view_of_ledger_event (EvSendRefused m reason) = VwSendRefused (view_of_message_type m) (view_of_deny_reason reason)"
| "view_of_ledger_event (EvConsentChanged f granted) = VwConsentChanged (view_of_feature f) granted"
| "view_of_ledger_event (EvPeerAdvertisedConsent f granted) = VwPeerAdvertisedConsent (view_of_feature f) granted"
| "view_of_ledger_event (EvDeviceJoined vouched_by) = VwDeviceJoined vouched_by"
| "view_of_ledger_event (EvDeviceRemoved removed_by reason) = VwDeviceRemoved removed_by (view_of_removal_reason reason)"
| "view_of_ledger_event (EvVouchRejected reason) = VwVouchRejected reason"
| "view_of_ledger_event (EvAdmissionHeld events) = VwAdmissionHeld (saturating_u32 events)"
| "view_of_ledger_event (EvAdmissionResolved admitted) = VwAdmissionResolved admitted"
| "view_of_ledger_event EvUnvouchedDeviceListed = VwUnvouchedDeviceListed"
| "view_of_ledger_event (EvEpochBumped epoch) = VwEpochBumped epoch"
| "view_of_ledger_event (EvFamilySplit counterpart) = VwFamilySplit counterpart"
| "view_of_ledger_event (EvChannelEstablished outbound) = VwChannelEstablished outbound"
| "view_of_ledger_event (EvChannelOfferRefused reason) = VwChannelOfferRefused reason"
| "view_of_ledger_event (EvLabelsChanged field value) = VwLabelsChanged field value"

record ledger_entry_view =
  lv_direction :: direction_view
  lv_peer :: string
  lv_message_id :: "string option"
  lv_event :: ledger_event_view

definition view_of_ledger_entry :: "ledger_entry \<Rightarrow> ledger_entry_view" where
  "view_of_ledger_entry e =
     \<lparr>lv_direction = (case le_direction e of Inbound \<Rightarrow> DvInbound | Outbound \<Rightarrow> DvOutbound | Local \<Rightarrow> DvLocal),
      lv_peer = le_peer e, lv_message_id = le_message_id e, lv_event = view_of_ledger_event (le_event e)\<rparr>"

section \<open>The error\<close>

datatype client_exception =
    CxServerIdentity string
  | CxNetwork string
  | CxUnauthorized
  | CxNotFound
  | CxServerRefused string
  | CxProtocol string
  | CxAddress string
  | CxState string
  | CxSession string
  | CxRoster string
  | CxTransport string
  | CxRng string

definition display_client_exception :: "client_exception \<Rightarrow> string" where
  "display_client_exception e = (case e of
     CxServerIdentity detail \<Rightarrow> ''this is not the server you paired with: '' @ detail
   | CxNetwork detail \<Rightarrow> ''the server could not be reached: '' @ detail
   | CxUnauthorized \<Rightarrow> ''the server did not accept this device''
   | CxNotFound \<Rightarrow> ''not found''
   | CxServerRefused detail \<Rightarrow> ''the server refused: '' @ detail
   | CxProtocol detail \<Rightarrow> ''unexpected response from the server: '' @ detail
   | CxAddress detail \<Rightarrow> ''not a Sund address: '' @ detail
   | CxState detail \<Rightarrow> ''stored state could not be read: '' @ detail
   | CxSession detail \<Rightarrow> ''session state: '' @ detail
   | CxRoster detail \<Rightarrow> ''family membership: '' @ detail
   | CxTransport detail \<Rightarrow> ''transport: '' @ detail
   | CxRng detail \<Rightarrow> ''no secure random source: '' @ detail)"

fun from_client_error :: "client_error \<Rightarrow> client_exception" where
  "from_client_error (CeServerIdentity detail) = CxServerIdentity detail"
| "from_client_error (CeNetwork detail) = CxNetwork detail"
| "from_client_error CeUnauthorized = CxUnauthorized"
| "from_client_error CeNotFound = CxNotFound"
| "from_client_error (CeServerRefused detail) = CxServerRefused detail"
| "from_client_error (CeProtocol detail) = CxProtocol detail"
| "from_client_error (CeAddress detail) = CxAddress detail"
| "from_client_error (CeState detail) = CxState detail"
| "from_client_error (CeSession detail) = CxSession detail"
| "from_client_error (CeRoster detail) = CxRoster detail"
| "from_client_error (CeTransport detail) = CxTransport detail"
| "from_client_error (CeRng detail) = CxRng detail"

section \<open>The values\<close>

record seeds_view =
  sw_device :: bytes
  sw_identity :: bytes

definition view_of_seeds :: "seeds \<Rightarrow> seeds_view" where
  "view_of_seeds s = \<lparr>sw_device = ks_device s, sw_identity = ks_identity s\<rparr>"

definition to_seeds :: "seeds_view \<Rightarrow> client_exception + seeds" where
  "to_seeds v = map_err from_client_error (seeds_from_slices (sw_device v) (sw_identity v))"

record profile_view =
  pv_display_name :: string
  pv_member_group :: string
  pv_role :: string

definition profile_of_view :: "profile_view \<Rightarrow> profile" where
  "profile_of_view p = \<lparr>pf_display_name = pv_display_name p, pf_member_group = pv_member_group p,
     pf_role = pv_role p\<rparr>"

record member_row_view =
  mv_device_id :: string
  mv_identity_pk :: string
  mv_display_name :: string
  mv_member_group :: string
  mv_role :: string
  mv_joined_at :: string
  mv_introduced_by :: string
  mv_active :: bool
  mv_is_self :: bool

definition view_of_member_row :: "member_row \<Rightarrow> member_row_view" where
  "view_of_member_row r =
     \<lparr>mv_device_id = mr_device_id r, mv_identity_pk = mr_identity_pk r,
      mv_display_name = mr_display_name r, mv_member_group = mr_member_group r,
      mv_role = mr_role r, mv_joined_at = mr_joined_at r, mv_introduced_by = mr_introduced_by r,
      mv_active = mr_active r, mv_is_self = mr_is_self r\<rparr>"

record server_device_row_view =
  rv_device_id :: string
  rv_revoked :: bool
  rv_vouched :: bool
  rv_last_seen :: "system_time option"

definition view_of_server_device_row :: "server_device_row \<Rightarrow> server_device_row_view" where
  "view_of_server_device_row r =
     \<lparr>rv_device_id = vr_device_id r, rv_revoked = vr_revoked r, rv_vouched = vr_vouched r,
      rv_last_seen = vr_last_seen r\<rparr>"

section \<open>The exported object\<close>

record ('acc, 'ses, 'w) beacon_client =
  bc_inner :: "('acc, 'ses, 'w) client"
  bc_poisoned :: bool

definition beacon_client_new :: "('acc, 'ses, 'w) client \<Rightarrow> ('acc, 'ses, 'w) beacon_client" where
  "beacon_client_new c = \<lparr>bc_inner = c, bc_poisoned = False\<rparr>"

text \<open>
  \<^verbatim>\<open>locked\<close>, for the body that runs under the guard. \<^verbatim>\<open>None\<close> is a panic: of \<^verbatim>\<open>locked\<close> itself when an
  earlier call panicked under the guard, and of the body, which poisons the mutex.
\<close>

definition locked ::
  "('acc, 'ses, 'w) beacon_client \<Rightarrow> (('acc, 'ses, 'w) client \<Rightarrow> 'r option)
     \<Rightarrow> ('acc, 'ses, 'w) beacon_client \<times> 'r option"
where
  "locked b f =
     (if bc_poisoned b then (b, None)
      else case f (bc_inner b) of
          None \<Rightarrow> (b\<lparr>bc_poisoned := True\<rparr>, None)
        | Some r \<Rightarrow> (b, Some r))"

definition ffi_snapshot ::
  "('acc, 'ses) olm \<Rightarrow> state_codec \<Rightarrow> ('acc, 'ses, 'w) beacon_client
     \<Rightarrow> ('acc, 'ses, 'w) beacon_client \<times> (client_exception + bytes) option"
where
  "ffi_snapshot om sj b = locked b (\<lambda>c. Some (map_err from_client_error (client_snapshot om sj c)))"

definition ffi_device_id ::
  "('acc, 'ses, 'w) beacon_client
     \<Rightarrow> ('acc, 'ses, 'w) beacon_client \<times> string option"
where
  "ffi_device_id b = locked b (\<lambda>c. Some (dc_device_id (cl_device c)))"

definition ffi_account_id ::
  "('acc, 'ses, 'w) beacon_client
     \<Rightarrow> ('acc, 'ses, 'w) beacon_client \<times> string option"
where
  "ffi_account_id b = locked b (\<lambda>c. Some (cl_account_id c))"

definition ffi_server_address ::
  "('acc, 'ses, 'w) beacon_client
     \<Rightarrow> ('acc, 'ses, 'w) beacon_client \<times> string option"
where
  "ffi_server_address b = locked b (\<lambda>c. Some (display_address (cl_address c)))"

definition ffi_self_description ::
  "('acc, 'ses, 'w) beacon_client
     \<Rightarrow> ('acc, 'ses, 'w) beacon_client \<times> member_row_view option"
where
  "ffi_self_description b = locked b (\<lambda>c. map_option view_of_member_row (client_self c))"

definition ffi_roster ::
  "('acc, 'ses, 'w) beacon_client
     \<Rightarrow> ('acc, 'ses, 'w) beacon_client \<times> member_row_view list option"
where
  "ffi_roster b = locked b (\<lambda>c. Some (map view_of_member_row (client_roster c)))"

definition ffi_server_devices ::
  "('acc, 'ses, 'w) beacon_client \<Rightarrow> 'w
     \<Rightarrow> ('acc, 'ses, 'w) beacon_client \<times> ('w \<times> (client_exception + server_device_row_view list)) option"
where
  "ffi_server_devices b w = locked b (\<lambda>c.
     Some (wmap (wmap_err from_client_error (server_devices c w))
             (\<lambda>rows. Inr (map view_of_server_device_row rows))))"

record ('acc, 'ses, 'w) enrolled_view =
  ew_client :: "('acc, 'ses, 'w) beacon_client"
  ew_ledger :: "ledger_entry_view list"

definition ffi_generate_seeds ::
  "('g \<Rightarrow> nat \<Rightarrow> 'g \<times> (string + bytes)) \<Rightarrow> 'g \<Rightarrow> 'g \<times> (client_exception + seeds_view)" where
  "ffi_generate_seeds fill g =
     wmap (wmap_err from_client_error (seeds_generate fill g)) (\<lambda>s. Inr (view_of_seeds s))"

definition ffi_enroll ::
  "rustls \<Rightarrow> 'w ureq \<Rightarrow> ('w \<Rightarrow> 'w \<times> stamp) \<Rightarrow> crypto \<Rightarrow> replies \<Rightarrow> ('acc, 'ses) olm \<Rightarrow> state_codec \<Rightarrow> 'w
     \<Rightarrow> string \<Rightarrow> string \<Rightarrow> profile_view \<Rightarrow> seeds_view \<Rightarrow> system_time
     \<Rightarrow> 'w \<times> (client_exception + ('acc, 'ses, 'w) enrolled_view)"
where
  "ffi_enroll rl uq stamps cr rp om sj w address invitation pf sv now =
     wbind (w, to_seeds sv) (\<lambda>w sd.
     wbind (wmap_err from_client_error
              (client_enroll rl uq stamps cr rp om sj w address invitation (profile_of_view pf) sd now))
       (\<lambda>w a. (w, Inr \<lparr>ew_client = beacon_client_new (ap_outcome a),
                       ew_ledger = map view_of_ledger_entry (ap_ledger a)\<rparr>)))"

definition ffi_open ::
  "rustls \<Rightarrow> 'w ureq \<Rightarrow> ('w \<Rightarrow> 'w \<times> stamp) \<Rightarrow> crypto \<Rightarrow> replies \<Rightarrow> ('acc, 'ses) olm \<Rightarrow> state_codec
     \<Rightarrow> bytes \<Rightarrow> seeds_view \<Rightarrow> client_exception + ('acc, 'ses, 'w) beacon_client"
where
  "ffi_open rl uq stamps cr rp om sj blob sv =
     rbind (to_seeds sv) (\<lambda>sd.
     rbind (map_err from_client_error (client_open rl uq stamps cr rp om sj blob sd)) (\<lambda>c.
       Inr (beacon_client_new c)))"
section \<open>Nothing is lost at the boundary\<close>

text \<open>Every mirrored type keeps what it mirrors apart.\<close>

lemma message_type_crosses [simp]: "view_of_message_type a = view_of_message_type b \<longleftrightarrow> a = b"
  by (cases a; cases b) simp_all

lemma feature_crosses [simp]: "view_of_feature a = view_of_feature b \<longleftrightarrow> a = b"
  by (cases a; cases b) simp_all

lemma deny_reason_crosses [simp]: "view_of_deny_reason a = view_of_deny_reason b \<longleftrightarrow> a = b"
  by (cases a; cases b) simp_all

lemma reject_reason_crosses [simp]: "view_of_reject_reason a = view_of_reject_reason b \<longleftrightarrow> a = b"
  by (cases a; cases b) simp_all

lemma removal_reason_crosses [simp]: "view_of_removal_reason a = view_of_removal_reason b \<longleftrightarrow> a = b"
  by (cases a; cases b) simp_all

lemma error_crosses [simp]: "from_client_error a = from_client_error b \<longleftrightarrow> a = b"
  by (cases a; cases b) simp_all

lemma unat_saturating: "unat (saturating_u32 n) = min n (2 ^ 32 - 1)"
proof (cases "n < 2 ^ 32")
  case True
  then show ?thesis by (simp add: saturating_u32_def unat_of_nat take_bit_nat_eq_self min_def)
next
  case False
  then show ?thesis
    by (simp add: saturating_u32_def min_def unsigned_minus_1_eq_mask mask_eq_exp_minus_1)
qed

lemma saturating_eq_iff:
  "saturating_u32 m = saturating_u32 n \<longleftrightarrow> m = n \<or> 2 ^ 32 - 1 \<le> m \<and> 2 ^ 32 - 1 \<le> n"
  unfolding word_unat_eq_iff unat_saturating by (auto simp: min_def)

lemma ledger_event_crosses:
  "view_of_ledger_event a = view_of_ledger_event b \<longleftrightarrow>
     a = b \<or> (\<exists>m n. a = EvAdmissionHeld m \<and> b = EvAdmissionHeld n \<and> 2 ^ 32 - 1 \<le> m \<and> 2 ^ 32 - 1 \<le> n)"
  by (cases a; cases b) (simp_all add: saturating_eq_iff)

lemma ledger_entry_crosses:
  "view_of_ledger_entry a = view_of_ledger_entry b \<longleftrightarrow>
     le_direction a = le_direction b \<and> le_peer a = le_peer b \<and> le_message_id a = le_message_id b
     \<and> view_of_ledger_event (le_event a) = view_of_ledger_event (le_event b)"
  by (auto simp: view_of_ledger_entry_def split: direction.splits)

text \<open>The sentence the application shows is the one the core wrote.\<close>

lemma display_crosses: "display_client_exception (from_client_error e) = display_client_error e"
  by (cases e) (simp_all add: display_client_exception_def display_client_error_def)

lemma seeds_cross:
  assumes "length (ks_device s) = seed_bytes" and "length (ks_identity s) = seed_bytes"
  shows "to_seeds (view_of_seeds s) = Inr s"
  using assms by (simp add: to_seeds_def view_of_seeds_def seeds_from_slices_def seed_of_slice_def)

lemma to_seeds_Inr:
  "to_seeds v = Inr s \<longleftrightarrow>
     length (sw_device v) = seed_bytes \<and> length (sw_identity v) = seed_bytes \<and> v = view_of_seeds s"
  by (cases s; cases v)
    (auto simp: to_seeds_def view_of_seeds_def seeds_from_slices_def seed_of_slice_def rbind_Inr_iff)

section \<open>No call panics\<close>

text \<open>The calls an application makes on a client, and whether each returned.\<close>

datatype ffi_call = CallSnapshot | CallDeviceId | CallAccountId | CallServerAddress | CallSelf
  | CallRoster | CallServerDevices

text \<open>A call's effect on the object and on the world, and whether it returned.\<close>

definition ffi_step ::
  "('acc, 'ses) olm \<Rightarrow> state_codec \<Rightarrow> ('acc, 'ses, 'w) beacon_client \<times> 'w \<Rightarrow> ffi_call
     \<Rightarrow> (('acc, 'ses, 'w) beacon_client \<times> 'w) \<times> bool"
where
  "ffi_step om sj p call = (let (b, w) = p in (case call of
     CallSnapshot \<Rightarrow> (let (b, r) = ffi_snapshot om sj b in ((b, w), r \<noteq> None))
   | CallDeviceId \<Rightarrow> (let (b, r) = ffi_device_id b in ((b, w), r \<noteq> None))
   | CallAccountId \<Rightarrow> (let (b, r) = ffi_account_id b in ((b, w), r \<noteq> None))
   | CallServerAddress \<Rightarrow> (let (b, r) = ffi_server_address b in ((b, w), r \<noteq> None))
   | CallSelf \<Rightarrow> (let (b, r) = ffi_self_description b in ((b, w), r \<noteq> None))
   | CallRoster \<Rightarrow> (let (b, r) = ffi_roster b in ((b, w), r \<noteq> None))
   | CallServerDevices \<Rightarrow> (let (b, r) = ffi_server_devices b w
        in ((b, case r of None \<Rightarrow> w | Some (w, _) \<Rightarrow> w), r \<noteq> None))))"

fun ffi_run ::
  "('acc, 'ses) olm \<Rightarrow> state_codec \<Rightarrow> ('acc, 'ses, 'w) beacon_client \<times> 'w \<Rightarrow> ffi_call list
     \<Rightarrow> (('acc, 'ses, 'w) beacon_client \<times> 'w) \<times> bool list"
where
  "ffi_run om sj p [] = (p, [])"
| "ffi_run om sj p (call # calls) =
     (let (p, r) = ffi_step om sj p call; (p, rs) = ffi_run om sj p calls in (p, r # rs))"

lemma locked_live:
  "\<not> bc_poisoned b \<Longrightarrow> f (bc_inner b) = Some r \<Longrightarrow> locked b f = (b, Some r)"
  by (simp add: locked_def)

lemma locked_poisoned: "bc_poisoned b \<Longrightarrow> locked b f = (b, None)"
  by (simp add: locked_def)

lemma ffi_step_live:
  assumes "\<not> bc_poisoned b" and "client_self (bc_inner b) \<noteq> None"
  shows "\<exists>w'. ffi_step om sj (b, w) call = ((b, w'), True)"
  using assms by (cases call) (auto simp: ffi_step_def ffi_snapshot_def ffi_device_id_def ffi_account_id_def
      ffi_server_address_def ffi_self_description_def ffi_roster_def ffi_server_devices_def locked_def
      split: prod.split)

lemma ffi_run_live:
  assumes "\<not> bc_poisoned b" and "client_self (bc_inner b) \<noteq> None"
  shows "\<exists>w'. ffi_run om sj (b, w) calls = ((b, w'), replicate (length calls) True)"
proof (induction calls arbitrary: w)
  case (Cons call calls)
  obtain w1 where "ffi_step om sj (b, w) call = ((b, w1), True)" using ffi_step_live [OF assms] by blast
  then show ?case using Cons [of w1] by auto
qed simp

text \<open>A panic under the guard is final.\<close>

lemma ffi_run_dead:
  assumes "bc_poisoned b"
  shows "ffi_run om sj (b, w) calls = ((b, w), replicate (length calls) False)"
proof (induction calls)
  case (Cons call calls)
  have "ffi_step om sj (b, w) call = ((b, w), False)"
    using assms by (cases call) (simp_all add: ffi_step_def ffi_snapshot_def ffi_device_id_def
        ffi_account_id_def ffi_server_address_def ffi_self_description_def ffi_roster_def
        ffi_server_devices_def locked_poisoned)
  then show ?case using Cons by simp
qed simp

lemma wf_knows_itself: "client_wf sd c \<Longrightarrow> client_self c \<noteq> None"
  by (auto simp: client_wf_def Let_def client_self_def roster_inv_def bt_contains_def)

lemma restored_knows_itself: "client_restore om sc a st sd = Inr c \<Longrightarrow> client_self c \<noteq> None"
  by (auto simp: client_restore_def Let_def rbind_Inr_iff client_self_def sund_device_def split: if_splits)

text \<open>An object the boundary handed out answers every call, whatever was called before.\<close>

lemma enrolled_answers:
  assumes "ffi_enroll rl uq stamps cr rp om sj w address invitation pf sv now = (w', Inr e)"
  shows "\<exists>w2. ffi_run om sj (ew_client e, w1) calls = ((ew_client e, w2), replicate (length calls) True)"
proof -
  obtain sd w2 a where r: "client_enroll rl uq stamps cr rp om sj w2 address invitation (profile_of_view pf) sd now
      = (w', Inr a)" and e: "ew_client e = beacon_client_new (ap_outcome a)"
    using assms by (auto simp: ffi_enroll_def wbind_Inr_iff wmap_err_def) (metis prod.collapse)
  obtain a' wi w3 where "parse_address address = Inr a'"
    and "enroll_with om sj (sund_client_new cr rp wi) w3 a' invitation (profile_of_view pf) sd now = (w', Inr a)"
    using r by (auto simp: client_enroll_def wbind_Inr_iff)
  then have "client_wf sd (ap_outcome a)" using parse_address_ok by (intro enroll_wf)
  then show ?thesis using wf_knows_itself by (intro ffi_run_live) (auto simp: e beacon_client_new_def)
qed

lemma reopened_answers:
  assumes "ffi_open rl uq stamps cr rp om sj blob sv = Inr b"
  shows "\<exists>w2. ffi_run om sj (b, w1) calls = ((b, w2), replicate (length calls) True)"
proof -
  obtain sc a st sd c where "client_restore om sc a st sd = Inr c" and b: "b = beacon_client_new c"
    using assms by (auto simp: ffi_open_def client_open_def rbind_Inr_iff)
  then show ?thesis
    using restored_knows_itself by (intro ffi_run_live) (auto simp: beacon_client_new_def)
qed


section \<open>A failed connection, as the application sees it\<close>

lemma from_http_exception:
  "from_client_error (from_sund_error (SeHttp e)) =
     (case e of HeTls d \<Rightarrow> CxServerIdentity d | HeNetwork d \<Rightarrow> CxNetwork d | HeProtocol d \<Rightarrow> CxProtocol d)"
  by (simp add: from_sund_error_def from_http_error_def split: http_error.split)

lemma ffi_server_devices_fails:
  assumes "\<not> bc_poisoned b" and "snd (list_devices (cl_device (bc_inner b)) w) = Inl (SeHttp e)"
  shows "map_option snd (snd (ffi_server_devices b w)) = Some (Inl (from_client_error (from_sund_error (SeHttp e))))"
  using assms by (simp add: ffi_server_devices_def locked_def server_devices_def wmap_def wmap_err_def)

lemma agent_fails:
  assumes "uq_build uq (method_as_str (hr_method rq)) (ha_origin agent @ hr_path rq) (hr_headers rq) (hr_body rq)
      = Inr ()"
    and "snd (uq_run uq (ha_tls agent) (ha_config agent) w (method_as_str (hr_method rq))
      (ha_origin agent @ hr_path rq) (hr_headers rq) (hr_body rq)) = Inl e"
  shows "snd (agent_execute rl uq agent w rq) = Inl (classify rl e)"
  using assms by (simp add: agent_execute_def case_prod_beta Let_def)

text \<open>
  A client whose agent cannot complete a request: what the server list answers is the class of the
  failure.
\<close>

lemma failed_connection:
  assumes "\<not> bc_poisoned b"
    and "sc_wiring (dc_client (cl_device (bc_inner b))) = \<lparr>wi_execute = agent_execute rl uq agent, wi_stamp = stamps\<rparr>"
    and "\<And>verb url hs bd. uq_build uq verb url hs bd = Inr ()"
    and "\<And>w verb url hs bd. snd (uq_run uq (ha_tls agent) (ha_config agent) w verb url hs bd) = Inl e"
  shows "map_option snd (snd (ffi_server_devices b w)) =
    Some (Inl (case classify rl e of
       HeTls d \<Rightarrow> CxServerIdentity d | HeNetwork d \<Rightarrow> CxNetwork d | HeProtocol d \<Rightarrow> CxProtocol d))"
proof -
  have "snd (list_devices (cl_device (bc_inner b)) w) = Inl (SeHttp (classify rl e))"
    unfolding list_devices_http signed_call_http assms(2)
    using agent_fails [OF assms(3,4)] by (metis surj_pair wiring.select_convs(1))
  from ffi_server_devices_fails [OF assms(1) this] show ?thesis unfolding from_http_exception .
qed

end
