(* ===== verification/Relay.thy ===== *)
theory Relay
  imports Drain SundTransport
begin

text \<open>
  A drain over the relay: the outbox (\<^verbatim>\<open>outbox.rs\<close>) on the transport over Sund
  (\<^verbatim>\<open>sund_transport.rs\<close>). What a pass does to its transport is a sequence of sends; what it drops
  with a channel is what one of them was answered.
\<close>

section \<open>The sends of a pass\<close>

definition sends :: "'t port \<Rightarrow> 't \<Rightarrow> (string \<times> outbound) list \<Rightarrow> 't" where
  "sends port t ms = foldl (\<lambda>t (c, m). fst (po_send port t c m)) t ms"

definition answered :: "'t port \<Rightarrow> 't \<Rightarrow> (string \<times> outbound) list \<Rightarrow> string \<Rightarrow> transport_error \<Rightarrow> bool" where
  "answered port t ms c e \<longleftrightarrow>
     (\<exists>pre m post. ms = pre @ (c, m) # post \<and> snd (po_send port (sends port t pre) c m) = Inl e)"

lemma sends_simps [simp]:
  "sends port t [] = t" "sends port t (ms @ [(c, m)]) = fst (po_send port (sends port t ms) c m)"
  by (simp_all add: sends_def)

lemma answered_append: "answered port t ms c e \<Longrightarrow> answered port t (ms @ ms') c e"
  unfolding answered_def by (metis append.assoc append_Cons)

lemma answered_last:
  "snd (po_send port (sends port t ms) c m) = Inl e \<Longrightarrow> answered port t (ms @ [(c, m)]) c e"
  by (auto simp: answered_def)

text \<open>The reason a channel was dropped for, and that one of the sends gave it.\<close>

definition justified :: "'t port \<Rightarrow> 't \<Rightarrow> (string \<times> outbound) list \<Rightarrow> dropped \<Rightarrow> bool" where
  "justified port t ms d \<longleftrightarrow>
     (dp_reason d = DropChannelRetired \<longrightarrow> (\<exists>c. answered port t ms (dp_channel d) (TeRetired c))) \<and>
     (dp_reason d = DropChannelUnknown \<longrightarrow> (\<exists>c. answered port t ms (dp_channel d) (TeUnknownChannel c)))"

lemma justified_append: "justified port t ms d \<Longrightarrow> justified port t (ms @ ms') d"
  by (auto simp: justified_def intro: answered_append)

text \<open>An id and a channel that are those of one of the entries.\<close>

definition names :: "entry list \<Rightarrow> u64 \<Rightarrow> string \<Rightarrow> bool" where
  "names es i c \<longleftrightarrow> (\<exists>e \<in> set es. oe_id e = i \<and> oe_channel e = c)"

definition pass_calls ::
  "'t port \<Rightarrow> 't \<Rightarrow> entry list \<Rightarrow> (string \<times> outbound) list \<Rightarrow> ('acc, 'ses, 't) pass \<Rightarrow> bool"
where
  "pass_calls port t es ms p \<longleftrightarrow> pa_transport p = sends port t ms
     \<and> (\<forall>e \<in> set (pa_entries p). names es (oe_id e) (oe_channel e))
     \<and> (\<forall>d \<in> set (rp_dropped (pa_report p)). justified port t ms d \<and> names es (dp_id d) (dp_channel d))
     \<and> (\<forall>c. bt_get (pa_failed p) c = Some DeferNoSession \<longrightarrow>
          (\<exists>d \<in> set (rp_dropped (pa_report p)). dp_channel d = c
             \<and> (dp_reason d = DropChannelRetired \<or> dp_reason d = DropChannelUnknown)))"

lemma pass_callsD:
  assumes "pass_calls port t es ms p"
  shows "pa_transport p = sends port t ms" and "e \<in> set (pa_entries p) \<Longrightarrow> names es (oe_id e) (oe_channel e)"
    and "d \<in> set (rp_dropped (pa_report p)) \<Longrightarrow> justified port t ms d \<and> names es (dp_id d) (dp_channel d)"
    and "bt_get (pa_failed p) c = Some DeferNoSession \<Longrightarrow>
      \<exists>d \<in> set (rp_dropped (pa_report p)). dp_channel d = c
        \<and> (dp_reason d = DropChannelRetired \<or> dp_reason d = DropChannelUnknown)"
  using assms by (simp_all add: pass_calls_def)

lemma pass_callsI:
  assumes "pa_transport p = sends port t ms"
    and "\<And>e. e \<in> set (pa_entries p) \<Longrightarrow> names es (oe_id e) (oe_channel e)"
    and "\<And>d. d \<in> set (rp_dropped (pa_report p)) \<Longrightarrow> justified port t ms d \<and> names es (dp_id d) (dp_channel d)"
    and "\<And>c. bt_get (pa_failed p) c = Some DeferNoSession \<Longrightarrow>
      \<exists>d \<in> set (rp_dropped (pa_report p)). dp_channel d = c
        \<and> (dp_reason d = DropChannelRetired \<or> dp_reason d = DropChannelUnknown)"
  shows "pass_calls port t es ms p"
  using assms by (simp add: pass_calls_def)

text \<open>Adding one justified drop that marks its channel.\<close>

lemma dropped_calls:
  assumes p: "pass_calls port t es ms p" and t': "t' = sends port t ms'" and app: "\<exists>ms2. ms' = ms @ ms2"
    and d: "justified port t ms' d" "names es (dp_id d) (dp_channel d)"
    and r: "dp_reason d = DropChannelRetired \<or> dp_reason d = DropChannelUnknown"
  shows "pass_calls port t es ms' (p\<lparr>pa_transport := t', pa_report := add_dropped d (pa_report p),
    pa_dropped_ids := ids, pa_failed := bt_insert (dp_channel d) DeferNoSession (pa_failed p)\<rparr>)"
proof (rule pass_callsI)
  fix c
  let ?q = "p\<lparr>pa_transport := t', pa_report := add_dropped d (pa_report p),
    pa_dropped_ids := ids, pa_failed := bt_insert (dp_channel d) DeferNoSession (pa_failed p)\<rparr>"
  assume c: "bt_get (pa_failed ?q) c = Some DeferNoSession"
  show "\<exists>d \<in> set (rp_dropped (pa_report ?q)). dp_channel d = c
      \<and> (dp_reason d = DropChannelRetired \<or> dp_reason d = DropChannelUnknown)"
  proof (cases "c = dp_channel d")
    case True
    then show ?thesis using r by (auto simp: add_dropped_def)
  next
    case False
    then show ?thesis using c pass_callsD(4) [OF p, of c] by (auto simp: add_dropped_def)
  qed
next
  fix x
  assume "x \<in> set (rp_dropped (pa_report (p\<lparr>pa_transport := t', pa_report := add_dropped d (pa_report p),
    pa_dropped_ids := ids, pa_failed := bt_insert (dp_channel d) DeferNoSession (pa_failed p)\<rparr>)))"
  then have "x \<in> set (rp_dropped (pa_report p)) \<or> x = d" by (auto simp: add_dropped_def)
  then show "justified port t ms' x \<and> names es (dp_id x) (dp_channel x)"
  proof
    assume "x \<in> set (rp_dropped (pa_report p))"
    from pass_callsD(3) [OF p this] app show ?thesis by (auto intro: justified_append)
  qed (simp add: d)
next
  fix e
  assume "e \<in> set (pa_entries (p\<lparr>pa_transport := t', pa_report := add_dropped d (pa_report p),
    pa_dropped_ids := ids, pa_failed := bt_insert (dp_channel d) DeferNoSession (pa_failed p)\<rparr>))"
  then have "e \<in> set (pa_entries p)" by simp
  then show "names es (oe_id e) (oe_channel e)" by (rule pass_callsD(2) [OF p])
qed (simp add: t')

lemma drain_start_calls: "pass_calls port t (ox_entries ob) [] (drain_start ob seconds t s)"
  by (auto simp: pass_calls_def drain_start_def justified_def names_def drop_entry_def)

lemma drop_entry_simps [simp]:
  "dp_id (drop_entry reason e) = oe_id e" "dp_channel (drop_entry reason e) = oe_channel e"
  "dp_reason (drop_entry reason e) = reason"
  by (simp_all add: drop_entry_def)

lemma names_update:
  assumes "\<forall>e \<in> set xs. names es (oe_id e) (oe_channel e)" and "names es (oe_id y) (oe_channel y)"
  shows "\<forall>e \<in> set (xs[i := y]). names es (oe_id e) (oe_channel e)"
  using assms set_update_subset_insert [of xs i y] by blast

lemma send_sealed_calls:
  assumes p: "pass_calls port t es ms p" and e: "names es (oe_id e) (oe_channel e)"
  shows "pass_calls port t es (ms @ [(oe_channel e, outbound_of e sealed)])
    (send_sealed port seconds index e sealed p)"
proof -
  let ?ms = "ms @ [(oe_channel e, outbound_of e sealed)]"
  obtain t' result where s: "po_send port (pa_transport p) (oe_channel e) (outbound_of e sealed) = (t', result)"
    by fastforce
  note D = pass_callsD [OF p]
  have t': "t' = sends port t ?ms" using s D(1) by simp
  have said: "answered port t ?ms (oe_channel e) err" if "result = Inl err" for err
    using s D(1) that by (intro answered_last) simp
  have kept: "justified port t ?ms d \<and> names es (dp_id d) (dp_channel d)"
    if "d \<in> set (rp_dropped (pa_report p))" for d
    using D(3) [OF that] justified_append [of port t ms d] by simp
  have entries: "\<forall>x \<in> set (pa_entries p). names es (oe_id x) (oe_channel x)" using D(2) by blast
  show ?thesis
  proof (cases result)
    case (Inr i)
    show ?thesis
    proof (rule pass_callsI)
      fix c
      assume "bt_get (pa_failed (send_sealed port seconds index e sealed p)) c = Some DeferNoSession"
      then show "\<exists>d \<in> set (rp_dropped (pa_report (send_sealed port seconds index e sealed p))). dp_channel d = c
          \<and> (dp_reason d = DropChannelRetired \<or> dp_reason d = DropChannelUnknown)"
        using D(4) by (simp add: send_sealed_def s Inr add_sent_def)
    qed (use kept entries in \<open>simp_all add: send_sealed_def s Inr t' add_sent_def\<close>)
  next
    case (Inl err)
    show ?thesis
    proof (cases err)
      case (TeBackend detail)
      show ?thesis
      proof (rule pass_callsI)
        fix c
        assume "bt_get (pa_failed (send_sealed port seconds index e sealed p)) c = Some DeferNoSession"
        then show "\<exists>d \<in> set (rp_dropped (pa_report (send_sealed port seconds index e sealed p))). dp_channel d = c
            \<and> (dp_reason d = DropChannelRetired \<or> dp_reason d = DropChannelUnknown)"
          using D(4) by (simp add: send_sealed_def s Inl TeBackend add_deferred_def split: if_splits)
      next
        fix x
        assume "x \<in> set (pa_entries (send_sealed port seconds index e sealed p))"
        then show "names es (oe_id x) (oe_channel x)"
          using names_update [OF entries, of "back_off seconds e" index] e
          by (simp add: send_sealed_def s Inl TeBackend)
      qed (use kept in \<open>simp_all add: send_sealed_def s Inl TeBackend t' add_deferred_def\<close>)
    next
      case (TeRetired c)
      have "pass_calls port t es ?ms (p\<lparr>pa_transport := t',
          pa_report := add_dropped (drop_entry DropChannelRetired e) (pa_report p),
          pa_dropped_ids := pa_dropped_ids p @ [oe_id e],
          pa_failed := bt_insert (dp_channel (drop_entry DropChannelRetired e)) DeferNoSession (pa_failed p)\<rparr>)"
        using said Inl TeRetired e by (intro dropped_calls [OF p t']) (auto simp: justified_def)
      then show ?thesis by (simp add: send_sealed_def s Inl TeRetired)
    next
      case (TeUnknownChannel c)
      have "pass_calls port t es ?ms (p\<lparr>pa_transport := t',
          pa_report := add_dropped (drop_entry DropChannelUnknown e) (pa_report p),
          pa_dropped_ids := pa_dropped_ids p @ [oe_id e],
          pa_failed := bt_insert (dp_channel (drop_entry DropChannelUnknown e)) DeferNoSession (pa_failed p)\<rparr>)"
        using said Inl TeUnknownChannel e by (intro dropped_calls [OF p t']) (auto simp: justified_def)
      then show ?thesis by (simp add: send_sealed_def s Inl TeUnknownChannel)
    qed
  qed
qed

text \<open>One due entry makes at most one send.\<close>

lemma drain_entry_calls:
  assumes p: "pass_calls port t es ms p" and i: "index < length (pa_entries p)"
  shows "\<exists>ms'. length ms' \<le> 1 \<and> pass_calls port t es (ms @ ms') (drain_entry om port seconds index p)"
proof -
  let ?e = "pa_entries p ! index"
  have e: "names es (oe_id ?e) (oe_channel ?e)" using pass_callsD(2) [OF p] i by simp
  obtain sessions sealed where s: "session_encrypt om (pa_sessions p) (oe_peer ?e) (oe_plaintext ?e)
      = (sessions, sealed)" by fastforce
  have p': "pass_calls port t es ms (p\<lparr>pa_sessions := sessions\<rparr>)" using p by (simp add: pass_calls_def)
  consider reason where "bt_get (pa_failed p) (oe_channel ?e) = Some reason"
    | frame where "bt_get (pa_failed p) (oe_channel ?e) = None" "sealed = Inr frame"
    | err where "bt_get (pa_failed p) (oe_channel ?e) = None" "sealed = Inl err"
    by (cases "bt_get (pa_failed p) (oe_channel ?e)"; cases sealed) auto
  then show ?thesis
  proof cases
    case 1
    then have "pass_calls port t es (ms @ []) (drain_entry om port seconds index p)"
      using p by (simp add: drain_entry_def pass_calls_def add_deferred_def Let_def)
    then show ?thesis by (metis le0 list.size(3))
  next
    case 2
    then have "drain_entry om port seconds index p
        = send_sealed port seconds index ?e frame (p\<lparr>pa_sessions := sessions\<rparr>)"
      by (simp add: drain_entry_def Let_def s)
    then show ?thesis using send_sealed_calls [OF p' e] by (metis One_nat_def length_Cons list.size(3) order_refl)
  next
    case 3
    have "\<forall>x \<in> set (pa_entries p). names es (oe_id x) (oe_channel x)" using pass_callsD(2) [OF p] by blast
    then have "pass_calls port t es (ms @ []) (drain_entry om port seconds index p)"
      using p' 3 names_update [of "pa_entries p" es "back_off seconds ?e" index] e
      by (auto simp: drain_entry_def Let_def s pass_calls_def add_deferred_def)
    then show ?thesis by (metis le0 list.size(3))
  qed
qed
lemma drain_entry_length:
  "length (pa_entries (drain_entry om port seconds index p)) = length (pa_entries p)"
  by (simp add: drain_entry_def send_sealed_def Let_def case_prod_beta
      split: option.split sum.split transport_error.split)

lemma drain_entries_calls:
  assumes "pass_calls port t es ms p" and "\<forall>i \<in> set is. i < length (pa_entries p)"
  shows "\<exists>ms'. length ms' \<le> length is \<and> pass_calls port t es (ms @ ms') (fold (drain_entry om port seconds) is p)"
  using assms
proof (induction "is" arbitrary: p ms)
  case Nil
  then show ?case by (intro exI [of _ "[]"]) simp
next
  case (Cons i "is")
  then obtain ms1 where ms1: "length ms1 \<le> 1" "pass_calls port t es (ms @ ms1) (drain_entry om port seconds i p)"
    using drain_entry_calls by (metis list.set_intros(1))
  have "length (pa_entries (drain_entry om port seconds i p)) = length (pa_entries p)"
    by (rule drain_entry_length)
  then have "\<forall>j \<in> set is. j < length (pa_entries (drain_entry om port seconds i p))" using Cons.prems(2) by simp
  from Cons.IH [OF ms1(2) this] obtain ms2 where "length ms2 \<le> length is"
    "pass_calls port t es ((ms @ ms1) @ ms2) (fold (drain_entry om port seconds) is (drain_entry om port seconds i p))"
    by blast
  then show ?case using ms1(1) by (intro exI [of _ "ms1 @ ms2"]) simp
qed

text \<open>Dropping a backlog makes no call and keeps the reason.\<close>

lemma drop_channel_calls:
  assumes p: "pass_calls port t es ms p" and c: "bt_get (pa_failed p) c = Some DeferNoSession"
  shows "pass_calls port t es ms (drop_channel c p) \<and> pa_failed (drop_channel c p) = pa_failed p"
proof -
  note D = pass_callsD [OF p]
  obtain d where d: "d \<in> set (rp_dropped (pa_report p))" "dp_channel d = c"
    "dp_reason d = DropChannelRetired \<or> dp_reason d = DropChannelUnknown" using D(4) [OF c] by blast
  define reason where "reason = (if \<exists>d \<in> set (rp_dropped (pa_report p)).
      dp_channel d = c \<and> dp_reason d = DropChannelRetired then DropChannelRetired else DropChannelUnknown)"
  define gone where "gone = filter (\<lambda>e. oe_channel e = c \<and> oe_id e \<notin> set (pa_dropped_ids p)) (pa_entries p)"
  have q: "pa_transport (drop_channel c p) = pa_transport p" "pa_failed (drop_channel c p) = pa_failed p"
    "set (pa_entries (drop_channel c p)) \<subseteq> set (pa_entries p)"
    "rp_dropped (pa_report (drop_channel c p)) = rp_dropped (pa_report p) @ map (drop_entry reason) gone"
    by (auto simp: drop_channel_def Let_def reason_def gone_def)
  have why: "justified port t ms (drop_entry reason e)" if "oe_channel e = c" for e
  proof -
    obtain x where x: "x \<in> set (rp_dropped (pa_report p))" "dp_channel x = c" "dp_reason x = reason"
      using d unfolding reason_def by (metis (full_types))
    from D(3) [OF x(1)] x(2,3) that show ?thesis by (simp add: justified_def)
  qed
  have "pass_calls port t es ms (drop_channel c p)"
  proof (rule pass_callsI)
    show "pa_transport (drop_channel c p) = sends port t ms" using D(1) q(1) by simp
  next
    fix e
    assume "e \<in> set (pa_entries (drop_channel c p))"
    then show "names es (oe_id e) (oe_channel e)" using D(2) q(3) by blast
  next
    fix x
    assume "x \<in> set (rp_dropped (pa_report (drop_channel c p)))"
    then consider "x \<in> set (rp_dropped (pa_report p))" | e where "e \<in> set gone" "x = drop_entry reason e"
      unfolding q(4) by auto
    then show "justified port t ms x \<and> names es (dp_id x) (dp_channel x)"
    proof cases
      case 1
      then show ?thesis by (rule D(3))
    next
      case 2
      then show ?thesis using why [of e] D(2) [of e] by (simp add: gone_def)
    qed
  next
    fix c'
    assume "bt_get (pa_failed (drop_channel c p)) c' = Some DeferNoSession"
    then have "bt_get (pa_failed p) c' = Some DeferNoSession" by (simp only: q(2))
    from D(4) [OF this] show "\<exists>d \<in> set (rp_dropped (pa_report (drop_channel c p))). dp_channel d = c'
        \<and> (dp_reason d = DropChannelRetired \<or> dp_reason d = DropChannelUnknown)"
      unfolding q(4) by auto
  qed
  with q(2) show ?thesis by simp
qed

lemma drop_channels_calls:
  assumes "pass_calls port t es ms p" and "\<forall>c \<in> set cs. bt_get (pa_failed p) c = Some DeferNoSession"
  shows "pass_calls port t es ms (fold drop_channel cs p)"
  using assms by (induction cs arbitrary: p) (simp_all add: drop_channel_calls)

lemma dead_channels_failed: "c \<in> set (dead_channels p) \<Longrightarrow> bt_get (pa_failed p) c = Some DeferNoSession"
  by (auto simp: dead_channels_def bt.entries_iff)

text \<open>What a drain does to its transport, and why it drops.\<close>

lemma drain_calls:
  assumes "drain om port ob t s now budget = (ob', t', s', r)"
  shows "\<exists>ms. length ms \<le> budget \<and> t' = sends port t ms
    \<and> (\<forall>d \<in> set (rp_dropped r). justified port t ms d \<and> names (ox_entries ob) (dp_id d) (dp_channel d))"
proof -
  define p0 where "p0 = drain_start ob (epoch_seconds now) t s"
  define due where "due = due_indices (pa_entries p0) (epoch_seconds now) budget"
  define p1 where "p1 = fold (drain_entry om port (epoch_seconds now)) due p0"
  define p2 where "p2 = fold drop_channel (dead_channels p1) p1"
  have r: "t' = pa_transport p2" "r = pa_report p2"
    using assms by (auto simp: drain_def Let_def p2_def p1_def due_def p0_def)
  have "\<forall>i \<in> set due. i < length (pa_entries p0)"
    unfolding due_def using due_indices_props(3) by blast
  then obtain ms where ms: "length ms \<le> length due" "pass_calls port t (ox_entries ob) ([] @ ms) p1"
    using drain_entries_calls [OF drain_start_calls [of port t ob "epoch_seconds now" s], of due om "epoch_seconds now"]
    unfolding p1_def p0_def by auto
  have p2: "pass_calls port t (ox_entries ob) ms p2"
    unfolding p2_def using ms(2) by (intro drop_channels_calls) (simp_all add: dead_channels_failed)
  have "length due \<le> budget" by (simp add: due_def due_indices_def)
  then show ?thesis using ms(1) r pass_callsD(1,3) [OF p2] by (intro exI [of _ ms]) auto
qed

section \<open>Over the relay\<close>

text \<open>What sends leave of a channel: everything but whether the key is bound.\<close>

definition same_pipes :: "channel_table \<Rightarrow> channel_table \<Rightarrow> bool" where
  "same_pipes m m' \<longleftrightarrow> (\<forall>c. map_option (\<lambda>rec. (qr_retired rec,
       map_option (\<lambda>oq. (oq_sender_id oq, oq_sender_seed oq)) (qr_outbound rec))) (bt_get m' c)
     = map_option (\<lambda>rec. (qr_retired rec,
       map_option (\<lambda>oq. (oq_sender_id oq, oq_sender_seed oq)) (qr_outbound rec))) (bt_get m c))"

lemma same_pipes_refl [simp]: "same_pipes m m"
  by (simp add: same_pipes_def)

lemma same_pipes_trans: "same_pipes m m' \<Longrightarrow> same_pipes m' m'' \<Longrightarrow> same_pipes m m''"
  by (simp add: same_pipes_def)

lemma send_commit_pipes: "same_pipes m (send_commit m c sent)"
  by (auto simp: same_pipes_def send_commit_def split: option.split)

lemma sund_send_pipes:
  "sx_device (fst (fst (sund_send p c m))) = sx_device (fst p)
   \<and> same_pipes (sx_channels (fst p)) (sx_channels (fst (fst (sund_send p c m))))"
  by (auto simp: sund_send_def case_prod_beta Let_def with_table_def send_commit_pipes split: sum.split)

lemma sends_pipes:
  "sx_device (fst (sends sund_port p ms)) = sx_device (fst p)
   \<and> same_pipes (sx_channels (fst p)) (sx_channels (fst (sends sund_port p ms)))"
proof (induction ms rule: rev_induct)
  case (snoc x ms)
  obtain c m where x: "x = (c, m)" by (cases x)
  show ?case unfolding x using snoc sund_send_pipes [of "sends sund_port p ms" c m] same_pipes_trans by auto
qed simp

text \<open>
  The channel cannot carry the entry: it was retired here, nothing is attached to it, or the server
  answered that the peer's queue does not exist.
\<close>

definition cut_off :: "'w sund_transport \<Rightarrow> string \<Rightarrow> bool" where
  "cut_off t c \<longleftrightarrow> (case bt_get (sx_channels t) c of
       None \<Rightarrow> True
     | Some rec \<Rightarrow> qr_retired rec \<or> qr_outbound rec = None)"

definition queue_missing :: "'w sund_transport \<Rightarrow> string \<Rightarrow> bool" where
  "queue_missing t c \<longleftrightarrow> (\<exists>rec oq w m. bt_get (sx_channels t) c = Some rec \<and> qr_outbound rec = Some oq
     \<and> snd (send_to_queue (dc_client (sx_device t)) w (oq_sender_id oq) (device_from_seed (oq_sender_seed oq)) m)
         = Inl SeNotFound)"

lemma cut_off_pipes: "same_pipes (sx_channels t) (sx_channels t') \<Longrightarrow> cut_off t' c \<longleftrightarrow> cut_off t c"
  unfolding same_pipes_def cut_off_def
  by (erule allE [of _ c]) (auto split: option.splits)

lemma queue_missing_pipes:
  assumes "same_pipes (sx_channels t) (sx_channels t')" and "sx_device t' = sx_device t"
    and "queue_missing t' c"
  shows "queue_missing t c"
proof -
  obtain rec oq w m where r: "bt_get (sx_channels t') c = Some rec" "qr_outbound rec = Some oq"
    and s: "snd (send_to_queue (dc_client (sx_device t')) w (oq_sender_id oq) (device_from_seed (oq_sender_seed oq)) m)
         = Inl SeNotFound"
    using assms(3) by (auto simp: queue_missing_def)
  have "map_option (\<lambda>rec. (qr_retired rec,
      map_option (\<lambda>oq. (oq_sender_id oq, oq_sender_seed oq)) (qr_outbound rec))) (bt_get (sx_channels t) c)
      = Some (qr_retired rec, Some (oq_sender_id oq, oq_sender_seed oq))"
    using assms(1) [unfolded same_pipes_def, rule_format, of c] r by simp
  then obtain rec' oq' where "bt_get (sx_channels t) c = Some rec'" "qr_outbound rec' = Some oq'"
    "oq_sender_id oq' = oq_sender_id oq" "oq_sender_seed oq' = oq_sender_seed oq"
    by auto
  then show ?thesis using s assms(2) by (auto simp: queue_missing_def)
qed

lemma sund_send_dead:
  assumes "snd (sund_send p c m) = Inl (TeRetired c') \<or> snd (sund_send p c m) = Inl (TeUnknownChannel c')"
  shows "cut_off (fst p) c \<or> queue_missing (fst p) c"
proof -
  obtain t w where p: "p = (t, w)" by (cases p)
  show ?thesis
  proof (cases "cut_off t c")
    case False
    then obtain rec oq where "bt_get (sx_channels t) c = Some rec" "\<not> qr_retired rec" "qr_outbound rec = Some oq"
      by (auto simp: cut_off_def split: option.splits)
    then show ?thesis using assms unfolding p
      by (auto simp: sund_send_def live_def with_table_def channel_error_def backend_def queue_missing_def
          split: prod.splits sum.splits sund_error.splits)
        (metis snd_conv)+
  qed (simp add: p)
qed

lemma answered_dead:
  assumes "answered sund_port p ms c (TeRetired c') \<or> answered sund_port p ms c (TeUnknownChannel c')"
  shows "cut_off (fst p) c \<or> queue_missing (fst p) c"
proof -
  obtain pre m where "snd (sund_send (sends sund_port p pre) c m) = Inl (TeRetired c')
      \<or> snd (sund_send (sends sund_port p pre) c m) = Inl (TeUnknownChannel c')"
    using assms by (auto simp: answered_def)
  from sund_send_dead [OF this] show ?thesis
    using sends_pipes [of p pre] cut_off_pipes queue_missing_pipes by metis
qed

text \<open>
  An entry that has not expired is dropped only with its channel: over any port, for a channel on
  which some send was answered that it is dead.
\<close>

lemma names_channel:
  assumes "outbox_inv ob" and "names (ox_entries ob) (oe_id e) c" and "e \<in> set (ox_entries ob)"
  shows "c = oe_channel e"
proof -
  obtain f where f: "f \<in> set (ox_entries ob)" "oe_id f = oe_id e" "oe_channel f = c"
    using assms(2) by (auto simp: names_def)
  have "inj_on oe_id (set (ox_entries ob))" using assms(1) by (simp add: outbox_inv_def distinct_map)
  from inj_onD [OF this f(2,1) assms(3)] f(3) show ?thesis by simp
qed

lemma unexpired_fate:
  assumes "outbox_inv ob" and run: "drain om port ob t s now budget = (ob', t', s', r)"
    and e: "e \<in> set (ox_entries ob)" and "\<not> expired_at e (epoch_seconds now)"
  shows "oe_id e \<in> queued_ids ob' \<or> oe_id e \<in> sent_ids r
    \<or> (\<exists>ms c. answered port t ms (oe_channel e) (TeRetired c) \<or> answered port t ms (oe_channel e) (TeUnknownChannel c))"
proof -
  obtain ms where ms: "\<forall>d \<in> set (rp_dropped r). justified port t ms d
      \<and> names (ox_entries ob) (dp_id d) (dp_channel d)"
    using drain_calls [OF run] by blast
  have why: "\<exists>c. answered port t ms (oe_channel e) (TeRetired c) \<or> answered port t ms (oe_channel e) (TeUnknownChannel c)"
    if d: "d \<in> set (rp_dropped r)" "dp_id d = oe_id e"
      and dead: "dp_reason d = DropChannelRetired \<or> dp_reason d = DropChannelUnknown" for d
  proof -
    have "dp_channel d = oe_channel e" using ms d names_channel [OF assms(1) _ e] by metis
    then show ?thesis using ms d dead by (metis justified_def)
  qed
  from drain_keeps_unexpired [OF assms] show ?thesis using why by blast
qed

lemma relay_keeps_durable:
  assumes "outbox_inv ob" and "drain om sund_port ob p s now budget = (ob', p', s', r)"
    and "e \<in> set (ox_entries ob)" and "is_durable e"
  shows "oe_id e \<in> queued_ids ob' \<or> oe_id e \<in> sent_ids r
    \<or> cut_off (fst p) (oe_channel e) \<or> queue_missing (fst p) (oe_channel e)"
  using unexpired_fate [OF assms(1-3) durable_unexpired [OF assms(4)]] answered_dead by blast

context traced
begin

lemma send_asks_anonymous:
  assumes "sc_wiring (dc_client (sx_device (fst p))) = wi"
    and "signs_correctly (sc_crypto (dc_client (sx_device (fst p))))"
  shows "asks (\<lambda>rq. \<exists>key. anonymous (sc_crypto (dc_client (sx_device (fst p)))) key rq)
    (seen (snd p)) (seen (snd (fst (sund_send p c m))))"
proof -
  have "asks (\<lambda>rq. \<exists>key. anonymous (sc_crypto (dc_client (sx_device (fst p)))) key rq)
      (seen (snd p)) (seen (fst (send_to_queue (dc_client (sx_device (fst p))) (snd p) i key qm)))" for i key qm
    by (rule asks_mono [OF transport_call_asks [OF transport_call.intros(1) [OF prod.collapse [symmetric]] assms]]) blast
  then show ?thesis by (auto simp: sund_send_def case_prod_beta Let_def split: sum.split)
qed

lemma sends_anonymous:
  assumes "sc_wiring (dc_client (sx_device (fst p))) = wi"
    and "signs_correctly (sc_crypto (dc_client (sx_device (fst p))))"
  shows "\<exists>rqs. seen (snd (sends sund_port p ms)) = seen (snd p) @ rqs \<and> length rqs \<le> length ms
    \<and> (\<forall>rq \<in> set rqs. \<exists>key. anonymous (sc_crypto (dc_client (sx_device (fst p)))) key rq)"
proof (induction ms rule: rev_induct)
  case (snoc x ms)
  obtain c m where x: "x = (c, m)" by (cases x)
  let ?q = "sends sund_port p ms"
  have dev: "sx_device (fst ?q) = sx_device (fst p)" using sends_pipes by blast
  obtain rqs where rqs: "seen (snd ?q) = seen (snd p) @ rqs" "length rqs \<le> length ms"
    "\<forall>rq \<in> set rqs. \<exists>key. anonymous (sc_crypto (dc_client (sx_device (fst p)))) key rq"
    using snoc by blast
  obtain more where "seen (snd (fst (sund_send ?q c m))) = seen (snd ?q) @ more" "length more \<le> 1"
    "\<forall>rq \<in> set more. \<exists>key. anonymous (sc_crypto (dc_client (sx_device (fst p)))) key rq"
    using send_asks_anonymous [of ?q c m] assms unfolding dev asks_def by blast
  with rqs show ?case unfolding x by (intro exI [of _ "rqs @ more"]) auto
qed simp

text \<open>A drain over the relay discloses no device, and asks no more than its budget.\<close>

lemma drain_anonymous:
  assumes "drain om sund_port ob p s now budget = (ob', p', s', r)"
    and "sc_wiring (dc_client (sx_device (fst p))) = wi"
    and "signs_correctly (sc_crypto (dc_client (sx_device (fst p))))"
  shows "\<exists>rqs. seen (snd p') = seen (snd p) @ rqs \<and> length rqs \<le> budget
    \<and> (\<forall>rq \<in> set rqs. \<exists>key. anonymous (sc_crypto (dc_client (sx_device (fst p)))) key rq)"
proof -
  obtain ms where "length ms \<le> budget" "p' = sends sund_port p ms" using drain_calls [OF assms(1)] by blast
  then show ?thesis using sends_anonymous [OF assms(2,3), of ms] by (meson le_trans)
qed

end

end
