(* ===== verification/Contract.thy ===== *)
theory Contract
  imports Relay Agent
begin

text \<open>
  The library of the contract suite (\<^verbatim>\<open>core/contract-tests/src/lib.rs\<close>): relays under test with a
  founder each, and the doubles put between a client and its server, a network that goes away and a
  proxy that rewrites paths. What is shown: a drain without a network loses nothing and asks nothing,
  a rewritten request is not the one that was signed, waiting for a server ends, an invitation is
  consumed once, and no two keys or channels of a run coincide.
\<close>

section \<open>Fixed stamps, keys and channel names\<close>

definition fixed_stamp :: "stamp \<Rightarrow> 'w \<Rightarrow> 'w \<times> stamp" where
  "fixed_stamp st w = (w, st)"

text \<open>The static counters are part of the state: \<^verbatim>\<open>fetch_add\<close> gives the old value and wraps.\<close>

definition le_bytes :: "u64 \<Rightarrow> bytes" where
  "le_bytes n = map (\<lambda>i. ucast (drop_bit (8 * i) n)) [0..<8]"

lemma length_le_bytes [simp]: "length (le_bytes n) = 8"
  by (simp add: le_bytes_def)

definition next_seed :: "u64 \<Rightarrow> u64 \<times> bytes" where
  "next_seed next = (next + 1, le_bytes next @ replicate 24 0xA5)"

definition next_channel_id :: "system_time \<Rightarrow> u64 \<Rightarrow> string \<Rightarrow> u64 \<times> string" where
  "next_channel_id now next label =
     (next + 1, label @ ''-'' @ dec_digits (epoch_seconds now) @ ''-'' @ dec_digits (unat next))"

section \<open>A relay under test\<close>

record 'w test_device =
  td_device :: "'w device_client"
  td_key :: device_key

record 'w test_relay =
  tr_name :: string
  tr_address :: server_address
  tr_http :: "'w \<Rightarrow> http_request \<Rightarrow> 'w \<times> (http_error + http_response)"
  tr_client :: "'w sund_client"
  tr_bootstrap :: "string option"
  tr_founder :: "'w test_device option"

text \<open>A call of the suite works on the seed counter and the world; \<open>None\<close> is a panic.\<close>

definition try_enroll_with ::
  "'w test_relay \<Rightarrow> u64 \<times> 'w \<Rightarrow> string \<Rightarrow> (u64 \<times> 'w) \<times> (sund_error + 'w test_device)"
where
  "try_enroll_with rl s token =
     (let (next, sd) = next_seed (fst s);
          key = device_from_seed sd;
          (w, r) = register_device (tr_client rl) (snd s)
             \<lparr>en_token = token, en_public_key = device_public_key (sc_crypto (tr_client rl)) key,
              en_push_endpoint = [], en_capabilities = ''contract-tests''\<rparr>
      in ((next, w), rbind r (\<lambda>e. Inr
            \<lparr>td_device = sund_device (tr_client rl) (ed_device_id e) key, td_key = key\<rparr>)))"

definition suite_enroll_with ::
  "'w test_relay \<Rightarrow> u64 \<times> 'w \<Rightarrow> string \<Rightarrow> (u64 \<times> 'w) \<times> 'w test_device option"
where
  "suite_enroll_with rl s token =
     (let (s, r) = try_enroll_with rl s token in (s, case r of Inl _ \<Rightarrow> None | Inr d \<Rightarrow> Some d))"

definition relay_founder ::
  "'w test_relay \<Rightarrow> u64 \<times> 'w \<Rightarrow> 'w test_relay \<times> (u64 \<times> 'w) \<times> 'w test_device option"
where
  "relay_founder rl s =
     (case tr_founder rl of
        Some d \<Rightarrow> (rl, s, Some d)
      | None \<Rightarrow>
          (case tr_bootstrap rl of
             None \<Rightarrow> (rl, s, None)
           | Some token \<Rightarrow>
               (let rl = rl\<lparr>tr_bootstrap := None\<rparr>;
                    (s, d) = suite_enroll_with rl s token
                in (case d of None \<Rightarrow> rl | Some _ \<Rightarrow> rl\<lparr>tr_founder := d\<rparr>, s, d))))"

definition suite_enroll ::
  "'w test_relay \<Rightarrow> u64 \<times> 'w \<Rightarrow> 'w test_relay \<times> (u64 \<times> 'w) \<times> 'w test_device option"
where
  "suite_enroll rl s =
     (let (rl, s, f) = relay_founder rl s
      in case f of
           None \<Rightarrow> (rl, s, None)
         | Some d \<Rightarrow>
             (let (w, r) = create_invitation (td_device d) (snd s)
              in case r of
                   Inl _ \<Rightarrow> (rl, (fst s, w), None)
                 | Inr invitation \<Rightarrow>
                     (let (s, d) = suite_enroll_with rl (fst s, w) (iv_token invitation) in (rl, s, d))))"

definition impersonate :: "'w test_relay \<Rightarrow> string \<Rightarrow> device_key \<Rightarrow> 'w device_client" where
  "impersonate rl device_id key = sund_device (tr_client rl) device_id key"

text \<open>The same device over other stamps, and over another HTTP client.\<close>

definition resign :: "'w test_relay \<Rightarrow> 'w test_device \<Rightarrow> ('w \<Rightarrow> 'w \<times> stamp) \<Rightarrow> 'w device_client" where
  "resign rl d stamps =
     sund_device ((tr_client rl)\<lparr>sc_wiring := \<lparr>wi_execute = tr_http rl, wi_stamp = stamps\<rparr>\<rparr>)
       (dc_device_id (td_device d)) (td_key d)"

definition through ::
  "crypto \<Rightarrow> replies \<Rightarrow> ('v \<Rightarrow> 'v \<times> stamp) \<Rightarrow> 'w test_device
     \<Rightarrow> ('v \<Rightarrow> http_request \<Rightarrow> 'v \<times> (http_error + http_response)) \<Rightarrow> 'v device_client"
where
  "through cr rp stamps d http =
     sund_device \<lparr>sc_crypto = cr, sc_replies = rp, sc_wiring = \<lparr>wi_execute = http, wi_stamp = stamps\<rparr>\<rparr>
       (dc_device_id (td_device d)) (td_key d)"

section \<open>The relays of the environment\<close>

text \<open>
  A leg without an address is skipped; anything else that is missing or cannot be used is a panic.
\<close>

fun configured ::
  "rustls \<Rightarrow> 'w ureq \<Rightarrow> ('w \<Rightarrow> 'w \<times> stamp) \<Rightarrow> crypto \<Rightarrow> replies \<Rightarrow> (string \<Rightarrow> string option)
     \<Rightarrow> (string \<times> string \<times> string) list \<Rightarrow> 'w test_relay list option"
where
  "configured rl uq stamps cr rp env [] = Some []"
| "configured rl uq stamps cr rp env ((name, address_var, invitation_var) # legs) =
     (case env address_var of
        None \<Rightarrow> configured rl uq stamps cr rp env legs
      | Some text \<Rightarrow>
          (case parse_address text of
             Inl _ \<Rightarrow> None
           | Inr address \<Rightarrow>
               (case env invitation_var of
                  None \<Rightarrow> None
                | Some invitation \<Rightarrow>
                    (case agent_new rl address of
                       Inl _ \<Rightarrow> None
                     | Inr agent \<Rightarrow>
                         map_option (\<lambda>relays. \<lparr>tr_name = name, tr_address = address,
                             tr_http = agent_execute rl uq agent,
                             tr_client = \<lparr>sc_crypto = cr, sc_replies = rp,
                               sc_wiring = \<lparr>wi_execute = agent_execute rl uq agent, wi_stamp = stamps\<rparr>\<rparr>,
                             tr_bootstrap = Some invitation, tr_founder = None\<rparr> # relays)
                           (configured rl uq stamps cr rp env legs)))))"

definition suite_legs :: "(string \<times> string \<times> string) list" where
  "suite_legs = [(''pinned'', ''SUND_PINNED_ADDRESS'', ''SUND_PINNED_INVITATION''),
     (''webpki'', ''SUND_WEBPKI_ADDRESS'', ''SUND_WEBPKI_INVITATION'')]"

definition relays ::
  "rustls \<Rightarrow> 'w ureq \<Rightarrow> ('w \<Rightarrow> 'w \<times> stamp) \<Rightarrow> crypto \<Rightarrow> replies \<Rightarrow> (string \<Rightarrow> string option)
     \<Rightarrow> 'w test_relay list option"
where
  "relays rl uq stamps cr rp env =
     (case configured rl uq stamps cr rp env suite_legs of
        None \<Rightarrow> None
      | Some found \<Rightarrow>
          if found = [] \<and> env ''SUND_CONTRACT_REQUIRED'' = Some ''1'' then None else Some found)"

text \<open>
  The runner: a body for every relay in turn, each left as the body leaves it. A panic in one body ends
  the run.
\<close>

fun run_bodies ::
  "('w test_relay \<Rightarrow> 's \<Rightarrow> ('w test_relay \<times> 's) option) \<Rightarrow> 'w test_relay list \<Rightarrow> 's
     \<Rightarrow> ('w test_relay list \<times> 's) option"
where
  "run_bodies body [] s = Some ([], s)"
| "run_bodies body (rl # rls) s =
     Option.bind (body rl s) (\<lambda>(rl, s).
     map_option (\<lambda>(rls, s). (rl # rls, s)) (run_bodies body rls s))"

definition for_each_relay ::
  "('w test_relay \<Rightarrow> 's \<Rightarrow> ('w test_relay \<times> 's) option) \<Rightarrow> 'w test_relay list option \<Rightarrow> 's
     \<Rightarrow> ('w test_relay list \<times> 's) option"
where
  "for_each_relay body found s = Option.bind found (\<lambda>rls. run_bodies body rls s)"

section \<open>Waiting for a server\<close>

text \<open>The monotonic clock in milliseconds, and sleeping.\<close>

record 'w host =
  ho_now :: "'w \<Rightarrow> nat"
  ho_sleep :: "nat \<Rightarrow> 'w \<Rightarrow> 'w"

partial_function (option) wait_loop ::
  "'w sund_client \<Rightarrow> 'w host \<Rightarrow> nat \<Rightarrow> 'w \<Rightarrow> ('w \<times> (sund_error + string)) option"
where
  "wait_loop sc ho deadline w =
     (case health sc w of
        (w, Inr h) \<Rightarrow> Some (w, Inr (sh_version h))
      | (w, Inl e) \<Rightarrow>
          if deadline \<le> ho_now ho w then Some (w, Inl e)
          else wait_loop sc ho deadline (ho_sleep ho 200 w))"

definition wait_until_ready ::
  "'w test_relay \<Rightarrow> 'w host \<Rightarrow> nat \<Rightarrow> 'w \<Rightarrow> ('w \<times> (sund_error + string)) option"
where
  "wait_until_ready rl ho timeout w = wait_loop (tr_client rl) ho (ho_now ho w + timeout) w"

section \<open>A proxy that rewrites paths, and a network that goes away\<close>

text \<open>\<^verbatim>\<open>str::replacen\<close> with a count of one.\<close>

fun replace_first :: "string \<Rightarrow> string \<Rightarrow> string \<Rightarrow> string" where
  "replace_first pat new s =
     (if starts_with pat s then new @ drop (length pat) s
      else (case s of [] \<Rightarrow> [] | c # cs \<Rightarrow> c # replace_first pat new cs))"

definition rewriting_execute ::
  "('w \<Rightarrow> http_request \<Rightarrow> 'w \<times> (http_error + http_response)) \<Rightarrow> string \<Rightarrow> string
     \<Rightarrow> 'w \<Rightarrow> http_request \<Rightarrow> 'w \<times> (http_error + http_response)"
where
  "rewriting_execute inner old new w rq = inner w (rq\<lparr>hr_path := replace_first old new (hr_path rq)\<rparr>)"

record 'w switch =
  sw_inner :: 'w
  sw_reachable :: bool

definition switch_new :: "'w \<Rightarrow> 'w switch" where
  "switch_new w = \<lparr>sw_inner = w, sw_reachable = True\<rparr>"

definition go_offline :: "'w switch \<Rightarrow> 'w switch" where
  "go_offline s = s\<lparr>sw_reachable := False\<rparr>"

definition come_online :: "'w switch \<Rightarrow> 'w switch" where
  "come_online s = s\<lparr>sw_reachable := True\<rparr>"

definition switch_execute ::
  "('w \<Rightarrow> http_request \<Rightarrow> 'w \<times> (http_error + http_response))
     \<Rightarrow> 'w switch \<Rightarrow> http_request \<Rightarrow> 'w switch \<times> (http_error + http_response)"
where
  "switch_execute inner s rq =
     (if sw_reachable s
      then (let (w, r) = inner (sw_inner s) rq in (s\<lparr>sw_inner := w\<rparr>, r))
      else (s, Inl (HeNetwork ''the network is gone'')))"

text \<open>Wirings with one of the two in the path; stamps come from elsewhere and pass it by.\<close>

definition rewriting :: "string \<Rightarrow> string \<Rightarrow> 'w wiring \<Rightarrow> 'w wiring" where
  "rewriting old new wi = wi\<lparr>wi_execute := rewriting_execute (wi_execute wi) old new\<rparr>"

definition switchable :: "'w wiring \<Rightarrow> 'w switch wiring" where
  "switchable wi = \<lparr>wi_execute = switch_execute (wi_execute wi),
     wi_stamp = (\<lambda>s. let (w, st) = wi_stamp wi (sw_inner s) in (s\<lparr>sw_inner := w\<rparr>, st))\<rparr>"

section \<open>A drain without a network\<close>

lemma switchable_simps [simp]:
  "wi_execute (switchable wi) = switch_execute (wi_execute wi)"
  "sw_reachable (fst (wi_stamp (switchable wi) w)) = sw_reachable w"
  "sw_inner (fst (wi_stamp (switchable wi) w)) = fst (wi_stamp wi (sw_inner w))"
  by (simp_all add: switchable_def case_prod_beta Let_def)

text \<open>While the network is gone a signed call fails as a network failure.\<close>

lemma offline_perform_signed:
  assumes "sc_wiring sc = switchable wi" and "\<not> sw_reachable w"
  shows "\<exists>v. perform_signed sc w rq key d = (w\<lparr>sw_inner := v\<rparr>, Inl (SeHttp (HeNetwork ''the network is gone'')))
    \<and> v = fst (wi_stamp wi (sw_inner w))"
  using assms
  by (simp add: perform_signed_def perform_def switchable_def switch_execute_def case_prod_beta Let_def)

text \<open>
  The state of a relay transport without a network: whatever its world does, the table is as it was
  and the server behind it has seen nothing more.
\<close>

definition offline :: "('w \<Rightarrow> http_request list) \<Rightarrow> 'w switch sund_transport \<Rightarrow> http_request list
    \<Rightarrow> 'w switch sund_state \<Rightarrow> bool" where
  "offline seen t log p \<longleftrightarrow> fst p = t \<and> \<not> sw_reachable (snd p) \<and> seen (sw_inner (snd p)) = log"

context traced
begin

lemma offline_send:
  assumes "sc_wiring (dc_client (sx_device t)) = switchable wi" and "offline seen t log p"
  shows "offline seen t log (fst (sund_send p c m))"
    and "\<exists>e. snd (sund_send p c m) = Inl e \<and> (cut_off t c \<or> (\<exists>d. e = TeBackend d))"
proof -
  obtain w where p: "p = (t, w)" "\<not> sw_reachable w" "seen (sw_inner w) = log"
    using assms(2) by (cases p) (simp add: offline_def)
  let ?sc = "dc_client (sx_device t)"
  have q: "\<exists>e v. send_to_queue ?sc w i key qm = (w\<lparr>sw_inner := v\<rparr>, Inl e) \<and> seen v = log \<and> e \<noteq> SeNotFound"
    for i key qm
  proof -
    show ?thesis
    proof (cases "path_segment i")
      case (Inl e)
      then have "e \<noteq> SeNotFound" by (auto simp: path_segment_def split: if_splits)
      with Inl p(3) show ?thesis by (intro exI [of _ e] exI [of _ "sw_inner w"]) (simp add: send_to_queue_def)
    next
      case seg: (Inr segment)
      define js where "js = JObject
        [(''payload'', JString (cr_b64_encode (sc_crypto ?sc) (qm_payload qm))),
         (''ttl'', json_nat (case qm_ttl qm of None \<Rightarrow> 0 | Some ttl \<Rightarrow> duration_as_secs ttl)),
         (''priority'', JBool (qm_priority qm))]"
      show ?thesis
      proof (cases "to_json (sc_crypto ?sc) js")
        case (Inl e)
        then have "e \<noteq> SeNotFound" by (auto simp: to_json_def map_err_Inl_iff)
        with Inl seg p(3) show ?thesis
          by (intro exI [of _ e] exI [of _ "sw_inner w"]) (simp add: send_to_queue_def js_def)
      next
        case (Inr body)
        define rq where "rq = json_request MtPost (''/v1/send/'' @ segment) body"
        define rq' where "rq' = (if qm_bind_sender_key qm
          then with_header rq ''Sund-Sender-Key'' (cr_b64_encode (sc_crypto ?sc) (device_public_key (sc_crypto ?sc) key))
          else rq)"
        have "send_to_queue ?sc w i key qm = wmap (perform_signed ?sc w rq' key None)
            (\<lambda>response. parse_json (ry_sent (sc_replies ?sc)) (hs_body response))"
          unfolding send_to_queue_def seg wbind_simps Inr [unfolded js_def] rq'_def rq_def Let_def ..
        then show ?thesis using offline_perform_signed [OF assms(1) p(2), of rq' key None] stamp_seen p(3)
          by (auto simp: wmap_def)
      qed
    qed
  qed
  show "offline seen t log (fst (sund_send p c m))"
  proof (cases "rbind (live (sx_channels t) c) (\<lambda>rec. ok_or (TeUnknownChannel c) (qr_outbound rec))")
    case (Inr oq)
    obtain e v where "send_to_queue ?sc w (oq_sender_id oq) (device_from_seed (oq_sender_seed oq))
        \<lparr>qm_payload = ob_ciphertext m, qm_ttl = ob_ttl m, qm_priority = (ob_priority m = PrHigh),
         qm_bind_sender_key = \<not> oq_bound oq\<rparr> = (w\<lparr>sw_inner := v\<rparr>, Inl e)" "seen v = log"
      using q by blast
    with Inr p(2) show ?thesis by (simp add: p(1) offline_def sund_send_def)
  qed (simp add: p offline_def sund_send_def)
  show "\<exists>e. snd (sund_send p c m) = Inl e \<and> (cut_off t c \<or> (\<exists>d. e = TeBackend d))"
  proof (cases "cut_off t c")
    case False
    then obtain rec oq where r: "bt_get (sx_channels t) c = Some rec" "\<not> qr_retired rec" "qr_outbound rec = Some oq"
      by (auto simp: cut_off_def split: option.splits)
    obtain e v where "send_to_queue ?sc w (oq_sender_id oq) (device_from_seed (oq_sender_seed oq))
        \<lparr>qm_payload = ob_ciphertext m, qm_ttl = ob_ttl m, qm_priority = (ob_priority m = PrHigh),
         qm_bind_sender_key = \<not> oq_bound oq\<rparr> = (w\<lparr>sw_inner := v\<rparr>, Inl e)" "e \<noteq> SeNotFound"
      using q by blast
    then show ?thesis using r
      by (simp add: p(1) sund_send_def live_def channel_error_def backend_def split: sund_error.split)
  next
    case True
    then have "\<exists>e. rbind (live (sx_channels t) c) (\<lambda>rec. ok_or (TeUnknownChannel c) (qr_outbound rec)) = Inl e"
      by (cases "bt_get (sx_channels t) c") (auto simp: cut_off_def live_def ok_or_def)
    then obtain e where "rbind (live (sx_channels t) c) (\<lambda>rec. ok_or (TeUnknownChannel c) (qr_outbound rec)) = Inl e" ..
    with True show ?thesis by (simp add: p(1) sund_send_def)
  qed
qed

lemma offline_sends:
  assumes "sc_wiring (dc_client (sx_device t)) = switchable wi" and "offline seen t log p"
  shows "offline seen t log (sends sund_port p ms)"
proof (induction ms rule: rev_induct)
  case (snoc x ms)
  then show ?case using offline_send(1) [OF assms(1)] by (cases x) simp
qed (simp add: assms(2))

text \<open>
  The drain without a network: nothing is sent, nothing reaches the server, the transport's table is
  as it was, and whatever has not expired is still queued unless its channel could not carry it.
\<close>

lemma drain_offline:
  assumes t: "sc_wiring (dc_client (sx_device t)) = switchable wi"
    and off: "\<not> sw_reachable w" and inv: "outbox_inv ob"
    and run: "drain om sund_port ob (t, w) s now budget = (ob', (t', w'), s', r)"
  shows "rp_sent r = []" and "t' = t" and "seen (sw_inner w') = seen (sw_inner w)"
    and "e \<in> set (ox_entries ob) \<Longrightarrow> \<not> expired_at e (epoch_seconds now) \<Longrightarrow> \<not> cut_off t (oe_channel e)
      \<Longrightarrow> oe_id e \<in> queued_ids ob'"
proof -
  let ?P = "offline seen t (seen (sw_inner w))"
  have start: "?P (t, w)" using off by (simp add: offline_def)
  have "rp_sent r = [] \<and> ?P (t', w')"
  proof (rule drain_unsent [where P = ?P and port = sund_port])
    fix p c m
    assume "?P p"
    from offline_send [OF t this] show "?P (fst (po_send sund_port p c m)) \<and> \<not> is_ok (snd (po_send sund_port p c m))"
      by (metis is_ok_simps(1) sund_port_simps(3))
  qed (use start run in blast)+
  then show none: "rp_sent r = []" and "t' = t" and "seen (sw_inner w') = seen (sw_inner w)"
    by (simp_all add: offline_def)
  assume e: "e \<in> set (ox_entries ob)" "\<not> expired_at e (epoch_seconds now)" and c: "\<not> cut_off t (oe_channel e)"
  have "\<not> answered sund_port (t, w) ms (oe_channel e) (TeRetired x)
      \<and> \<not> answered sund_port (t, w) ms (oe_channel e) (TeUnknownChannel x)" for ms x
  proof -
    have "\<exists>d. snd (sund_send (sends sund_port (t, w) pre) (oe_channel e) m) = Inl (TeBackend d)" for pre m
      using offline_send(2) [OF t offline_sends [OF t start, of pre], of "oe_channel e" m] c by auto
    then show ?thesis by (auto simp: answered_def) (metis sum.inject(1) transport_error.distinct(3,5))+
  qed
  with unexpired_fate [OF inv run e] none show "oe_id e \<in> queued_ids ob'" by (auto simp: sent_ids_def)
qed

end

section \<open>What a rewriting proxy does to a signature\<close>

text \<open>Behind the proxy the server sees every request with its path rewritten.\<close>

definition rewritten :: "string \<Rightarrow> string \<Rightarrow> http_request \<Rightarrow> http_request" where
  "rewritten old new rq = rq\<lparr>hr_path := replace_first old new (hr_path rq)\<rparr>"

interpretation rew: observed "rewriting old new (recording wi)" snd "rewritten old new" for old new wi
  by unfold_locales (simp_all add: rewriting_def rewriting_execute_def rewritten_def)

text \<open>The string a server verifies: that of the request as it arrived, with the stamps it carries.\<close>

definition request_string :: "crypto \<Rightarrow> http_request \<Rightarrow> bytes" where
  "request_string cr rq = signing_string cr
     \<lparr>rq_method = method_as_str (hr_method rq), rq_path = hr_path rq,
      rq_timestamp = (case header ''Sund-Timestamp'' rq of None \<Rightarrow> [] | Some t \<Rightarrow> t),
      rq_nonce = (case header ''Sund-Nonce'' rq of None \<Rightarrow> [] | Some n \<Rightarrow> n), rq_body = hr_body rq\<rparr>"

lemma request_string_path:
  "request_string cr (rq\<lparr>hr_path := p\<rparr>) = request_string cr rq \<longleftrightarrow> p = hr_path rq"
  by (auto simp: request_string_def signing_string_def header_def)

lemma signed_string:
  assumes "unsigned_yet rq"
  shows "request_string cr (signed_request cr rq key d st) = signing_string cr
    \<lparr>rq_method = method_as_str (hr_method rq), rq_path = hr_path rq, rq_timestamp = sp_timestamp st,
     rq_nonce = sp_nonce st, rq_body = hr_body rq\<rparr>"
    and "header ''Sund-Timestamp'' (signed_request cr rq key d st) = Some (sp_timestamp st)"
    and "header ''Sund-Nonce'' (signed_request cr rq key d st) = Some (sp_nonce st)"
    and "header ''Sund-Signature'' (signed_request cr rq key d st) = Some (cr_b64_encode cr (cr_sign cr (dk_signing key)
      (request_string cr (signed_request cr rq key d st))))"
proof -
  show h: "header ''Sund-Timestamp'' (signed_request cr rq key d st) = Some (sp_timestamp st)"
    "header ''Sund-Nonce'' (signed_request cr rq key d st) = Some (sp_nonce st)"
    using assms by (simp_all add: signed_request_def unsigned_yet_def Let_def split: option.split)
  then show s: "request_string cr (signed_request cr rq key d st) = signing_string cr
    \<lparr>rq_method = method_as_str (hr_method rq), rq_path = hr_path rq, rq_timestamp = sp_timestamp st,
     rq_nonce = sp_nonce st, rq_body = hr_body rq\<rparr>" by (simp add: request_string_def)
  show "header ''Sund-Signature'' (signed_request cr rq key d st) = Some (cr_b64_encode cr (cr_sign cr (dk_signing key)
      (request_string cr (signed_request cr rq key d st))))"
    unfolding s using assms
    by (simp add: signed_request_def unsigned_yet_def Let_def device_sign_def split: option.split)
qed

text \<open>
  A request whose path was changed on the way is accepted only if the signature of the string that
  was signed verifies for the string of the other path.
\<close>

lemma rewritten_signature:
  assumes "signs_correctly cr" and "signed_as cr key d q"
  shows "carries_signature cr (device_public_key cr key) (q\<lparr>hr_path := p\<rparr>) \<longleftrightarrow>
    cr_verify cr (device_public_key cr key) (request_string cr (q\<lparr>hr_path := p\<rparr>))
      (cr_sign cr (dk_signing key) (request_string cr q))"
proof -
  obtain rq st where u: "unsigned_yet rq" and q: "q = signed_request cr rq key d st"
    using assms(2) by (auto simp: signed_as_def)
  have h: "header n (q\<lparr>hr_path := p\<rparr>) = header n q" for n by (simp add: header_def)
  note s = signed_string [OF u, of cr key d st, folded q]
  show ?thesis using signs_correctlyD [OF assms(1)] s(2-4)
    by (simp add: carries_signature_def h sigauth_verify_def device_public_key_def request_string_def)
qed

lemma rewriting_run:
  assumes "(management_call dc)\<^sup>*\<^sup>* (w, []) (w', requests)"
    and "sc_wiring (dc_client dc) = rewriting old new (recording wi)" and "signs_correctly (sc_crypto (dc_client dc))"
  shows "\<forall>r \<in> set requests. \<exists>q. r = rewritten old new q
    \<and> attributed (sc_crypto (dc_client dc)) (dc_device_id dc) (dc_key dc) q
    \<and> (carries_signature (sc_crypto (dc_client dc)) (device_public_key (sc_crypto (dc_client dc)) (dc_key dc)) r \<longleftrightarrow>
         cr_verify (sc_crypto (dc_client dc)) (device_public_key (sc_crypto (dc_client dc)) (dc_key dc))
           (request_string (sc_crypto (dc_client dc)) r)
           (cr_sign (sc_crypto (dc_client dc)) (dk_signing (dc_key dc)) (request_string (sc_crypto (dc_client dc)) q)))
    \<and> (request_string (sc_crypto (dc_client dc)) r = request_string (sc_crypto (dc_client dc)) q
         \<longleftrightarrow> hr_path r = hr_path q)"
proof
  fix r
  assume "r \<in> set requests"
  with rew.management_run_arrives [OF assms(1,2)] obtain q where r: "r = rewritten old new q"
    and q: "signed_as (sc_crypto (dc_client dc)) (dc_key dc) (Some (dc_device_id dc)) q" by auto
  then show "\<exists>q. r = rewritten old new q
    \<and> attributed (sc_crypto (dc_client dc)) (dc_device_id dc) (dc_key dc) q
    \<and> (carries_signature (sc_crypto (dc_client dc)) (device_public_key (sc_crypto (dc_client dc)) (dc_key dc)) r \<longleftrightarrow>
         cr_verify (sc_crypto (dc_client dc)) (device_public_key (sc_crypto (dc_client dc)) (dc_key dc))
           (request_string (sc_crypto (dc_client dc)) r)
           (cr_sign (sc_crypto (dc_client dc)) (dk_signing (dc_key dc)) (request_string (sc_crypto (dc_client dc)) q)))
    \<and> (request_string (sc_crypto (dc_client dc)) r = request_string (sc_crypto (dc_client dc)) q
         \<longleftrightarrow> hr_path r = hr_path q)"
    using signed_as_reads(2) [OF assms(3) q refl] rewritten_signature [OF assms(3) q] request_string_path
    by (intro exI [of _ q]) (simp add: rewritten_def)
qed

section \<open>Waiting ends\<close>

text \<open>
  Probing a server takes no time back, and sleeping takes at least the time it was given and asks
  nothing. Then the loop ends, with one request at most for each 200 milliseconds begun and one more;
  it gives up only once the deadline has passed, and otherwise reports the version a probe found.
\<close>

definition keeps_time :: "'w host \<Rightarrow> 'w sund_client \<Rightarrow> bool" where
  "keeps_time ho sc \<longleftrightarrow> (\<forall>w. ho_now ho w \<le> ho_now ho (fst (health sc w)))
     \<and> (\<forall>n w. ho_now ho w + n \<le> ho_now ho (ho_sleep ho n w))"

context traced
begin

lemma health_seen: "sc_wiring sc = wi \<Longrightarrow> \<exists>rq. seen (fst (health sc w)) = seen w @ [rq]"
  by (simp add: health_def perform_seen)

lemma wait_loop_ends:
  assumes "sc_wiring sc = wi" and "keeps_time ho sc" and "\<And>n w. seen (ho_sleep ho n w) = seen w"
  shows "\<exists>w' r. wait_loop sc ho deadline w = Some (w', r)
    \<and> length (seen w') \<le> length (seen w) + 1 + (deadline - ho_now ho w + 199) div 200
    \<and> (case r of Inl _ \<Rightarrow> deadline \<le> ho_now ho w'
         | Inr version \<Rightarrow> \<exists>u h. snd (health sc u) = Inr h \<and> version = sh_version h)"
proof (induction "deadline - ho_now ho w" arbitrary: w rule: less_induct)
  case less
  obtain v r where h: "health sc w = (v, r)" by (rule prod.exhaust)
  have v: "ho_now ho w \<le> ho_now ho v" "length (seen v) = length (seen w) + 1"
    using assms(2) health_seen [OF assms(1), of w] h by (auto simp: keeps_time_def dest: spec [of _ w])
  show ?case
  proof (cases "is_ok r \<or> deadline \<le> ho_now ho v")
    case True
    have "\<exists>u y. snd (health sc u) = Inr y \<and> sh_version x = sh_version y" if "r = Inr x" for x
      using h that by (metis snd_conv)
    then show ?thesis using True h v by (subst wait_loop.simps) (auto simp: is_ok_iff split: sum.splits)
  next
    case False
    then obtain e where r: "r = Inl e" by (cases r) auto
    let ?u = "ho_sleep ho 200 v"
    have u: "ho_now ho v + 200 \<le> ho_now ho ?u" using assms(2) by (simp add: keeps_time_def)
    have w: "wait_loop sc ho deadline w = wait_loop sc ho deadline ?u"
      using h r False by (subst wait_loop.simps) simp
    have "deadline - ho_now ho ?u < deadline - ho_now ho w" using False u v(1) by linarith
    from less [OF this] obtain w' r' where
      l: "wait_loop sc ho deadline ?u = Some (w', r')"
        "length (seen w') \<le> length (seen v) + 1 + (deadline - ho_now ho ?u + 199) div 200"
        "case r' of Inl _ \<Rightarrow> deadline \<le> ho_now ho w'
         | Inr version \<Rightarrow> \<exists>u h. snd (health sc u) = Inr h \<and> version = sh_version h"
      using assms(3) by auto
    have "(deadline - ho_now ho ?u + 199) div 200 + 1 \<le> (deadline - ho_now ho w + 199) div 200"
    proof (cases "ho_now ho ?u \<le> deadline")
      case True
      have "(deadline - ho_now ho ?u + 199) div 200 + 1 = (deadline - ho_now ho ?u + 199 + 200) div 200" by simp
      also have "\<dots> \<le> (deadline - ho_now ho w + 199) div 200" using True u v(1) by (intro div_le_mono) linarith
      finally show ?thesis .
    next
      case past: False
      have "200 div 200 \<le> (deadline - ho_now ho w + 199) div 200" using False v(1) by (intro div_le_mono) linarith
      then show ?thesis using past by simp
    qed
    then show ?thesis using l v(2) unfolding w by auto
  qed
qed

end

section \<open>Once, and all different\<close>

text \<open>The founder is enrolled once: every later call gives the same answer and asks nothing.\<close>

lemma relay_founder_once:
  "relay_founder rl s = (rl1, s1, d) \<Longrightarrow> relay_founder rl1 s2 = (rl1, s2, d)"
proof (cases "tr_founder rl")
  case None
  show "relay_founder rl s = (rl1, s1, d) \<Longrightarrow> relay_founder rl1 s2 = (rl1, s2, d)"
  proof (cases "tr_bootstrap rl")
    case (Some token)
    obtain u e where "suite_enroll_with (rl\<lparr>tr_bootstrap := None\<rparr>) s token = (u, e)" by (rule prod.exhaust)
    with None Some show "relay_founder rl s = (rl1, s1, d) \<Longrightarrow> relay_founder rl1 s2 = (rl1, s2, d)"
      by (cases e) (auto simp: relay_founder_def Let_def)
  qed (use None in \<open>auto simp: relay_founder_def\<close>)
next
  case (Some x)
  then have "relay_founder rl q = (rl, q, Some x)" for q by (simp add: relay_founder_def)
  then show "relay_founder rl s = (rl1, s1, d) \<Longrightarrow> relay_founder rl1 s2 = (rl1, s2, d)" by auto
qed

text \<open>
  So over a whole run: a body that only enrols spends the invitation of each leg at most once and
  leaves the leg with a founder.
\<close>

lemma run_bodies_keeps:
  assumes "\<And>rl s rl' s'. body rl s = Some (rl', s') \<Longrightarrow> P rl rl'"
  shows "run_bodies body rls s = Some (rls', s') \<Longrightarrow> list_all2 P rls rls'"
proof (induction rls arbitrary: s rls')
  case (Cons rl rls)
  then show ?case using assms by (auto simp: bind_eq_Some_conv)
qed simp

lemma suite_enroll_founded:
  assumes "suite_enroll rl s = (rl', s', Some d)"
  shows "tr_founder rl' \<noteq> None \<and> tr_name rl' = tr_name rl \<and> tr_bootstrap rl' = (if tr_founder rl = None then None else tr_bootstrap rl)"
  using assms
  by (auto simp: suite_enroll_def relay_founder_def Let_def split: prod.splits option.splits sum.splits)

lemma every_leg_founded:
  assumes "for_each_relay (\<lambda>rl s. case suite_enroll rl s of (rl, s, d) \<Rightarrow> map_option (\<lambda>_. (rl, s)) d)
      (Some rls) s = Some (rls', s')"
  shows "list_all2 (\<lambda>rl rl'. tr_founder rl' \<noteq> None \<and> tr_name rl' = tr_name rl
    \<and> (tr_founder rl = None \<longrightarrow> tr_bootstrap rl' = None)) rls rls'"
  using assms unfolding for_each_relay_def Option.bind.simps
  by (rule run_bodies_keeps [rotated]) (auto split: prod.splits dest: suite_enroll_founded)

lemma le_bytes_inject: "le_bytes m = le_bytes n \<longleftrightarrow> m = n"
proof
  assume e: "le_bytes m = le_bytes n"
  show "m = n"
  proof (rule bit_word_eqI)
    fix i
    assume i: "i < LENGTH(64)"
    then have j: "i div 8 < 8" by simp
    have "(ucast (drop_bit (8 * (i div 8)) m) :: u8) = ucast (drop_bit (8 * (i div 8)) n)"
      using arg_cong [OF e, of "\<lambda>b. b ! (i div 8)"] j by (simp add: le_bytes_def)
    from arg_cong [OF this, of "\<lambda>b. bit b (i mod 8)"] show "bit m i \<longleftrightarrow> bit n i"
      by (simp add: bit_ucast_iff bit_drop_bit_eq)
  qed
qed simp

lemma next_seed_distinct:
  "length (snd (next_seed n)) = 32" "snd (next_seed m) = snd (next_seed n) \<longleftrightarrow> m = n"
  by (simp_all add: next_seed_def le_bytes_inject length_le_bytes)

text \<open>A channel name ends in the counter, which contains no dash.\<close>

lemma last_field:
  assumes "list_all is_ascii_digit x" and "list_all is_ascii_digit y" and "a @ ''-'' @ x = b @ ''-'' @ y"
  shows "x = y"
proof -
  have t: "takeWhile (\<lambda>c. c \<noteq> CHR ''-'') (rev (p @ ''-'' @ q)) = rev q" if "list_all is_ascii_digit q" for p q
  proof -
    have "\<forall>c \<in> set (rev q). c \<noteq> CHR ''-''"
      using that by (auto simp: list_all_iff is_ascii_digit_def)
    then show ?thesis by (induction "rev q") (simp_all add: takeWhile_append)
  qed
  from t [OF assms(1), of a] t [OF assms(2), of b] assms(3) show ?thesis by (metis rev_is_rev_conv)
qed

lemma next_channel_id_distinct:
  assumes "snd (next_channel_id now m label) = snd (next_channel_id now' n label')"
  shows "m = n"
proof -
  have "(label @ ''-'' @ dec_digits (epoch_seconds now)) @ ''-'' @ dec_digits (unat m)
      = (label' @ ''-'' @ dec_digits (epoch_seconds now')) @ ''-'' @ dec_digits (unat n)"
    using assms by (simp add: next_channel_id_def)
  from last_field [OF dec_digits_digit dec_digits_digit this] have "int (unat m) = int (unat n)"
    by (metis dec_digits_val)
  then show ?thesis by (simp add: word_uint_eq_iff)
qed

section \<open>The legs that run\<close>

text \<open>
  Every relay of a run has the address its variable states, an agent in the trust mode of that
  address, and an invitation nobody has used. A run that must not be empty is not.
\<close>

definition leg_ok :: "rustls \<Rightarrow> 'w ureq \<Rightarrow> (string \<Rightarrow> string option) \<Rightarrow> 'w test_relay \<Rightarrow> bool" where
  "leg_ok rl uq env r \<longleftrightarrow> (\<exists>var text. env var = Some text \<and> parse_address text = Inr (tr_address r))
     \<and> (\<exists>agent. agent_new rl (tr_address r) = Inr agent \<and> tr_http r = agent_execute rl uq agent
          \<and> wi_execute (sc_wiring (tr_client r)) = agent_execute rl uq agent)
     \<and> (\<exists>var. tr_bootstrap r = env var \<and> env var \<noteq> None) \<and> tr_founder r = None"

lemma configured_legs:
  "configured rl uq stamps cr rp env legs = Some rs \<Longrightarrow> list_all (leg_ok rl uq env) rs \<and> length rs \<le> length legs"
proof (induction legs arbitrary: rs)
  case (Cons leg legs)
  obtain name avar ivar where l: "leg = (name, avar, ivar)" by (rule prod_cases3)
  show ?case
  proof (cases "env avar")
    case None
    then show ?thesis using Cons by (fastforce simp: l)
  next
    case (Some t)
    with Cons.prems obtain address inv agent rs' where
      p: "parse_address t = Inr address" "env ivar = Some inv" "agent_new rl address = Inr agent"
        "configured rl uq stamps cr rp env legs = Some rs'"
      and r: "rs = \<lparr>tr_name = name, tr_address = address, tr_http = agent_execute rl uq agent,
          tr_client = \<lparr>sc_crypto = cr, sc_replies = rp,
            sc_wiring = \<lparr>wi_execute = agent_execute rl uq agent, wi_stamp = stamps\<rparr>\<rparr>,
          tr_bootstrap = Some inv, tr_founder = None\<rparr> # rs'"
      by (auto simp: l split: sum.splits option.splits)
    have "leg_ok rl uq env (hd rs)" using Some p by (force simp: r leg_ok_def)
    then show ?thesis using Cons.IH [OF p(4)] by (simp add: r)
  qed
qed simp

lemma relays_legs:
  assumes "relays rl uq stamps cr rp env = Some rs"
  shows "list_all (leg_ok rl uq env) rs \<and> length rs \<le> 2
    \<and> (env ''SUND_CONTRACT_REQUIRED'' = Some ''1'' \<longrightarrow> rs \<noteq> [])"
proof -
  have "configured rl uq stamps cr rp env suite_legs = Some rs"
    and "env ''SUND_CONTRACT_REQUIRED'' = Some ''1'' \<Longrightarrow> rs \<noteq> []"
    using assms by (auto simp: relays_def split: option.splits if_splits)
  then show ?thesis using configured_legs [of rl uq stamps cr rp env suite_legs rs] by (simp add: suite_legs_def)
qed

end
