(* ===== verification/SampleClient.thy ===== *)
theory SampleClient
  imports Sample Ffi Contract
begin

text \<open>A concrete server, agent and client, on which the statements about requests, addresses and the
  client facade are exercised.\<close>

section \<open>A server that always answers\<close>

definition sample_replies :: replies where
  "sample_replies =
     \<lparr>ry_health = (\<lambda>_. Inr \<lparr>sh_status = ''ok'', sh_version = ''1''\<rparr>),
      ry_registered = (\<lambda>_. Inr (''a'', ''acc'')), ry_sent = (\<lambda>_. Inr ''m''), ry_messages = (\<lambda>_. Inr []),
      ry_deleted = (\<lambda>_. Inr 0),
      ry_devices = (\<lambda>_. Inr [\<lparr>dw_id = ''x'', dw_public_key = replicate 32 (CHR ''k''), dw_push_endpoint = [],
         dw_capabilities = [], dw_created = [], dw_last_seen = [], dw_revoked = False\<rparr>]),
      ry_invitation = (\<lambda>_. Inr ([], [], [])), ry_invitations = (\<lambda>_. Inr []), ry_bundle = (\<lambda>_. Inr ([], [])),
      ry_queue = (\<lambda>_. Inr \<lparr>qi_recipient_id = ''r'', qi_sender_id = ''s''\<rparr>), ry_error = (\<lambda>_. Inl [])\<rparr>"

text \<open>The world is nothing; every request is answered with the status, or fails.\<close>

definition sample_wiring :: "http_error + u16 \<Rightarrow> unit wiring" where
  "sample_wiring r =
     \<lparr>wi_execute = (\<lambda>w rq. (w, rbind r (\<lambda>status. Inr \<lparr>hs_status = status, hs_body = []\<rparr>))),
      wi_stamp = (\<lambda>w. (w, \<lparr>sp_timestamp = ''t'', sp_nonce = ''n''\<rparr>))\<rparr>"

definition sample_client :: "'w wiring \<Rightarrow> 'w sund_client" where
  "sample_client wi = \<lparr>sc_crypto = sample_crypto, sc_replies = sample_replies, sc_wiring = wi\<rparr>"

definition sample_device :: "'w wiring \<Rightarrow> 'w device_client" where
  "sample_device wi = sund_device (sample_client wi) ''a'' (device_from_seed [1])"

lemma sample_client_simps [simp]:
  "sc_crypto (sample_client wi) = sample_crypto" "sc_replies (sample_client wi) = sample_replies"
  "sc_wiring (sample_client wi) = wi" "dc_client (sample_device wi) = sample_client wi"
  "dc_device_id (sample_device wi) = ''a''" "dc_key (sample_device wi) = device_from_seed [1]"
  by (simp_all add: sample_client_def sample_device_def sund_device_def)

text \<open>A transport with one channel on which the peer's queue is known.\<close>

definition sample_channels :: channel_table where
  "sample_channels =
     fst (attach_outbound (declare_channel bt_empty ''c'' [3]) ''c'' ''s'' [4])"

definition sample_transport :: "'w wiring \<Rightarrow> 'w sund_transport" where
  "sample_transport wi = (sund_transport_new (sample_device wi))\<lparr>sx_channels := sample_channels\<rparr>"

definition sample_outbound :: outbound where
  "sample_outbound = \<lparr>ob_ciphertext = [7], ob_priority = PrNormal, ob_ttl = None\<rparr>"

lemma sample_transport_simps [simp]:
  "sx_device (sample_transport wi) = sample_device wi"
  "sx_channels (sample_transport wi) = sample_channels"
  by (simp_all add: sample_transport_def sund_transport_new_def)

lemma sample_channels_get:
  "bt_get sample_channels ''c'' = Some \<lparr>qr_channel = ''c'', qr_recipient_seed = [3], qr_inbound = None,
     qr_outbound = Some \<lparr>oq_sender_id = ''s'', oq_sender_seed = [4], oq_bound = False\<rparr>, qr_retired = False\<rparr>"
  by (simp add: sample_channels_def attach_outbound_def declare_channel_def live_def)

lemma sample_path [simp]: "path_segment ''s'' = Inr ''s''" "path_segment ''r'' = Inr ''r''"
  by (simp_all add: path_segment_def is_ascii_alphanumeric_def)

lemma sample_to_json [simp]: "to_json sample_crypto v = Inr []"
  by (simp add: to_json_def sample_crypto_def)

text \<open>The same, with the peer's queue attached to the channel the sample outbox uses.\<close>

definition sample_relay :: "'w wiring \<Rightarrow> 'w sund_transport" where
  "sample_relay wi = (sund_transport_new (sample_device wi))\<lparr>sx_channels :=
     fst (attach_outbound (declare_channel bt_empty ''q'' [3]) ''q'' ''s'' [4])\<rparr>"

lemma sample_relay_device [simp]: "sx_device (sample_relay wi) = sample_device wi"
  by (simp add: sample_relay_def sund_transport_new_def)

lemma sample_relay_get:
  "bt_get (sx_channels (sample_relay wi)) ''q'' = Some \<lparr>qr_channel = ''q'', qr_recipient_seed = [3], qr_inbound = None,
     qr_outbound = Some \<lparr>oq_sender_id = ''s'', oq_sender_seed = [4], oq_bound = False\<rparr>, qr_retired = False\<rparr>"
  by (simp add: sample_relay_def attach_outbound_def declare_channel_def live_def)

lemma sample_send: "\<exists>w'. send_to_queue (sample_client (sample_wiring (Inr 200))) w ''s'' key m = (w', Inr ''m'')"
  by (simp add: send_to_queue_def wbind_def Let_def perform_signed_def perform_def sample_wiring_def
      check_status_def parse_json_def sample_replies_def wmap_def)

lemma sample_relay_carries:
  "\<not> cut_off (sample_relay (sample_wiring (Inr 200))) ''q''"
  "\<not> queue_missing (sample_relay (sample_wiring (Inr 200))) ''q''"
proof -
  have "snd (send_to_queue (sample_client (sample_wiring (Inr 200))) w ''s'' key m) \<noteq> Inl SeNotFound" for w key m
    using sample_send [of w key m] by auto
  then show "\<not> queue_missing (sample_relay (sample_wiring (Inr 200))) ''q''"
    by (simp add: queue_missing_def sample_relay_get)
qed (simp add: cut_off_def sample_relay_get)

section \<open>Addresses\<close>

lemma sample_no_ip [simp]: "\<not> is_ip ''h''" "\<not> is_ip '' ''"
  by (simp_all add: is_ip_def read_ipv4_def read_ipv6_def read_separator_def read_number_def
      radix_digit_def Let_def strip_prefix_def)

lemma sample_host_ok [simp]: "host_ok ''h''" "host_ok '' ''"
  by (simp_all add: host_ok_def plain_def starts_with_def strip_prefix_def)

definition sample_address :: server_address where
  "sample_address = \<lparr>sa_mode = WebPki, sa_host = ''h'', sa_port = 443\<rparr>"

lemma sample_address_parses: "parse_address ''sund+webpki://h'' = Inr sample_address"
proof -
  have "trim_end ''h'' = ''h''" by (simp add: trim_end_id head_in_def white_space_def)
  then have "parse_address (display_address sample_address) = Inr sample_address"
    by (subst reparse_iff)
      (simp_all add: address_ok_def open_ended_def sample_address_def)
  then show ?thesis
    by (simp add: display_address_def sample_address_def webpki_default_port_def webpki_scheme_def
        render_host_def)
qed

text \<open>A host that is a space, with the port written out.\<close>

definition sample_blank :: server_address where
  "sample_blank = \<lparr>sa_mode = WebPki, sa_host = '' '', sa_port = 443\<rparr>"

lemma sample_blank_parses: "parse_address ''sund+webpki:// :443'' = Inr sample_blank"
proof -
  have d: "dec_digits (unat (443 :: u16)) = ''443''" by (simp add: dec_digits.simps digit_char_def) code_simp
  have p: "'' :443'' = render_host '' '' @ '':'' @ dec_digits (unat (443 :: u16))"
    unfolding d by (simp add: render_host_def)
  have "trim_end (''sund+webpki:// :44'' @ ''3'') = ''sund+webpki:// :44'' @ ''3''"
    by (intro trim_end_ends) (auto simp: white_space_def intro: exI [where x = "[]"])
  then have "trim (webpki_scheme @ '' :443'') = webpki_scheme @ '' :443''"
    by (intro trim_schemed) (simp_all add: webpki_scheme_def)
  then have "parse_address (webpki_scheme @ '' :443'') = parse_webpki '' :443''" by (rule parse_scheme)
  moreover have "parse_webpki '' :443'' = Inr sample_blank"
    using split_authority_with_port [of "'' ''" 443, folded p]
    by (auto simp: parse_webpki_iff sample_blank_def)
  ultimately show ?thesis by (simp add: webpki_scheme_def)
qed

lemma sample_blank_open: "open_ended sample_blank"
  by (simp add: open_ended_def sample_blank_def webpki_default_port_def trim_end_id head_in_def white_space_def)

section \<open>An agent\<close>

text \<open>Every certificate parses and is its own key; no chain is refused.\<close>

definition sample_rustls :: rustls where
  "sample_rustls =
     \<lparr>rl_spki = Inr, rl_add_root = (\<lambda>_. Inr ()), rl_verify_chain = (\<lambda>_ _ _ _. Inr ()), rl_versions = Inr (),
      rl_native_certs = [[1]], rl_webpki_roots = [], rl_text = (\<lambda>_. ''refused'')\<rparr>"

definition sample_ureq :: "ureq_error + u16 \<Rightarrow> unit ureq" where
  "sample_ureq r =
     \<lparr>uq_build = (\<lambda>_ _ _ _. Inr ()),
      uq_run = (\<lambda>_ _ w _ _ _ _. (w, rbind r (\<lambda>status. Inr (status, Inr []))))\<rparr>"

definition sample_stamps :: "unit \<Rightarrow> unit \<times> stamp" where
  "sample_stamps w = (w, \<lparr>sp_timestamp = ''t'', sp_nonce = ''n''\<rparr>)"

definition sample_agent :: "rustls \<Rightarrow> 'w ureq \<Rightarrow> ('w \<Rightarrow> 'w \<times> stamp) \<Rightarrow> 'w wiring" where
  "sample_agent rl uq stamps =
     \<lparr>wi_execute = agent_execute rl uq \<lparr>ha_tls = PinnedConfig [], ha_config = \<lparr>ac_timeout_secs = 30,
        ac_status_as_error = False, ac_max_redirects = 0, ac_redirects_will_error = True, ac_https_only = True,
        ac_user_agent = []\<rparr>, ha_origin = ''https://h:443''\<rparr>, wi_stamp = stamps\<rparr>"

section \<open>A relay that does not answer\<close>

text \<open>The world is a clock; a request takes seven milliseconds and fails.\<close>

definition sample_ticking :: "nat wiring" where
  "sample_ticking = \<lparr>wi_execute = (\<lambda>w rq. (w + 7, Inl (HeNetwork ''down''))),
     wi_stamp = (\<lambda>w. (w, \<lparr>sp_timestamp = ''t'', sp_nonce = ''n''\<rparr>))\<rparr>"

definition sample_host :: "(nat \<times> http_request list) host" where
  "sample_host = \<lparr>ho_now = fst, ho_sleep = (\<lambda>n w. (fst w + n, snd w))\<rparr>"

definition sample_leg :: "(nat \<times> http_request list) test_relay" where
  "sample_leg = \<lparr>tr_name = ''pinned'', tr_address = sample_address, tr_http = wi_execute (recording sample_ticking),
     tr_client = sample_client (recording sample_ticking), tr_bootstrap = None, tr_founder = None\<rparr>"

section \<open>A client that has enrolled\<close>

definition sample_seeds :: seeds where
  "sample_seeds = \<lparr>ks_device = replicate 32 1, ks_identity = replicate 32 2\<rparr>"

definition sample_profile :: profile where
  "sample_profile = \<lparr>pf_display_name = ''A'', pf_member_group = ''g'', pf_role = ''adult''\<rparr>"

text \<open>A codec for one state: it writes that one and refuses the others.\<close>

definition sample_codec :: "client_state \<Rightarrow> state_codec" where
  "sample_codec st =
     \<lparr>sj_state_to_vec = (\<lambda>s. if s = st then Inr [] else Inl ''unexpected''), sj_state_from_slice = (\<lambda>_. Inr st),
      sj_bundle_to_vec = (\<lambda>_. Inr [])\<rparr>"

lemma sample_codec_reads_back: "codec_reads_back (sample_codec st)"
  by (simp add: codec_reads_back_def sample_codec_def)

definition sample_writer :: state_codec where
  "sample_writer =
     \<lparr>sj_state_to_vec = (\<lambda>_. Inl ''unused''), sj_state_from_slice = (\<lambda>_. Inl ''unused''),
      sj_bundle_to_vec = (\<lambda>_. Inr [])\<rparr>"

definition sample_profile_view :: profile_view where
  "sample_profile_view = \<lparr>pv_display_name = ''A'', pv_member_group = ''g'', pv_role = ''adult''\<rparr>"

lemma sample_publishes_own:
  "\<exists>s' sb. publish_bundle sample_crypto sample_olm (session_create sample_olm i k) t = (s', Inr sb)"
  by (simp add: publish_bundle_def session_create_def sample_olm_def Let_def sample_sign
      bundle_value_float_free)

lemma sample_enrolls_over:
  assumes "\<And>w rq. \<exists>w'. wi_execute wi w rq = (w', Inr \<lparr>hs_status = 200, hs_body = []\<rparr>)"
  shows "\<exists>w' a. enroll_with sample_olm sample_writer (sample_client wi) w address i pf sd now = (w', Inr a)"
proof -
  have p: "\<exists>w'. perform (sample_client wi) w rq = (w', Inr \<lparr>hs_status = 200, hs_body = []\<rparr>)" for w rq
    using assms [of w rq] by (auto simp: perform_def check_status_def)
  have q: "\<exists>w'. perform_signed (sample_client wi) w rq key d = (w', Inr \<lparr>hs_status = 200, hs_body = []\<rparr>)"
    for w rq key d
    using p by (simp add: perform_signed_def case_prod_beta Let_def)
  obtain s' sb where b: "publish_bundle sample_crypto sample_olm
      (session_create sample_olm ''a'' (seeds_identity_key sd)) (format_rfc3339 now) = (s', Inr sb)"
    using sample_publishes_own by blast
  obtain w1 where r: "register_device (sample_client wi) w
      \<lparr>en_token = i, en_public_key = device_public_key sample_crypto (seeds_device_key sd),
       en_push_endpoint = [], en_capabilities = []\<rparr> = (w1, Inr \<lparr>ed_device_id = ''a'', ed_account_id = ''acc''\<rparr>)"
    using p [of w "json_request MtPost ''/v1/devices/register'' []"]
    by (auto simp: register_device_def wmap_def parse_json_def sample_replies_def)
  obtain w2 where u: "push_bundle (sund_device (sample_client wi) ''a'' (seeds_device_key sd)) w1 [] = (w2, Inr ())"
    using q [of w1 "json_request MtPut ''/v1/me/bundle'' []" "seeds_device_key sd" "Some ''a''"]
    by (auto simp: push_bundle_def signed_call_def wmap_def sund_device_def)
  show ?thesis
    by (simp add: enroll_with_def enroll_registered_def r u b wmap_err_def bundle_encode_def sample_writer_def)
qed

lemma sample_enrolls_recorded:
  "\<exists>w requests a. enroll_with sample_olm sample_writer (sample_client (recording (sample_wiring (Inr 200))))
     ((), []) address i pf sd now = ((w, requests), Inr a)"
  using sample_enrolls_over [of "recording (sample_wiring (Inr 200))" "((), [])"]
  by (simp add: sample_wiring_def)

lemma sample_client_enrolls:
  "\<exists>a. client_enroll sample_rustls (sample_ureq (Inr 200)) sample_stamps sample_crypto sample_replies sample_olm
     sample_writer () ''sund+webpki://h'' i pf sd now = ((), Inr a)"
proof -
  have agent: "\<exists>wi. agent_for sample_rustls (sample_ureq (Inr 200)) sample_stamps sample_address = Inr wi
      \<and> (\<forall>w rq. \<exists>w'. wi_execute wi w rq = (w', Inr \<lparr>hs_status = 200, hs_body = []\<rparr>))"
    by (simp add: agent_for_def agent_new_def sample_address_def webpki_config_def sample_rustls_def Let_def
        agent_execute_def sample_ureq_def)
  then obtain wi where "agent_for sample_rustls (sample_ureq (Inr 200)) sample_stamps sample_address = Inr wi"
    and wi: "\<And>w rq. \<exists>w'. wi_execute wi w rq = (w', Inr \<lparr>hs_status = 200, hs_body = []\<rparr>)" by blast
  then show ?thesis using sample_enrolls_over [OF wi, of "()"]
    by (simp add: client_enroll_def sample_address_parses sund_client_new_def sample_client_def)
qed

lemma sample_seeds_cross: "to_seeds (view_of_seeds sample_seeds) = Inr sample_seeds"
  by (rule seeds_cross) (simp_all add: sample_seeds_def seed_bytes_def)

lemma sample_ffi_enrolls:
  "\<exists>e. ffi_enroll sample_rustls (sample_ureq (Inr 200)) sample_stamps sample_crypto sample_replies sample_olm
     sample_writer () ''sund+webpki://h'' i pf (view_of_seeds sample_seeds) now = ((), Inr e)"
  using sample_client_enrolls [of i "profile_of_view pf" sample_seeds now]
  by (auto simp: ffi_enroll_def sample_seeds_cross wmap_err_def)

section \<open>A whole client\<close>

definition sample_inner :: "'w wiring \<Rightarrow> (bool, string, 'w) client" where
  "sample_inner wi = ap_outcome (founded_client (sample_client wi) sample_address
     \<lparr>ed_device_id = ''a'', ed_account_id = ''acc''\<rparr> sample_profile sample_seeds sample_now
     (session_create sample_olm ''a'' (seeds_identity_key sample_seeds)))"

definition sample_object :: "'w wiring \<Rightarrow> (bool, string, 'w) beacon_client" where
  "sample_object wi = beacon_client_new (sample_inner wi)"

lemma sample_inner_device [simp]: "dc_client (cl_device (sample_inner wi)) = sample_client wi"
  by (simp add: sample_inner_def founded_client_def Let_def sund_device_def)

lemma sample_object_live: "\<not> bc_poisoned (sample_object wi)"
  by (simp add: sample_object_def beacon_client_new_def)

lemma sample_agent_wiring:
  "sc_wiring (dc_client (cl_device (bc_inner (sample_object (sample_agent rl uq stamps))))) =
     \<lparr>wi_execute = agent_execute rl uq \<lparr>ha_tls = PinnedConfig [], ha_config = \<lparr>ac_timeout_secs = 30,
        ac_status_as_error = False, ac_max_redirects = 0, ac_redirects_will_error = True, ac_https_only = True,
        ac_user_agent = []\<rparr>, ha_origin = ''https://h:443''\<rparr>, wi_stamp = stamps\<rparr>"
  by (simp add: sample_object_def beacon_client_new_def sample_agent_def)

lemma sample_address_whole: "address_ok sample_address" "\<not> open_ended sample_address"
  using parse_address_ok [OF sample_address_parses]
  by (simp_all add: open_ended_def sample_address_def trim_end_id head_in_def white_space_def)

lemma sample_inner_wf: "client_wf sample_seeds (sample_inner wi)"
  using sample_address_whole(1)
  by (auto simp: sample_inner_def client_wf_def founded_client_def Let_def found_inv found_self
      sund_transport_new_def sund_device_def session_inv_def identities_parse_def session_create_def)

lemma sample_inner_address [simp]: "cl_address (sample_inner wi) = sample_address"
  by (simp add: sample_inner_def founded_client_def Let_def)

lemma sample_opens:
  "open_with sample_olm (sample_codec (client_state_of sample_olm (sample_inner wi))) (sample_client wi)
     [state_version] sample_seeds = Inr (sample_inner wi)"
proof -
  have s: "client_snapshot sample_olm (sample_codec (client_state_of sample_olm (sample_inner wi))) (sample_inner wi)
      = Inr [state_version]"
    by (simp add: client_snapshot_def state_encode_def sample_codec_def)
  show ?thesis
    using reopen_iff [OF sample_inner_wf sample_olm_encodings sample_codec_reads_back s] sample_address_whole
    by simp
qed

lemma sample_listed:
  "\<exists>rows. server_devices (sample_inner (sample_wiring (Inr 200))) () = ((), Inr rows)
     \<and> map vr_device_id rows = [''x''] \<and> \<not> is_active (cl_roster (sample_inner (sample_wiring (Inr 200)))) ''x''"
  by (simp add: server_devices_def list_devices_def signed_call_def perform_signed_def perform_def wmap_def
      wmap_err_def sample_wiring_def check_status_def parse_json_def sample_replies_def record_of_view_def
      decode_base64_def sample_crypto_def server_row_of_def case_prod_beta Let_def)
    (simp add: sample_inner_def founded_client_def Let_def found_def is_active_def)

lemma sample_removed_shown:
  "bt_contains (ro_tombstones sample_removed) ''b''" "bt_contains (ro_devices sample_removed) ''b''"
  by simp_all

end
