(* ===== verification/Tls.thy ===== *)
theory Tls
  imports Agent
begin

text \<open>
  The TLS side of the shipping HTTP client (\<^verbatim>\<open>core/sund-client/src/agent.rs\<close>): the handshake half of
  the pinned verifier, and \<^verbatim>\<open>RustlsTransport\<close>, the pump between ureq's buffers and the TLS stream.
  The signature algorithms, the stream and the buffers belong to rustls and ureq and are parameters.
  What is shown: bytes cross in order, none invented and none dropped, and a failure inside the
  stream keeps its kind up to the application.
\<close>

section \<open>The handshake\<close>

record 'a provider =
  pv_algorithms :: 'a
  pv_tls12 :: "bytes \<Rightarrow> bytes \<Rightarrow> bytes \<Rightarrow> 'a \<Rightarrow> rustls_error + unit"
  pv_tls13 :: "bytes \<Rightarrow> bytes \<Rightarrow> bytes \<Rightarrow> 'a \<Rightarrow> rustls_error + unit"
  pv_schemes :: "'a \<Rightarrow> u16 list"

record 'a pinned_verifier =
  pk_fingerprint :: bytes
  pk_provider :: "'a provider"

definition pinned_verifier_new :: "'a provider \<Rightarrow> bytes \<Rightarrow> 'a pinned_verifier" where
  "pinned_verifier_new pv fingerprint = \<lparr>pk_fingerprint = fingerprint, pk_provider = pv\<rparr>"

definition verify_tls12_signature ::
  "'a pinned_verifier \<Rightarrow> bytes \<Rightarrow> bytes \<Rightarrow> bytes \<Rightarrow> rustls_error + unit"
where
  "verify_tls12_signature v message cert dss =
     pv_tls12 (pk_provider v) message cert dss (pv_algorithms (pk_provider v))"

definition verify_tls13_signature ::
  "'a pinned_verifier \<Rightarrow> bytes \<Rightarrow> bytes \<Rightarrow> bytes \<Rightarrow> rustls_error + unit"
where
  "verify_tls13_signature v message cert dss =
     pv_tls13 (pk_provider v) message cert dss (pv_algorithms (pk_provider v))"

definition supported_verify_schemes :: "'a pinned_verifier \<Rightarrow> u16 list" where
  "supported_verify_schemes v = pv_schemes (pk_provider v) (pv_algorithms (pk_provider v))"

section \<open>The pump\<close>

text \<open>
  \<^verbatim>\<open>LazyBuffers\<close>: \<open>bf_output\<close> is the output buffer, \<open>bf_room\<close> the length of \<^verbatim>\<open>input_append_buf\<close>,
  \<open>bf_fill\<close> what writing at its front leaves, \<open>bf_appended\<close> is \<^verbatim>\<open>input_appended\<close>, and \<open>bf_input\<close> what
  ureq has been given to read. \<^verbatim>\<open>StreamOwned\<close> over the socket: \<open>sm_write\<close> is \<^verbatim>\<open>write_all\<close>, \<open>sm_read\<close>
  reads at most that many bytes. \<open>sm_from_io\<close> is the conversion behind \<^verbatim>\<open>?\<close>.
\<close>

record 'b buffers =
  bf_output :: "'b \<Rightarrow> bytes"
  bf_room :: "'b \<Rightarrow> nat"
  bf_fill :: "'b \<Rightarrow> bytes \<Rightarrow> 'b"
  bf_appended :: "'b \<Rightarrow> nat \<Rightarrow> 'b"
  bf_input :: "'b \<Rightarrow> bytes"

record ('s, 't) stream =
  sm_timeout :: "'s \<Rightarrow> 't \<Rightarrow> 's"
  sm_write :: "'s \<Rightarrow> bytes \<Rightarrow> 's \<times> (io_error + unit)"
  sm_read :: "'s \<Rightarrow> nat \<Rightarrow> 's \<times> (io_error + bytes)"
  sm_open :: "'s \<Rightarrow> 's \<times> bool"
  sm_from_io :: "io_error \<Rightarrow> ureq_error"

record ('b, 's) rustls_transport =
  rt_buffers :: 'b
  rt_stream :: 's

text \<open>
  The connector. \<open>lazy\<close> is \<^verbatim>\<open>LazyBuffers::new\<close>, \<open>start_tls\<close> is \<^verbatim>\<open>ClientConnection::new\<close> on the
  configuration, and \<open>own\<close> puts the connection over the socket.
\<close>

record connection_details =
  cd_needs_tls :: bool
  cd_host :: "string option"
  cd_input_size :: nat
  cd_output_size :: nat

definition connect ::
  "(nat \<Rightarrow> nat \<Rightarrow> 'b) \<Rightarrow> (string \<Rightarrow> bool) \<Rightarrow> (string \<Rightarrow> 'c option) \<Rightarrow> ('c \<Rightarrow> 'i \<Rightarrow> 's)
     \<Rightarrow> connection_details \<Rightarrow> 'i option \<Rightarrow> ureq_error + ('b, 's) rustls_transport"
where
  "connect lazy valid_name start_tls own d chained =
     rbind (connect_checks valid_name (chained \<noteq> None) (cd_needs_tls d) (cd_host d) start_tls) (\<lambda>connection.
     Inr \<lparr>rt_buffers = lazy (cd_input_size d) (cd_output_size d), rt_stream = own connection (the chained)\<rparr>)"

text \<open>
  No connection without TLS: what the connector hands back is over a connection it started on the
  transport it was given, and a plain address or a missing transport is a failure that reads as TLS.
\<close>

lemma connect_Inr:
  "connect lazy valid_name start_tls own d chained = Inr t \<longleftrightarrow>
     cd_needs_tls d \<and> (\<exists>i connection. chained = Some i
       \<and> start_tls (sni_name valid_name (cd_host d)) = Some connection
       \<and> t = \<lparr>rt_buffers = lazy (cd_input_size d) (cd_output_size d), rt_stream = own connection i\<rparr>)"
  by (auto simp: connect_def connect_checks_def ok_or_def split: option.splits)

lemma connect_Inl:
  "connect lazy valid_name start_tls own d chained = Inl e \<Longrightarrow> \<exists>msg. classify rl e = HeTls msg"
  by (auto simp: connect_def connect_checks_def ok_or_def classify_def split: option.splits if_splits)

text \<open>Slicing beyond the output buffer panics: \<open>None\<close>.\<close>

definition transmit_output ::
  "'b buffers \<Rightarrow> ('s, 't) stream \<Rightarrow> ('b, 's) rustls_transport \<Rightarrow> nat \<Rightarrow> 't
     \<Rightarrow> (('b, 's) rustls_transport \<times> (ureq_error + unit)) option"
where
  "transmit_output bf sm t amount timeout =
     (let s = sm_timeout sm (rt_stream t) timeout;
          out = bf_output bf (rt_buffers t)
      in if length out < amount then None
         else (let (s, r) = sm_write sm s (take amount out)
               in Some (t\<lparr>rt_stream := s\<rparr>, map_err (sm_from_io sm) r)))"

definition await_input ::
  "'b buffers \<Rightarrow> ('s, 't) stream \<Rightarrow> ('b, 's) rustls_transport \<Rightarrow> 't
     \<Rightarrow> ('b, 's) rustls_transport \<times> (ureq_error + bool)"
where
  "await_input bf sm t timeout =
     (let s = sm_timeout sm (rt_stream t) timeout;
          (s, r) = sm_read sm s (bf_room bf (rt_buffers t))
      in case r of
           Inl e \<Rightarrow> (t\<lparr>rt_stream := s\<rparr>, Inl (sm_from_io sm e))
         | Inr bs \<Rightarrow>
             (t\<lparr>rt_stream := s, rt_buffers := bf_appended bf (bf_fill bf (rt_buffers t) bs) (length bs)\<rparr>,
              Inr (0 < length bs)))"

definition is_open :: "('s, 't) stream \<Rightarrow> ('b, 's) rustls_transport \<Rightarrow> ('b, 's) rustls_transport \<times> bool" where
  "is_open sm t = (let (s, b) = sm_open sm (rt_stream t) in (t\<lparr>rt_stream := s\<rparr>, b))"

definition is_tls :: "('b, 's) rustls_transport \<Rightarrow> bool" where
  "is_tls t \<longleftrightarrow> True"

section \<open>What crosses\<close>

text \<open>A read fits the room it was given, and filling that room and saying so appends.\<close>

definition reads_fit :: "('s, 't) stream \<Rightarrow> bool" where
  "reads_fit sm \<longleftrightarrow> (\<forall>s n s' bs. sm_read sm s n = (s', Inr bs) \<longrightarrow> length bs \<le> n)"

definition fills_append :: "'b buffers \<Rightarrow> bool" where
  "fills_append bf \<longleftrightarrow> (\<forall>b bs. length bs \<le> bf_room bf b \<longrightarrow>
     bf_input bf (bf_appended bf (bf_fill bf b bs) (length bs)) = bf_input bf b @ bs)"

text \<open>Buffers that do: what was read so far, and what was last written behind it.\<close>

definition list_buffers :: "(bytes \<times> bytes) buffers" where
  "list_buffers = \<lparr>bf_output = (\<lambda>_. []), bf_room = (\<lambda>_. 4096), bf_fill = (\<lambda>b bs. (fst b, bs)),
     bf_appended = (\<lambda>b n. (fst b @ take n (snd b), [])), bf_input = fst\<rparr>"

lemma list_buffers_append: "fills_append list_buffers"
  by (simp add: fills_append_def list_buffers_def)

text \<open>Reading until the stream has no more or fails, at most \<open>n\<close> times, as ureq does.\<close>

fun await_all ::
  "nat \<Rightarrow> 'b buffers \<Rightarrow> ('s, 't) stream \<Rightarrow> ('b, 's) rustls_transport \<Rightarrow> 't \<Rightarrow> ('b, 's) rustls_transport"
where
  "await_all 0 bf sm t timeout = t"
| "await_all (Suc n) bf sm t timeout =
     (case await_input bf sm t timeout of
        (t', Inr True) \<Rightarrow> await_all n bf sm t' timeout
      | (t', _) \<Rightarrow> t')"

text \<open>The same reads, seen from the stream: the bytes it handed out.\<close>

inductive handed :: "('s, 't) stream \<Rightarrow> 's \<Rightarrow> bytes \<Rightarrow> 's \<Rightarrow> bool" for sm where
  nothing: "handed sm s [] s"
| chunk: "sm_read sm (sm_timeout sm s timeout) n = (s', Inr bs) \<Longrightarrow> handed sm s' cs s''
    \<Longrightarrow> handed sm s (bs @ cs) s''"
| failed: "sm_read sm (sm_timeout sm s timeout) n = (s', Inl e) \<Longrightarrow> handed sm s [] s'"

lemma await_input_Inr:
  assumes "reads_fit sm" and "fills_append bf" and "await_input bf sm t timeout = (t', Inr got)"
  obtains bs where "sm_read sm (sm_timeout sm (rt_stream t) timeout) (bf_room bf (rt_buffers t))
      = (rt_stream t', Inr bs)"
    and "bf_input bf (rt_buffers t') = bf_input bf (rt_buffers t) @ bs" and "got \<longleftrightarrow> bs \<noteq> []"
  using assms
  by (fastforce simp: await_input_def Let_def reads_fit_def fills_append_def
      split: prod.splits sum.splits)

lemma await_input_Inl:
  assumes "await_input bf sm t timeout = (t', Inl e)"
  obtains io where "sm_read sm (sm_timeout sm (rt_stream t) timeout) (bf_room bf (rt_buffers t))
      = (rt_stream t', Inl io)"
    and "rt_buffers t' = rt_buffers t" and "e = sm_from_io sm io"
  using assms by (auto simp: await_input_def Let_def split: prod.splits sum.splits)

text \<open>What ureq is given to read is what the stream handed out, in its order.\<close>

lemma input_is_what_was_read:
  assumes "reads_fit sm" and "fills_append bf"
  shows "\<exists>bs. handed sm (rt_stream t) bs (rt_stream (await_all n bf sm t timeout))
    \<and> bf_input bf (rt_buffers (await_all n bf sm t timeout)) = bf_input bf (rt_buffers t) @ bs"
proof (induction n arbitrary: t)
  case 0
  show ?case using handed.nothing by fastforce
next
  case (Suc n)
  obtain t' r where a: "await_input bf sm t timeout = (t', r)" by (rule prod.exhaust)
  show ?case
  proof (cases r)
    case (Inl e)
    from a [unfolded Inl] obtain io where
      "sm_read sm (sm_timeout sm (rt_stream t) timeout) (bf_room bf (rt_buffers t)) = (rt_stream t', Inl io)"
      and b: "rt_buffers t' = rt_buffers t"
      by (rule await_input_Inl)
    from handed.failed [OF this(1)] a Inl b show ?thesis by auto
  next
    case (Inr got)
    from a [unfolded Inr] obtain bs where r: "sm_read sm (sm_timeout sm (rt_stream t) timeout) (bf_room bf (rt_buffers t))
        = (rt_stream t', Inr bs)"
      and i: "bf_input bf (rt_buffers t') = bf_input bf (rt_buffers t) @ bs"
      by (rule await_input_Inr [OF assms])
    show ?thesis
    proof (cases got)
      case True
      from Suc obtain cs where "handed sm (rt_stream t') cs (rt_stream (await_all n bf sm t' timeout))"
        and "bf_input bf (rt_buffers (await_all n bf sm t' timeout)) = bf_input bf (rt_buffers t') @ cs"
        by blast
      with r i a Inr True show ?thesis using handed.chunk by fastforce
    next
      case False
      with r i a Inr handed.chunk [OF r handed.nothing] show ?thesis by auto
    qed
  qed
qed

text \<open>What is written is the front of the output buffer, and nothing is written past its end.\<close>

lemma transmit_output_Some:
  "transmit_output bf sm t amount timeout = Some (t', r) \<longleftrightarrow>
     amount \<le> length (bf_output bf (rt_buffers t))
     \<and> (\<exists>s w. sm_write sm (sm_timeout sm (rt_stream t) timeout) (take amount (bf_output bf (rt_buffers t))) = (s, w)
         \<and> t' = t\<lparr>rt_stream := s\<rparr> \<and> r = map_err (sm_from_io sm) w)"
  by (auto simp: transmit_output_def Let_def not_less split: prod.splits)

text \<open>
  A read that fails inside the stream with a certificate error is reported as a TLS failure, when
  the conversion keeps the error as an I/O error.
\<close>

lemma stream_failure_is_told:
  assumes "await_input bf sm t timeout = (t', Inl e)" and "\<forall>io. \<exists>msg. sm_from_io sm io = UqIo io msg"
  shows "\<exists>io. (\<exists>s. sm_read sm (sm_timeout sm (rt_stream t) timeout) (bf_room bf (rt_buffers t)) = (s, Inl io))
    \<and> ((\<exists>msg. classify rl e = HeTls msg) \<longleftrightarrow> (\<exists>d < 8. tls_depth (io_inner io) = Some d))"
proof -
  from assms(1) obtain io where
    r: "sm_read sm (sm_timeout sm (rt_stream t) timeout) (bf_room bf (rt_buffers t)) = (rt_stream t', Inl io)"
    and e: "e = sm_from_io sm io"
    by (rule await_input_Inl)
  from assms(2) obtain msg where "sm_from_io sm io = UqIo io msg" by blast
  with e have "(\<exists>msg. classify rl e = HeTls msg) \<longleftrightarrow> is_tls_failure io" by (simp add: classify_def)
  with r show ?thesis by (auto simp: is_tls_failure_iff)
qed

end
