(* ===== verification/Spec2Isabelle.thy ===== *)
theory Spec2Isabelle
  imports SampleClient Consent Pairing Drain Tls
begin

text \<open>
  Family Beacon is a peer-to-peer family safety application. A family is a set of devices, each the
  principal for itself; no server decides who belongs to it. Devices talk through \<^bold>\<open>Sund\<close>, a blind
  store-and-forward relay that sees ciphertext in queues. The Rust core under \<^verbatim>\<open>src/core\<close> is what this
  development models: the protocol's messages (\<^verbatim>\<open>beacon-protocol\<close>), the membership state machine
  (\<^verbatim>\<open>beacon-roster\<close>), the client half of the relay with sessions, outbox and transports
  (\<^verbatim>\<open>sund-client\<close>), the facade an application holds (\<^verbatim>\<open>beacon-client\<close>), its foreign-function boundary
  (\<^verbatim>\<open>beacon-ffi\<close>), and the library of the suite that runs the client against a real server
  (\<^verbatim>\<open>contract-tests\<close>).

  \<^bold>\<open>The theories\<close>, in the order they build on one another.

  \<^item> \<open>Prelude\<close>: results (\<^verbatim>\<open>Result\<close> as a sum, \<^verbatim>\<open>?\<close> as \<open>rbind\<close>), time, digits, bytes, JSON values, the
    records of library primitives. \<open>BTree\<close>: \<^verbatim>\<open>BTreeMap\<close> and \<^verbatim>\<open>BTreeSet\<close> as sorted association lists.
    \<open>Text\<close>: the string functions of the standard library, on UTF-8 bytes.
  \<^item> \<open>Canonical\<close> (\<^verbatim>\<open>canonical.rs\<close>): the refusal of floating-point numbers before signing. \<open>Calendar\<close>
    (\<^verbatim>\<open>rfc3339.rs\<close>): timestamps. \<open>Identity\<close> (\<^verbatim>\<open>identity.rs\<close>, \<^verbatim>\<open>sigauth.rs\<close>): domain-separated signatures
    and request signing.
  \<^item> \<open>Wire\<close> (\<^verbatim>\<open>envelope.rs\<close>, \<^verbatim>\<open>beacon-protocol/src/roster.rs\<close>): the envelope and the roster messages.
    \<open>Ledger\<close> (\<^verbatim>\<open>ledger.rs\<close>, \<^verbatim>\<open>lib.rs\<close>): the transparency ledger and reception. \<open>Consent\<close>
    (\<^verbatim>\<open>consent.rs\<close>): grants and the gate every message passes.
  \<^item> \<open>Churn\<close>, \<open>Roster\<close> (\<^verbatim>\<open>churn.rs\<close>, \<^verbatim>\<open>records.rs\<close>, \<^verbatim>\<open>roster.rs\<close>): the budget and every operation of the
    membership state machine. \<open>Membership\<close> gives each operation's effect on the state; \<open>Family\<close> its
    steps, the invariant, the chain of vouches and the ledger's completeness; \<open>Policy\<close> the cap, the
    budget, synchronisation and splits; \<open>Exchange\<close> what an issued vouch or removal does elsewhere;
    \<open>Pairing\<close> (\<^verbatim>\<open>pairing.rs\<close>) the offers of queue addresses.
  \<^item> \<open>Transport\<close> (\<^verbatim>\<open>transport.rs\<close>, \<^verbatim>\<open>memory.rs\<close>): the port as a record of operations, its contract as
    the locales \<open>retiring_port\<close> and \<open>transport_port\<close>, the in-memory transport as an instance.
    \<open>Session\<close> (\<^verbatim>\<open>bundle.rs\<close>, \<^verbatim>\<open>session.rs\<close>, \<^verbatim>\<open>session_store.rs\<close>): key bundles, Olm sessions, their
    store. \<open>Outbox\<close>, \<open>Drain\<close> (\<^verbatim>\<open>outbox.rs\<close>): the queue of what is still to be sent, and a pass over it.
    \<open>Delivery\<close>: a message through all of these, from one device's outbox to what another receives.
  \<^item> \<open>Address\<close> (\<^verbatim>\<open>address.rs\<close>): server addresses and the trust mode they state. \<open>Http\<close> (\<^verbatim>\<open>http.rs\<close>): the
    seam; the locale \<open>observed\<close> is a world that remembers the requests that arrived at it, \<open>traced\<close> one where
    they arrive as they were sent. \<open>SundClient\<close>
    (\<^verbatim>\<open>client.rs\<close>): every call of the relay's two planes. \<open>SundTransport\<close> (\<^verbatim>\<open>sund_transport.rs\<close>): the
    transport over the relay, a second instance of \<open>retiring_port\<close>. \<open>Relay\<close>: a drain over that transport,
    what it asks of the server and what it may drop. \<open>Agent\<close> (\<^verbatim>\<open>agent.rs\<close>): trust
    configurations, the pinned verifier, the classes of failure. \<open>Tls\<close>: the handshake checks, the connector
    and the pump between ureq's buffers and the TLS stream. \<open>Contract\<close> (\<^verbatim>\<open>contract-tests/src/lib.rs\<close>):
    relays under test, a network that goes away, a proxy that rewrites paths, waiting for a server.
  \<^item> \<open>BeaconClient\<close> (\<^verbatim>\<open>beacon-client\<close>): enrolling, the state blob, reopening, the two device lists.
    \<open>Ffi\<close> (\<^verbatim>\<open>beacon-ffi\<close>): the mirrored vocabulary and the exported object.
  \<^item> \<open>Sample\<close>, \<open>SampleClient\<close>: a toy signature scheme, a ratchet that encrypts nothing, a server that
    always answers, a family and a client, on which the statements below are exercised.

  \<^bold>\<open>How the code is read.\<close> A struct is a record, an enum a datatype, \<^verbatim>\<open>Result\<close> a sum with the error on
  the left; \<^verbatim>\<open>u8\<close> to \<^verbatim>\<open>u64\<close> are words, \<^verbatim>\<open>i64\<close> times wrap as in a release build. A method that takes
  \<^verbatim>\<open>&mut self\<close> returns the new state; \<^verbatim>\<open>Applied\<close> pairs the outcome with its ledger entries. A call
  over the network takes the world \<open>'w\<close> and returns it. A mutex is left out where a call holds it
  throughout; in \<open>SundTransport\<close>, whose calls release it around a request, what happens under the lock
  afterwards is a commit of its own, and any interleaving of calls is a run of commits. In \<open>Ffi\<close> the
  mutex is its poison flag, and a panic is \<open>None\<close>.

  \<^bold>\<open>Parameters\<close> stand for code outside the repository: ed25519, SHA-256, base64 and \<^verbatim>\<open>serde_json\<close>
  (\<open>crypto\<close>, \<open>replies\<close>, \<open>state_codec\<close>, the readers of an envelope), vodozemac (\<open>olm\<close>), rustls, ureq, the
  random source and the clock. What a theorem needs of them is a named hypothesis:
  \<open>signs_correctly\<close> (a signature verifies under its own key), \<open>olm_encodings\<close> and \<open>olm_total\<close>,
  \<open>codec_reads_back\<close> and \<open>reads_envelopes\<close> (what was written is read back), \<open>keeps_step\<close> (two ends of a
  session that are in step stay in step), \<open>keeps_time\<close> (the clock does not run backwards and sleeping
  takes its time), the length of a digest.

  \<^bold>\<open>What is shown.\<close> Membership: the invariant of the roster over every operation; that removal is
  permanent, that activation needs a vouch within budget or an approval, that every key is reached from
  the founder's by verified vouches, that the ledger reports each change; the cap and the budget;
  merging, and what a revocation becomes. Messages: one outcome and one entry per plaintext, bytes
  signed for one purpose are no other's, consent is the latest word. Transport: a drain loses nothing
  and sends only what is live; what it sends arrives, is opened and received at the other end in its
  order; without a network it keeps everything; over the relay it names no device, and a durable entry
  is lost only with its queue; retirement is final over the relay; the channel table keeps its type
  under interleaving; the transport plane discloses no device and the management plane is attributed;
  a proxy that rewrites a path breaks the signature; the sender key is offered once. Trust: the mode is
  what the address states, the pinned verifier is its contract, an identity failure reaches the
  application as one. Facade: an enrolled client is whole,
  its snapshot reopens, no other state does, the lists show what they should, the boundary keeps the
  ledger's entries apart and never panics. The section \<^emph>\<open>Further results\<close> holds smaller ones.

  \<^bold>\<open>Bounds.\<close> Recursion is structural or by a measure on the text that is left; nothing uses fuel. The
  wait for a server need not end on a clock that stands still, so \<open>wait_loop\<close> is a partial function into
  an option, and that it returns is a theorem. The walk into a nested error takes at most eight steps,
  as in the code, and what it misses beyond is part
  of the statement about it. Times in the statements about the budget and about formatted timestamps
  run from 1970 to 9999.

  \<^bold>\<open>Not modelled.\<close> Debug formatting; the scripted doubles and the tests, those of
  the contract suite among them, which drive a real server; the binding generator and the re-exports of
  the crate roots; the Android build files.
\<close>

text \<open>
  C1.
  Whatever sequence of founding, adopting, handling messages, deciding on held admissions,
  reconciling with the server and restoring from disk a roster has been through, it is well
  formed; in particular no tombstoned device is active or awaiting approval.
\<close>

theorem family_invariant:
  assumes "family_state cr root r"
  shows "roster_inv r"
  using assms by (rule family_state_inv)

theorem family_invariant_witness:
  "roster_inv sample_pair \<and> bt_contains (ro_devices sample_pair) ''b''"
  using family_invariant [OF sample_pair_state] by simp

text \<open>
  C2.
  Removal is permanent: after any run of operations a tombstoned device is still tombstoned, is
  not active and is not held for approval, and the epoch has not gone back.
\<close>

theorem removal_is_permanent:
  assumes "family_state cr root r" and "roster_run cr r ops r'" and "bt_contains (ro_tombstones r) k"
  shows "bt_contains (ro_tombstones r') k \<and> \<not> is_active r' k \<and> \<not> bt_contains (ro_held r') k
    \<and> ro_epoch r \<le> ro_epoch r'"
proof -
  have "roster_inv r'" "extends r r'"
    using roster_run_keeps [OF assms(2)] family_state_inv [OF assms(1)] by blast+
  then show ?thesis
    using assms(3) roster_invD(4,5) [of r' k] by (simp add: extends_def)
qed

theorem removal_is_permanent_witness:
  "\<not> is_active (fst (step_result sample_crypto sample_removed
     (RoIntroduce (sample_vouch ''b'' 2) ''a'' sample_now))) ''b''"
  using removal_is_permanent [OF sample_removed_state roster_run_one sample_removed_tombstone] by blast

text \<open>
  C3.
  No invisible members: a device that is active after a step and was not before got there through
  a vouch that passed every rule and the signer's daily budget, or through the user approving a
  held vouch whose introducer is active and whose subject has no tombstone. Synchronization, the
  server's list and label updates never make a device active.
\<close>

theorem only_admission_activates:
  assumes "roster_step cr r op l r'" and "is_active r' k" and "\<not> is_active r k"
  shows "admits cr r op k"
  using assms by (rule activation)

theorem only_admission_activates_witness:
  "admits sample_crypto sample_founder (RoIntroduce (sample_vouch ''b'' 2) ''a'' sample_now) ''b''"
  by (rule only_admission_activates [OF sample_pair_step]) simp_all



text \<open>
  C5.
  The ledger is complete: each device a step made active is named by a join entry of that step,
  and each device a step made inactive by a removal entry.
\<close>

theorem ledger_is_complete:
  assumes "roster_step cr r op l r'"
  shows "accounted r l r'"
  using assms by (rule accounted_step)

theorem ledger_is_complete_witness:
  "reports_join (ap_ledger (snd (receive_introduce sample_crypto sample_founder
     (sample_vouch ''b'' 2) ''a'' sample_now))) ''b''"
  using ledger_is_complete [OF sample_pair_step] by (simp add: accounted_def)

text \<open>
  C6.
  The nested checks of \<^verbatim>\<open>receive_introduce\<close> decide exactly as a flat table of rules
  read in order, each with its refusal.
\<close>

theorem vouch_verdict:
  "receive_introduce cr r m introducer now =
     (case vouch_violation cr r m introducer of
        Some refusal \<Rightarrow> refuse_vouch r (vs_device_id (ri_subject m)) refusal
      | None \<Rightarrow>
          if is_active r (vs_device_id (ri_subject m)) then (r, applied AlreadyKnown [])
          else if would_exceed (ro_churn r) introducer now
          then (quarantine r m introducer (count_in_window (ro_churn r) introducer now),
                applied (Held (count_in_window (ro_churn r) introducer now))
                  [le_inbound (vs_device_id (ri_subject m)) None
                     (EvAdmissionHeld (count_in_window (ro_churn r) introducer now))])
          else (fst (admit (charge r introducer (vs_joined_at (ri_subject m)) now)
                       (ri_subject m) introducer),
                applied Admitted
                  [le_inbound (vs_device_id (ri_subject m)) None (EvDeviceJoined introducer)]))"
  unfolding receive_introduce_eq Let_def ..




text \<open>
  C8.
  The trust mode is what the text states: an address that starts with \<^verbatim>\<open>sund://\<close> is accepted only in
  pinned mode, with the 32 bytes its fragment spells, and is refused when it has no fragment.
\<close>

theorem trust_mode_is_stated:
  assumes "to_ascii_lowercase (take 7 (trim s)) = pinned_scheme"
  shows "case parse_address s of
      Inr a \<Rightarrow> \<exists>bs au. sa_mode a = Pinned bs \<and> length bs = 32 \<and> drop 7 (trim s) = au @ ''#'' @ hex_lower bs
    | Inl e \<Rightarrow> CHR ''#'' \<notin> set (trim s) \<longrightarrow> e = AeInvalidFingerprint"
  using pinned_text [OF assms] fragment_required [OF assms] by (auto split: sum.split)

theorem trust_mode_is_stated_witness:
  "case parse_address ''sund://h:1'' of Inr a \<Rightarrow> False | Inl e \<Rightarrow> e = AeInvalidFingerprint"
proof -
  have t: "trim ''sund://h:1'' = ''sund://h:1''"
  proof -
    have "trim_start ''sund://h:1'' = ''sund://h:1''" by (rule trim_start_stops) (simp add: white_space_def)
    then show ?thesis by (simp add: trim_def trim_end_id head_in_def white_space_def)
  qed
  have "to_ascii_lowercase (take 7 (trim ''sund://h:1'')) = pinned_scheme"
    unfolding t by (simp add: to_ascii_lowercase_def pinned_scheme_def ascii_lower_def less_eq_char_def)
  moreover have "''h:1'' \<noteq> au @ ''#'' @ z" for au z :: string
  proof
    assume "''h:1'' = au @ ''#'' @ z"
    then have "CHR ''#'' \<in> set ''h:1''" by simp
    then show False by simp
  qed
  ultimately show ?thesis using trust_mode_is_stated [of "''sund://h:1''"] unfolding t by (auto split: sum.split)
qed

text \<open>
  C9.
  The pinned verifier is its contract: it accepts a chain exactly when a presented certificate hashes
  to the pin, that certificate can be a root, and the leaf chains to it and to nothing else. With no
  match it answers the mismatch, whatever the chain would verify as.
\<close>

theorem pinned_verifier:
  assumes "\<forall>b. length (cr_sha256 cr b) = 32" and "length pin = 32"
  shows "(verify_server_cert cr rl pin leaf intermediates now = Inr () \<longleftrightarrow>
      (\<exists>pinned. find (\<lambda>c. spki_fingerprint cr rl c = Some pin) (leaf # intermediates) = Some pinned
         \<and> rl_add_root rl pinned = Inr () \<and> (\<exists>spki. rl_spki rl leaf = Inr spki)
         \<and> rl_verify_chain rl leaf [pinned] intermediates now = Inr ()))
    \<and> ((\<forall>c \<in> set (leaf # intermediates). spki_fingerprint cr rl c \<noteq> Some pin) \<longrightarrow>
         verify_server_cert cr rl pin leaf intermediates now
           = Inl (RlGeneral ''server certificate does not match the pinned fingerprint''))"
  using verify_server_cert_iff [OF assms] mismatch_refused [OF assms] by blast

theorem pinned_verifier_witness:
  "verify_server_cert sample_crypto sample_rustls (pad_to 32 [1]) [1] [] 0 = Inr ()
   \<and> verify_server_cert sample_crypto sample_rustls (pad_to 32 [1]) [2] [] 0 \<noteq> Inr ()"
proof -
  have len: "\<forall>b. length (cr_sha256 sample_crypto b) = 32" "length (pad_to 32 [1]) = 32"
    by (simp_all add: sample_crypto_def)
  have lib: "spki_fingerprint sample_crypto sample_rustls c = Some (pad_to 32 c)"
    "rl_add_root sample_rustls c = Inr ()" "rl_spki sample_rustls c = Inr c"
    "rl_verify_chain sample_rustls c roots chain t = Inr ()" for c roots chain t
    by (simp_all add: spki_fingerprint_def sample_crypto_def sample_rustls_def)
  have "pad_to 32 [2] \<noteq> pad_to 32 [1]" by (simp add: pad_to_def)
  with pinned_verifier [OF len, of sample_rustls "[1]" "[]" 0] pinned_verifier [OF len, of sample_rustls "[2]" "[]" 0]
  show ?thesis by (simp add: lib)
qed



text \<open>
  C11.
  The transport plane does not disclose who is asking: over any sequence of its calls, every request
  the server receives is without a device id, on a path no id can change the shape of, and carries a
  signature of the queue key over what it asks.
\<close>

theorem transport_plane_is_anonymous:
  assumes "(\<lambda>p q. \<exists>key. transport_call sc key p q)\<^sup>*\<^sup>* (w, []) (w', requests)"
    and "sc_wiring sc = recording wi" and "signs_correctly (sc_crypto sc)"
  shows "\<forall>rq \<in> set requests. header ''Sund-Device-Id'' rq = None \<and> safe_path (hr_path rq)
    \<and> (\<exists>key. carries_signature (sc_crypto sc) (device_public_key (sc_crypto sc) key) rq)"
  using rec.transport_run_anonymous [OF assms] by (auto simp: anonymous_def)

theorem transport_plane_is_anonymous_witness:
  "\<exists>w requests r. retire_queue (sample_client (recording (sample_wiring (Inr 204)))) ((), []) ''r''
       (device_from_seed [3]) = ((w, requests), r)
     \<and> (\<forall>rq \<in> set requests. header ''Sund-Device-Id'' rq = None)"
proof -
  let ?sc = "sample_client (recording (sample_wiring (Inr 204)))"
  obtain w requests r where c: "retire_queue ?sc ((), []) ''r'' (device_from_seed [3]) = ((w, requests), r)"
    by (metis surj_pair)
  then have "transport_call ?sc (device_from_seed [3]) ((), []) (w, requests)"
    by (rule transport_call.intros(4))
  then have "(\<lambda>p q. \<exists>key. transport_call ?sc key p q)\<^sup>*\<^sup>* ((), []) (w, requests)" by blast
  from transport_plane_is_anonymous [OF this] c sample_signs show ?thesis by auto
qed



text \<open>
  C13.
  The outbox loses nothing silently: over any transport, each queued entry is after a drain still
  queued, or in the report as sent or dropped, never queued and reported, and sent at most once.
\<close>

theorem drain_loses_nothing:
  assumes "outbox_inv ob" and "drain om port ob t s now budget = (ob', t', s', r)"
  shows "queued_ids ob = sent_ids r \<union> dropped_ids r \<union> queued_ids ob'
    \<and> queued_ids ob' \<inter> (sent_ids r \<union> dropped_ids r) = {} \<and> deferred_ids r \<subseteq> queued_ids ob'
    \<and> distinct (map snt_id (rp_sent r)) \<and> outbox_inv ob'"
  using drain_sets(1-4) [OF assms] drain_inv [OF assms] by blast

theorem drain_loses_nothing_witness:
  "\<exists>ob' t' s' r. drain sample_olm (memory_port 0) sample_outbox sample_queue sample_peered sample_now 5
     = (ob', t', s', r) \<and> {0, 1} = sent_ids r \<union> dropped_ids r \<union> queued_ids ob'"
proof -
  obtain ob' t' s' r where d: "drain sample_olm (memory_port 0) sample_outbox sample_queue sample_peered
      sample_now 5 = (ob', t', s', r)"
    by (rule drain_cases)
  from drain_loses_nothing [OF sample_outbox_inv d] d sample_outbox_ids show ?thesis by auto
qed

text \<open>
  C14.
  The size cap: no run that contains no approval of a held admission takes the number of active
  devices above twenty, or above what it already was.
\<close>

theorem cap_without_approval:
  assumes "roster_run cr r ops r'" and "list_all (\<lambda>op. \<not> is_approval op) ops"
  shows "active_count r' \<le> max max_active_devices (active_count r)"
  using assms by (rule run_count)

theorem cap_without_approval_witness: "active_count sample_pair \<le> 20"
  using cap_without_approval [OF roster_run.run_cons [OF sample_pair_step roster_run.run_nil]]
  by (simp add: is_approval_def max_active_devices_def)





text \<open>
  C17.
  A blob opens only on its own device: whatever opened is of this version, its sessions and roster
  are those of the device it names, and its session store was written under the identity of the
  seeds that opened it.
\<close>

theorem only_own_state_opens:
  assumes "open_with om sj sc blob sd = Inr c"
  shows "\<exists>st body. blob = state_version # body \<and> sj_state_from_slice sj body = Inr st
    \<and> parse_address (cs_server st) = Inr (cl_address c)
    \<and> ss_device_id (cs_sessions st) = cs_device_id st
    \<and> ss_identity_pk (cs_sessions st) = public_to_base64 (sc_crypto sc)
        (identity_public_key (sc_crypto sc) (seeds_identity_key sd))
    \<and> sn_self_id (cs_roster st) = cs_device_id st
    \<and> dc_device_id (cl_device c) = cs_device_id st"
  by (rule open_checks [OF assms])

theorem only_own_state_opens_witness:
  "\<exists>(c :: (bool, string, unit) client) sj sc blob body. open_with sample_olm sj sc blob sample_seeds = Inr c \<and> blob = state_version # body"
proof -
  note o = sample_opens [of "sample_wiring (Inr 200)"]
  from only_own_state_opens [OF o] o show ?thesis by blast
qed



text \<open>
  C19.
  Without a network nothing is lost: a drain over the relay then sends nothing, no request reaches the
  server, the channel table stays as it was, and every entry that has not expired is still queued
  unless its channel is retired here or has nothing attached.
\<close>

theorem offline_drain_keeps_everything:
  assumes "sc_wiring (dc_client (sx_device t)) = switchable (recording wi)" and "\<not> sw_reachable w"
    and "outbox_inv ob" and "drain om sund_port ob (t, w) s now budget = (ob', (t', w'), s', r)"
  shows "rp_sent r = [] \<and> t' = t \<and> snd (sw_inner w') = snd (sw_inner w)
    \<and> (\<forall>e \<in> set (ox_entries ob). expired_at e (epoch_seconds now) \<or> cut_off t (oe_channel e)
         \<or> oe_id e \<in> queued_ids ob')"
  using rec.drain_offline [OF assms] by blast

theorem offline_drain_keeps_everything_witness:
  "\<exists>ob' t' w' s' r. drain sample_olm sund_port sample_outbox
       (sample_relay (switchable (recording (sample_wiring (Inr 200)))), go_offline (switch_new ((), [])))
       sample_peered sample_now 5 = (ob', (t', w'), s', r) \<and> snd (sw_inner w') = [] \<and> 1 \<in> queued_ids ob'"
proof -
  let ?t = "sample_relay (switchable (recording (sample_wiring (Inr 200))))"
  let ?w = "go_offline (switch_new ((), []))"
  obtain ob' t' w' s' r where d: "drain sample_olm sund_port sample_outbox (?t, ?w) sample_peered sample_now 5
      = (ob', (t', w'), s', r)"
    by (metis surj_pair)
  obtain e where e: "e \<in> set (ox_entries sample_outbox)" "is_durable e" "oe_id e = 1"
    using sample_outbox_durable by blast
  then have "oe_channel e = ''q''" by (auto simp: sample_outbox_eq new_entry_def sample_request_def)
  then have "\<not> cut_off ?t (oe_channel e)" by (simp add: cut_off_def sample_relay_get)
  with offline_drain_keeps_everything [OF _ _ sample_outbox_inv d, of "sample_wiring (Inr 200)"]
    e durable_unexpired [OF e(2)]
  have "snd (sw_inner w') = []" and "1 \<in> queued_ids ob'" by (auto simp: go_offline_def switch_new_def)
  with d show ?thesis by blast
qed







text \<open>
  C23.
  The channel table keeps its type under any interleaving of calls, whose requests run outside the
  lock: each record stays under its own channel, so the exported records rebuild the table.
\<close>

theorem channel_table_is_well_formed:
  assumes "table_step\<^sup>*\<^sup>* bt_empty m"
  shows "(\<forall>c rec. bt_get m c = Some rec \<longrightarrow> qr_channel rec = c) \<and> import_channels bt_empty (export_channels m) = m"
proof -
  have "table_ok m" using assms by (induction rule: rtranclp_induct) (auto intro: step_ok)
  then show ?thesis using import_export by (auto simp: table_ok_def)
qed

theorem channel_table_is_well_formed_witness:
  "import_channels bt_empty (export_channels sample_channels) = sample_channels"
proof -
  have "table_step bt_empty (declare_channel bt_empty ''c'' [3])" by (rule st_declare)
  moreover have "table_step (declare_channel bt_empty ''c'' [3]) sample_channels"
    unfolding sample_channels_def by (rule st_attach)
  ultimately have "table_step\<^sup>*\<^sup>* bt_empty sample_channels" by auto
  from channel_table_is_well_formed [OF this] show ?thesis by blast
qed

text \<open>
  C24.
  The canonical form of an accepted address reads back as that address exactly when it is not
  open-ended: on the default port, with a host that ends in white space. An open-ended address is
  accepted with its port written out, and its canonical form is not an address.
\<close>

theorem addresses_roundtrip:
  assumes "parse_address s = Inr a"
  shows "parse_address (display_address a) = Inr a \<longleftrightarrow> \<not> open_ended a"
  by (rule reparse_iff [OF parse_address_ok [OF assms]])

theorem addresses_roundtrip_witness:
  "parse_address ''sund+webpki:// :443'' = Inr sample_blank
   \<and> parse_address (display_address sample_blank) \<noteq> Inr sample_blank"
  using addresses_roundtrip [OF sample_blank_parses] sample_blank_parses sample_blank_open by simp







text \<open>
  C28.
  No call across the boundary panics: on an object that was enrolled or opened, every sequence of
  calls returns, each with an answer, and leaves the object usable.
\<close>

theorem boundary_calls_return:
  assumes "(\<exists>w w' e. ffi_enroll rl uq stamps cr rp om sj w address invitation pf sv now = (w', Inr e) \<and> b = ew_client e)
      \<or> ffi_open rl uq stamps cr rp om sj blob sv = Inr b"
  shows "\<exists>w2. ffi_run om sj (b, w1) calls = ((b, w2), replicate (length calls) True)"
  using assms
proof (elim disjE exE conjE)
  fix w w' e
  assume "ffi_enroll rl uq stamps cr rp om sj w address invitation pf sv now = (w', Inr e)" and "b = ew_client e"
  then show ?thesis by (simp add: enrolled_answers)
qed (rule reopened_answers)

theorem boundary_calls_return_witness:
  "\<exists>e w2. ffi_enroll sample_rustls (sample_ureq (Inr 200)) sample_stamps sample_crypto sample_replies sample_olm
       sample_writer () ''sund+webpki://h'' [] sample_profile_view (view_of_seeds sample_seeds) sample_now
         = ((), Inr e)
     \<and> ffi_run sample_olm sample_writer (ew_client e, ()) [CallSelf, CallRoster]
         = ((ew_client e, w2), [True, True])"
proof -
  obtain e where e: "ffi_enroll sample_rustls (sample_ureq (Inr 200)) sample_stamps sample_crypto sample_replies
      sample_olm sample_writer () ''sund+webpki://h'' [] sample_profile_view (view_of_seeds sample_seeds)
      sample_now = ((), Inr e)"
    using sample_ffi_enrolls by blast
  have "\<exists>w2. ffi_run sample_olm sample_writer (ew_client e, ()) [CallSelf, CallRoster]
      = ((ew_client e, w2), replicate (length [CallSelf, CallRoster]) True)"
    by (rule boundary_calls_return [OF disjI1]) (use e in blast)
  with e show ?thesis by auto
qed

text \<open>
  C29.
  Nothing stale goes out and urgency wins: what a drain sent are at most \<^verbatim>\<open>budget\<close> entries that
  were queued, unexpired and due, in the order of priority, then age, then id.
\<close>

theorem drain_sends_only_live:
  assumes "drain om port ob t s now budget = (ob', t', s', r)"
  shows "\<exists>es. map sent_of es = map (\<lambda>x. (snt_id x, snt_channel x, snt_peer x)) (rp_sent r)
    \<and> sorted (map drain_key es) \<and> length es \<le> budget
    \<and> list_all (\<lambda>e. e \<in> set (ox_entries ob) \<and> \<not> expired_at e (epoch_seconds now)
        \<and> oe_not_before_secs e \<le> epoch_seconds now) es"
proof -
  obtain es where es: "subseq es (due_entries ob now budget)" "map sent_of es
      = map (\<lambda>x. (snt_id x, snt_channel x, snt_peer x)) (rp_sent r)" "sorted (map drain_key es)" "length es \<le> budget"
    using drain_sent [OF assms] by blast
  have "list_all (\<lambda>e. e \<in> set (ox_entries ob) \<and> \<not> expired_at e (epoch_seconds now)
      \<and> oe_not_before_secs e \<le> epoch_seconds now) es"
    using subseq_subset [OF es(1)] due_entries_live unfolding list_all_iff by blast
  with es(2-4) show ?thesis by blast
qed

theorem drain_sends_only_live_witness:
  "\<exists>ob' t' s' r. drain sample_olm (memory_port 0) sample_outbox sample_queue sample_peered sample_now 1
     = (ob', t', s', r) \<and> length (rp_sent r) \<le> 1"
proof -
  obtain ob' t' s' r where d: "drain sample_olm (memory_port 0) sample_outbox sample_queue sample_peered
      sample_now 1 = (ob', t', s', r)"
    by (rule drain_cases)
  obtain es where es: "map sent_of es = map (\<lambda>x. (snt_id x, snt_channel x, snt_peer x)) (rp_sent r)" "length es \<le> 1"
    using drain_sends_only_live [OF d] by blast
  have "length (rp_sent r) \<le> 1" using es(2) arg_cong [OF es(1), of length] by simp
  with d show ?thesis by blast
qed



text \<open>
  C31.
  A received removal takes out at most the device it names, never the receiver itself, and only
  when its sender is active and the signature verifies under the sender's recorded key.
\<close>

theorem removal_needs_authority:
  assumes "is_active r k" and "\<not> is_active (fst (receive_remove cr r m x now)) k"
  shows "k = rr_subject m \<and> k \<noteq> ro_self_id r \<and> removal_accepted cr r m x"
  using assms by (rule removal_deactivates)

theorem removal_needs_authority_witness:
  "\<exists>m. removal_accepted sample_crypto sample_pair m ''a''"
proof -
  obtain a where "remove sample_crypto sample_pair ''b'' RrLost ''2026-01-02T00:00:00Z''
      (sample_key 1) sample_now = (sample_removed, Inr a)"
    using sample_removed_ok unfolding sample_removed_def by blast
  then have "\<not> is_active (fst (receive_remove sample_crypto sample_pair (ap_outcome a) ''a'' sample_now)) ''b''"
    using issued_removal_removes(2) [OF sample_signs, where rb = sample_pair and i = "''a''"]
      family_state_inv [OF sample_pair_state] by simp
  from removal_needs_authority [OF _ this] show ?thesis by auto
qed

text \<open>
  C32.
  What \<^verbatim>\<open>vouch_for\<close> signs, \<^verbatim>\<open>receive_introduce\<close> admits: at any
  replica where the issuer is active under its key, the family has room, the issuer has budget
  left and the subject is new.
\<close>

theorem issued_vouch_admits:
  assumes "signs_correctly cr" and "vouch_for cr ra subject k = Inr m"
    and "identity_of cr rb (ro_self_id ra) = Some (identity_public_key cr k)"
    and "is_active rb (ro_self_id ra)" and "vs_device_id subject \<noteq> ro_self_id ra"
    and "\<not> bt_contains (ro_tombstones rb) (vs_device_id subject)"
    and "bt_get (ro_devices rb) (vs_device_id subject) = None"
    and "active_count rb < max_active_devices"
    and "\<not> would_exceed (ro_churn rb) (ro_self_id ra) now"
  shows "ap_outcome (snd (receive_introduce cr rb m (ro_self_id ra) now)) = Admitted
    \<and> is_active (fst (receive_introduce cr rb m (ro_self_id ra) now)) (vs_device_id subject)"
  using issued_vouch_passes [OF assms(1-8)] vouch_for_Inr(1) [OF assms(2)] assms(7,9)
  by (simp add: introduce_admitted receive_introduce_fst is_active_def)

theorem issued_vouch_admits_witness:
  "ap_outcome (snd (receive_introduce sample_crypto sample_founder (sample_vouch ''b'' 2) ''a''
     sample_now)) = Admitted"
proof -
  have "\<not> would_exceed (ro_churn sample_founder) (ro_self_id sample_founder) sample_now"
    by (simp add: would_exceed_def count_in_window_def churn_new_def max_membership_events_def)
  moreover have "bt_get (ro_devices sample_founder) ''b'' = None"
    using sample_founder_fields(8) [of "''b''"]
    by (simp add: bt_contains_def del: sample_founder_fields(8))
  ultimately show ?thesis
    using issued_vouch_admits [OF sample_signs sample_vouch_issued [of "''b''" 2], of sample_founder sample_now]
    by (simp add: max_active_devices_def)
qed

text \<open>
  C33.
  What a sync from an active peer with a matching digest changes, when the summaries differ:
  exactly the reported removals of recorded devices become tombstones, a report about this
  device is noted against the sender, and the epoch becomes the larger one.
\<close>

theorem sync_merges:
  assumes "sync_accepted cr r m s" and "rs_devices m \<noteq> sync_devices r \<or> rs_epoch m \<noteq> ro_epoch r"
  shows "bt_contains (ro_tombstones (fst (receive_sync cr r m s))) k
      = (bt_contains (ro_tombstones r) k \<or> reported_removed r (rs_devices m) k \<and> k \<noteq> ro_self_id r)
    \<and> bt_contains (ro_removed_me (fst (receive_sync cr r m s))) p
      = (bt_contains (ro_removed_me r) p \<or> p = s \<and> reported_removed r (rs_devices m) (ro_self_id r))
    \<and> ro_epoch (fst (receive_sync cr r m s)) = max (ro_epoch r) (rs_epoch m)"
  using receive_sync_fields [OF assms] by blast

theorem sync_merges_witness:
  "bt_contains (ro_tombstones (fst (receive_sync sample_crypto sample_pair
     (sync sample_crypto sample_removed) ''a''))) ''b''"
proof -
  have acc: "sync_accepted sample_crypto sample_pair (sync sample_crypto sample_removed) ''a''"
    by (rule sync_own_accepted) simp
  have "rs_epoch (sync sample_crypto sample_removed) \<noteq> ro_epoch sample_pair"
    using sample_removed_facts by (simp add: sync_def Let_def)
  moreover have "reported_removed sample_pair (rs_devices (sync sample_crypto sample_removed)) ''b''"
    using sync_lists_inactive [OF family_state_inv [OF sample_removed_state], of "''b''" sample_crypto]
      sample_removed_facts by (simp add: reported_removed_def)
  ultimately show ?thesis using sync_merges [OF acc] by simp
qed

text \<open>
  C34.
  The server's revocation spreads: reconciliation only deactivates the record, but the next
  \<^verbatim>\<open>sync\<close> lists the device as removed and any peer that has it active tombstones
  it, so the server's word alone removes a device permanently from the other replicas.
\<close>

theorem revocation_becomes_tombstone:
  assumes "roster_inv ra" and "roster_inv rb"
    and "\<exists>d \<in> set listed. sv_device_id d = k \<and> sv_revoked d" and "bt_contains (ro_devices ra) k"
    and "is_active rb s" and "is_active rb k" and "k \<noteq> ro_self_id rb"
  shows "ro_tombstones (fst (reconcile_server_list ra listed)) = ro_tombstones ra
    \<and> bt_contains (ro_tombstones
        (fst (receive_sync cr rb (sync cr (fst (reconcile_server_list ra listed))) s))) k"
  using reconcile_tombstones revocation_spreads [OF assms] by blast

theorem revocation_becomes_tombstone_witness:
  "bt_contains (ro_tombstones (fst (receive_sync sample_crypto sample_pair (sync sample_crypto
     (fst (reconcile_server_list sample_pair [\<lparr>sv_device_id = ''b'', sv_revoked = True\<rparr>]))) ''a''))) ''b''"
  using revocation_becomes_tombstone [OF family_state_inv family_state_inv, OF sample_pair_state sample_pair_state,
      of "[\<lparr>sv_device_id = ''b'', sv_revoked = True\<rparr>]" "''b''" "''a''" sample_crypto]
  by simp

text \<open>
  C35.
  Nothing is lost on disk: importing the exported snapshot of any roster of a family on its own
  device gives that roster, and on another device id the error names both ids.
\<close>

theorem roster_file_roundtrip:
  assumes "family_state cr root r"
  shows "roster_import (roster_export r) self_id =
    (if self_id = ro_self_id r then Inr r else Inl (SnWrongDevice self_id (ro_self_id r)))"
  using roster_import_export [OF family_state_inv [OF assms]]
  by (simp add: roster_import_def roster_export_def)

theorem roster_file_roundtrip_witness:
  "roster_import (roster_export sample_pair) ''a'' = Inr sample_pair \<and>
   roster_import (roster_export sample_pair) ''b'' = Inl (SnWrongDevice ''b'' ''a'')"
  using roster_file_roundtrip [OF sample_pair_state] by simp

text \<open>
  C36.
  A signature binds one statement: the signed bytes determine the purpose and the canonical
  payload, and two vouches, removals or syncs with the same payload agree in every field the
  payload covers, so nothing can be replayed as something else.
\<close>

theorem signatures_bind:
  "(signing_bytes p a = signing_bytes q b) = (p = q \<and> a = b)
   \<and> (vouch_payload v = vouch_payload w) = (ri_subject v = ri_subject w \<and> ri_epoch v = ri_epoch w)
   \<and> (removal_payload m = removal_payload n) = (rr_subject m = rr_subject n \<and> rr_reason m = rr_reason n
        \<and> rr_removed_at m = rr_removed_at n \<and> rr_epoch m = rr_epoch n)
   \<and> (sync_payload s = sync_payload t) = (rs_epoch s = rs_epoch t \<and> rs_devices s = rs_devices t)"
  using signing_bytes_inject vouch_payload_inject [of v w] removal_payload_inject [of m n]
    sync_payload_inject [of s t]
  by (auto simp: vouch_payload_def removal_payload_def sync_payload_def)


text \<open>
  C37.
  Receiving never fails silently: the outcome and its ledger entry agree, an unknown type loses
  its body, and acceptance is exactly the conjunction of the checks.
\<close>

theorem reception_is_accounted:
  "reception_consistent peer (receive from_slice plaintext peer)
   \<and> (rc_outcome (receive from_slice plaintext peer) = OcAccepted e) =
      (from_slice plaintext = Inr e \<and> validate_envelope e = Inr () \<and> en_sender e = peer
        \<and> mt_is_known (en_message_type e))"
  using receive_consistent receive_accepted_iff by blast


text \<open>
  C38.
  The consent state is what the ledger says: from the empty state, a feature is granted to a peer
  exactly when the last entry about it is a grant, and likewise for what the peer advertised.
\<close>

theorem consent_is_the_latest_word:
  assumes "consent_run consent_new es s"
  shows "has_granted s f p = latest (says_issued f) p (rev es)
    \<and> peer_allows s f p = latest (says_advertised f) p (rev es)"
  using consent_run_latest [OF assms refl] .

theorem consent_is_the_latest_word_witness:
  "\<not> has_granted (fst (consent_revoke (fst (consent_grant consent_new FtLocation ''b'')) FtLocation ''b''))
     FtLocation ''b''"
proof -
  have "consent_run consent_new ([] @ [snd (consent_grant consent_new FtLocation ''b'')])
      (fst (consent_grant consent_new FtLocation ''b''))"
    by (rule run_snoc [OF consent_run.run_nil step_apply [where op = "OpGrant FtLocation ''b''"]]) simp
  from run_snoc [OF this step_apply [where op = "OpRevoke FtLocation ''b''"]]
  have "consent_run consent_new (([] @ [snd (consent_grant consent_new FtLocation ''b'')])
      @ [snd (consent_revoke (fst (consent_grant consent_new FtLocation ''b'')) FtLocation ''b'')])
      (fst (consent_revoke (fst (consent_grant consent_new FtLocation ''b'')) FtLocation ''b''))" by simp
  from consent_is_the_latest_word [OF this, of FtLocation "''b''"] show ?thesis
    by (simp add: consent_revoke_def le_local_def says_issued_def)
qed

text \<open>
  C39.
  A published bundle verifies at every peer that expects this device under its vouched key, and
  gives key material filed under the device's id.
\<close>

theorem published_bundles_verify:
  assumes "signs_correctly cr" and "olm_encodings om" and "\<And>k. om_key_b64 om k \<noteq> []"
    and "publish_bundle cr om s at = (s', Inr sb)"
  shows "\<exists>keys. bundle_verify cr om sb (sm_device_id s) (identity_public_key cr (sm_identity s)) = Inr keys
    \<and> pk_device_id keys = sm_device_id s"
  using assms by (rule publish_bundle_verifies)

theorem published_bundles_verify_witness:
  "\<exists>keys sb. snd (publish_bundle sample_crypto sample_olm sample_sessions ''t'') = Inr sb
     \<and> bundle_verify sample_crypto sample_olm sb ''a'' (identity_public_key sample_crypto (sample_key 1)) = Inr keys"
proof -
  obtain s' sb where p: "publish_bundle sample_crypto sample_olm sample_sessions ''t'' = (s', Inr sb)"
    using sample_publishes by blast
  from published_bundles_verify [OF sample_signs sample_olm_encodings sample_olm_b64 p] p show ?thesis by auto
qed



section \<open>Further results\<close>

text \<open>
  What \<^verbatim>\<open>remove\<close> signs, \<^verbatim>\<open>receive_remove\<close> applies: the subject is
  tombstoned and inactive at every other replica that has the issuer active under its key.
\<close>

theorem issued_removal_applies:
  assumes "signs_correctly cr" and "remove cr ra s why at k now = (ra', Inr a)"
    and "identity_of cr rb (ro_self_id ra) = Some (identity_public_key cr k)"
    and "s \<noteq> ro_self_id rb" and "roster_inv rb"
  shows "bt_contains (ro_tombstones (fst (receive_remove cr rb (ap_outcome a) (ro_self_id ra) later))) s
    \<and> \<not> is_active (fst (receive_remove cr rb (ap_outcome a) (ro_self_id ra) later)) s"
  using issued_removal_removes [OF assms] by blast

theorem issued_removal_applies_witness:
  "\<exists>m. \<not> is_active (fst (receive_remove sample_crypto sample_pair m ''a'' sample_now)) ''b''"
proof -
  obtain a where "remove sample_crypto sample_pair ''b'' RrLost ''2026-01-02T00:00:00Z''
      (sample_key 1) sample_now = (sample_removed, Inr a)"
    using sample_removed_ok unfolding sample_removed_def by blast
  from issued_removal_applies [OF sample_signs this, of sample_pair sample_now] show ?thesis
    using family_state_inv [OF sample_pair_state] by auto
qed

text \<open>
  Approval does not re-apply the size cap: it adds one active device whatever their number, so
  at the cap of twenty it makes twenty-one.
\<close>

theorem approval_ignores_cap:
  assumes "roster_inv r" and "bt_get (ro_held r) s = Some h" and "is_active r (ha_introducer h)"
    and "\<not> is_active r s" and "\<not> bt_contains (ro_tombstones r) s"
  shows "active_count (fst (approve_held r s)) = Suc (active_count r)"
  using assms by (rule approve_count)

theorem approval_ignores_cap_witness:
  "active_count sample_full = max_active_devices \<and>
   active_count (fst (approve_held sample_full ''z'')) = Suc max_active_devices"
  using approval_ignores_cap [OF sample_full_inv sample_full_held] sample_full_facts
    sample_full_introducer by simp

text \<open>
  A backdated vouch is free: when the claimed joining time lies before the window, admitting the
  subject leaves the signer's count where it was, so any number of them fits in the budget.
\<close>

theorem backdated_vouch_is_free:
  assumes "\<not> recent now m"
  shows "count_in_window (ro_churn (fst (receive_introduce cr r m introducer now))) introducer now
    = count_in_window (ro_churn r) introducer now"
  using assms by (rule backdated_free)

theorem backdated_vouch_is_free_witness:
  "count_in_window (ro_churn (fst (receive_introduce sample_crypto sample_founder
     (sample_vouch ''b'' 2) ''a'' (sample_now + from_secs 172800)))) ''a'' (sample_now + from_secs 172800) = 0"
  using backdated_vouch_is_free [OF sample_backdated, of sample_crypto sample_founder "''a''"]
  by (simp add: count_in_window_def churn_new_def)

text \<open>
  Synchronization is idempotent: a sync message applied a second time changes nothing.
\<close>

theorem sync_is_idempotent:
  "fst (receive_sync cr (fst (receive_sync cr r m s)) m s) = fst (receive_sync cr r m s)"
  by (rule sync_idempotent_lemma)


text \<open>
  A removal of a device this roster has no record of is not learned from a sync: no tombstone
  results, and a later vouch for the device is judged as if it had never been removed.
\<close>

theorem unknown_removal_is_lost:
  assumes "\<not> bt_contains (ro_devices r) k" and "\<not> bt_contains (ro_tombstones r) k"
  shows "\<not> bt_contains (ro_tombstones (fst (receive_sync cr r m s))) k"
  using assms by (rule unknown_removal_ignored)

theorem unknown_removal_is_lost_witness:
  "\<not> bt_contains (ro_tombstones (fst (receive_sync sample_crypto sample_founder
     (sync sample_crypto sample_removed) ''a''))) ''b''"
  using unknown_removal_is_lost [of sample_founder "''b''"] by simp

text \<open>
  Mutual eviction: removing a peer and receiving that peer's signed removal of this device, in
  either order, leaves the peer among the splits, and the second of the two steps reports it.
\<close>

theorem split_shows_either_way:
  assumes "rr_subject m = ro_self_id r" and "recorded_key cr r p = Some key"
    and "removal_verifies cr key m"
    and "remove cr r p why at k now = (r1, Inr a1)" and "receive_remove cr r1 m p later = (r2, b2)"
    and "receive_remove cr r m p now = (q1, b1)" and "remove cr q1 p why at k later = (q2, Inr a2)"
  shows "p \<in> set (splits r2) \<and> reports_split (ap_ledger b2) p
    \<and> p \<in> set (splits q2) \<and> reports_split (ap_ledger a2) p"
  using evict_first [OF assms(1-3) assms(4,5)] evicted_first [OF assms(1-3) assms(6,7)] by blast

theorem split_shows_either_way_witness:
  "''b'' \<in> set (splits (fst (receive_remove sample_crypto sample_removed sample_eviction ''b'' sample_now)))"
proof -
  let ?at = "''2026-01-02T00:00:00Z''"
  obtain a1 where rem: "remove sample_crypto sample_pair ''b'' RrLost ?at (sample_key 1) sample_now
      = (sample_removed, Inr a1)"
    using sample_removed_ok unfolding sample_removed_def by blast
  obtain q1 b1 where q1: "receive_remove sample_crypto sample_pair sample_eviction ''b'' sample_now = (q1, b1)"
    by (meson surj_pair)
  have "is_active q1 ''a'' \<and> ro_self_id q1 = ''a''"
    using arg_cong [OF q1, of fst]
    by (auto simp: receive_remove_fst receive_removal_of_self_fst sample_eviction_simps split: option.splits)
  then obtain q2 a2 where "remove sample_crypto q1 ''b'' RrLost ?at (sample_key 1) sample_now = (q2, Inr a2)"
    using sample_remove_ok by blast
  from split_shows_either_way [OF _ _ _ rem surjective_pairing q1 this, where key = "identity_public_key sample_crypto (sample_key 2)"]
  show ?thesis
    using sample_eviction_simps sample_pair_key(2) by (simp add: identity_of_recorded)
qed

text \<open>
  A joining device takes over its introducer's view: when \<^verbatim>\<open>adopt\<close> accepts the vouch,
  the new roster is the introducer's with this device added under the vouched key, it is well
  formed, and the vouch verifies under the introducer's key.
\<close>

theorem adoption_takes_over:
  assumes "roster_inv q" and "bt_get (ro_devices q) (dr_device_id introducer) = Some introducer"
    and "adopt cr self_id introducer (bt_values (ro_devices q)) (tombstones q) (ro_epoch q) v = Inr a"
  shows "roster_inv (ap_outcome a) \<and> ro_self_id (ap_outcome a) = self_id
    \<and> ro_devices (ap_outcome a) =
        bt_insert self_id (from_vouch (ri_subject v) (dr_device_id introducer)) (ro_devices q)
    \<and> (\<exists>k. parse_identity cr (dr_identity_pk introducer) = Inr k \<and> verify_vouch cr k v = Inr ())"
  using adopt_inv [OF assms] by blast

theorem adoption_takes_over_witness:
  "\<exists>a. adopt sample_crypto ''b'' sample_founder_record (bt_values (ro_devices sample_founder))
      (tombstones sample_founder) (ro_epoch sample_founder) (sample_vouch ''b'' 2) = Inr a
    \<and> roster_inv (ap_outcome a)"
  using sample_adopts adoption_takes_over [OF family_state_inv [OF sample_founder_state] sample_founder_recorded]
  by blast

text \<open>
  A channel offer has one reading at a device: accepted exactly when it is addressed to this
  device by another active member through an active relayer, relayed exactly when an active
  owner hands it over for another active member, and never both.
\<close>

theorem offers_have_one_reading:
  "(is_ok (ap_outcome (accept_offer r offer p)) =
      (co_for_device offer = ro_self_id r \<and> co_of offer \<noteq> ro_self_id r
        \<and> is_active r p \<and> is_active r (co_of offer)))
   \<and> (relay_target r offer q = Inr d) =
      (d = co_for_device offer \<and> d \<noteq> ro_self_id r \<and> co_of offer = q \<and> is_active r q \<and> is_active r d)
   \<and> \<not> (is_ok (ap_outcome (accept_offer r offer p)) \<and> is_ok (relay_target r offer q))"
  using relay_target_Inr accept_xor_relay
  by (simp add: accept_offer_def refuse_offer_def)


text \<open>
  An address handed to a relayer arrives: the device it is for accepts it and knows whether it
  came from its owner directly.
\<close>

theorem relayed_offer_is_accepted:
  assumes "relay_target relayer offer (co_of offer) = Inr target"
    and "ro_self_id r = target" and "is_active r (ro_self_id relayer)" and "is_active r (co_of offer)"
    and "co_of offer \<noteq> target"
  shows "ap_outcome (accept_offer r offer (ro_self_id relayer)) =
    Inr \<lparr>ao_owner = co_of offer, ao_direct = (co_of offer = ro_self_id relayer)\<rparr>"
  using assms by (rule relay_accepted)

theorem relayed_offer_is_accepted_witness:
  "ap_outcome (accept_offer (sample_pair\<lparr>ro_self_id := ''b''\<rparr>)
     \<lparr>co_of = ''a'', co_for_device = ''b'', co_sealed = []\<rparr> ''c'') = Inl (OfRelayerNotActive ''c'') \<and>
   ap_outcome (accept_offer (sample_pair\<lparr>ro_self_id := ''b''\<rparr>)
     \<lparr>co_of = ''a'', co_for_device = ''b'', co_sealed = []\<rparr> ''a'') = Inr \<lparr>ao_owner = ''a'', ao_direct = True\<rparr>"
  using relayed_offer_is_accepted [of sample_pair "\<lparr>co_of = ''a'', co_for_device = ''b'', co_sealed = []\<rparr>" "''b''"
      "sample_pair\<lparr>ro_self_id := ''b''\<rparr>"]
  by (simp add: relay_target_def accept_offer_def refuse_offer_def)

text \<open>
  Signing and verifying agree, for identity signatures over canonical JSON and for the device's
  request signatures, under the laws of the signature scheme and of base64.
\<close>

theorem own_signatures_verify:
  assumes "signs_correctly cr" and "identity_sign cr k p payload = Inr sig"
  shows "identity_verify cr (identity_public_key cr k) p payload sig = Inr ()
    \<and> public_from_base64 cr (public_to_base64 cr (identity_public_key cr k)) = Inr (identity_public_key cr k)
    \<and> sigauth_verify cr (device_public_key cr dk) rq (device_sign cr dk rq)"
  using verify_own_signature [OF assms] public_base64_roundtrip [OF assms(1)]
    device_signature_verifies [OF assms(1)] by blast

theorem own_signatures_verify_witness:
  "identity_verify sample_crypto (identity_public_key sample_crypto (sample_key 1)) PurposeVouch
     (Inr (vouch_payload (sample_vouch ''b'' 2)))
     (sign_canonical sample_crypto (sample_key 1) PurposeVouch []) = Inr ()"
  using own_signatures_verify [OF sample_signs sample_sign [OF payloads_float_free(2)]] by blast

text \<open>
  A value without floating-point numbers passes, and a refusal names the path of a
  floating-point number that is really there.
\<close>

theorem canonical_refusal_is_located:
  assumes "json_wf v"
  shows "(reject_floats v [] = Inr ()) = float_free v
    \<and> (case reject_floats v [] of
         Inl e \<Rightarrow> \<exists>p. names_float v p \<and> e = float_error (spell [] p)
       | Inr _ \<Rightarrow> True)"
  using reject_floats_ok(1) [of v "[]"] reject_floats_names(1) [OF assms, of "[]"]
  by (auto split: sum.split)

theorem canonical_refusal_is_located_witness:
  "\<exists>p. names_float (JObject [(''a'', JArray [JNull, JNumber (Float 0)])]) p
     \<and> FloatingPoint ''a[1]'' = float_error (spell [] p)"
proof -
  have "reject_floats (JObject [(''a'', JArray [JNull, JNumber (Float 0)])]) [] = Inl (FloatingPoint ''a[1]'')"
    by code_simp
  then show ?thesis
    using canonical_refusal_is_located [of "JObject [(''a'', JArray [JNull, JNumber (Float 0)])]"] by auto
qed

text \<open>
  Two requests with the same signing string agree in every field and in the hash of the body,
  when no field contains a line break.
\<close>

theorem request_signature_binds:
  assumes "list_all one_line [rq_method r, rq_path r, rq_timestamp r, rq_nonce r]"
    and "list_all one_line [rq_method q, rq_path q, rq_timestamp q, rq_nonce q]"
    and "signing_string cr r = signing_string cr q"
  shows "rq_method r = rq_method q \<and> rq_path r = rq_path q \<and> rq_timestamp r = rq_timestamp q
    \<and> rq_nonce r = rq_nonce q \<and> cr_sha256 cr (rq_body r) = cr_sha256 cr (rq_body q)"
  using assms by (rule signing_string_inject)

theorem request_signature_binds_witness:
  "signing_string sample_crypto \<lparr>rq_method = ''GET'', rq_path = ''/a'', rq_timestamp = ''1'', rq_nonce = ''2'', rq_body = []\<rparr>
   \<noteq> signing_string sample_crypto \<lparr>rq_method = ''GET'', rq_path = ''/b'', rq_timestamp = ''1'', rq_nonce = ''2'', rq_body = []\<rparr>"
  using request_signature_binds
    [of "\<lparr>rq_method = ''GET'', rq_path = ''/a'', rq_timestamp = ''1'', rq_nonce = ''2'', rq_body = []\<rparr>"
        "\<lparr>rq_method = ''GET'', rq_path = ''/b'', rq_timestamp = ''1'', rq_nonce = ''2'', rq_body = []\<rparr>" sample_crypto]
  by (auto simp: one_line_def)

text \<open>
  A formatted time reads back as its whole second, for every time from 1970 to the end of the
  year 9999.
\<close>

theorem timestamps_roundtrip:
  assumes "0 \<le> t" and "secs_since_epoch t < 253402300800"
  shows "parse_rfc3339 (format_rfc3339 t) = Some (from_secs (secs_since_epoch t))"
  using assms by (rule parse_format)

theorem timestamps_roundtrip_witness:
  "parse_rfc3339 (format_rfc3339 (from_secs 1767225600)) = Some (from_secs 1767225600)"
  using timestamps_roundtrip [of "from_secs 1767225600"] by simp

text \<open>
  The two readers of timestamps agree in one direction: whatever the envelope's check accepts,
  the parser turns into a time.
\<close>

theorem accepted_timestamps_are_readable:
  assumes "is_rfc3339 b"
  shows "\<exists>t. parse_rfc3339 b = Some t"
  using assms by (rule rfc3339_readable)

theorem accepted_timestamps_are_readable_witness:
  "\<exists>t. parse_rfc3339 ''2026-07-29T11:30:00.25+02:00'' = Some t"
  by (rule accepted_timestamps_are_readable) code_simp

text \<open>
  The consent gate of every message type: unknown types are refused, emergency and membership
  messages always pass, the others need exactly the grant their gate names.
\<close>

theorem consent_gates_every_message:
  "may_send_message s m p = SdAllow \<longleftrightarrow>
     mt_is_known m \<and> (case gate_of m of None \<Rightarrow> True
       | Some (f, d) \<Rightarrow> if d = Inbound then peer_allows s f p else has_granted s f p)"
  by (rule may_send_message_gate)


text \<open>
  Retirement is final: whatever calls the in-memory transport sees after a successful retire,
  sending on the channel answers that it is retired.
\<close>

theorem retired_channels_stay_retired:
  assumes "memory_retire t c = (t1, Inr ())" and "(retiring_port.used (memory_port now))\<^sup>*\<^sup>* t1 t2"
    and "memory_send now t2 c m = (t3, r)"
  shows "r = Inl (TeRetired c)"
  using mem.send_after_retire [where now = now] assms by simp

theorem retired_channels_stay_retired_witness:
  "snd (memory_send 0 (fst (memory_retire (fst (memory_open memory_new ''q'')) ''q'')) ''q'' (outbound_new [1]))
     = Inl (TeRetired ''q'')"
  by (rule retired_channels_stay_retired [where t = "fst (memory_open memory_new ''q'')",
        OF _ rtranclp.rtrancl_refl surjective_pairing])
    (simp add: memory_retire_def memory_open_def memory_new_def)

text \<open>
  Pulling a subscription until it has nothing more delivers the undelivered messages of the
  channel, all of them and in order.
\<close>

theorem subscription_delivers_in_order:
  assumes "my_channels s (su_channel sub) = Some ch" and "\<not> ch_retired ch"
    and "length (undelivered s sub) \<le> n"
  shows "pull_all s sub n = undelivered s sub"
  using assms by (rule pull_all_delivers)

theorem subscription_delivers_in_order_witness:
  "pull_all sample_queue \<lparr>su_channel = ''q'', su_cursor = 0\<rparr> 5 = [[1], [2], [3]]"
  using subscription_delivers_in_order [of sample_queue "\<lparr>su_channel = ''q'', su_cursor = 0\<rparr>"]
  by (simp add: sample_queue_def undelivered_def ciphertexts_of_def)

text \<open>
  The cursor of a subscription is a position, and acknowledging removes the message before it:
  after pulling and acknowledging the first of several messages, the second is not delivered.
\<close>

theorem acknowledging_skips_a_message:
  assumes "my_channels s c = Some ch" and "\<not> ch_retired ch" and "ch_pending ch = x # y # rest"
    and "st_id x \<noteq> st_id y" and "st_id x \<notin> st_id ` set rest"
    and "next_delivery s \<lparr>su_channel = c, su_cursor = 0\<rparr> = (sub, Inr (Some d))"
    and "memory_ack s c (dl_id d) = (s', r)"
  shows "undelivered s' sub = map st_ciphertext rest"
  using assms by (rule ack_shifts)

theorem acknowledging_skips_a_message_witness:
  "undelivered (fst (memory_ack sample_queue ''q'' ''m1'')) \<lparr>su_channel = ''q'', su_cursor = 1\<rparr> = [[3]]"
proof -
  let ?d = "\<lparr>dl_id = ''m1'', dl_ciphertext = [1], dl_received_at = 0\<rparr>"
  have "undelivered (fst (memory_ack sample_queue ''q'' (dl_id ?d))) \<lparr>su_channel = ''q'', su_cursor = 1\<rparr>
      = map st_ciphertext [\<lparr>st_id = ''m3'', st_ciphertext = [3], st_received_at = 0\<rparr>]"
    by (rule acknowledging_skips_a_message [OF _ _ _ _ _ _ surjective_pairing])
      (auto simp: sample_queue_def next_delivery_def with_channel_def)
  then show ?thesis by simp
qed

text \<open>
  Session state survives the disk: importing what was exported, under the same device id,
  identity and key, gives the same manager, when every peer is filed under its own id and its
  identity key encodes. Every encrypted message survives framing.
\<close>

theorem sessions_roundtrip:
  assumes "olm_encodings om" and "session_inv s" and "identities_parse cr s"
  shows "store_import cr om (store_export cr om s key) (sm_device_id s) (sm_identity s) key = Inr s
    \<and> decode_frame om (encode_frame om m) = Inr m"
  using store_import_export [OF assms] decode_encode_frame [OF assms(1)] by blast

theorem sessions_roundtrip_witness:
  "store_import sample_crypto sample_olm (store_export sample_crypto sample_olm sample_peered []) ''a''
     (sample_key 1) [] = Inr sample_peered"
  using sessions_roundtrip [OF sample_olm_encodings sample_peered_inv] by simp

text \<open>
  A durable entry never expires: after a drain it is still queued, or was sent, or was dropped
  because its channel is retired or unknown to the transport, and the report says which.
\<close>

theorem durable_entries_survive:
  assumes "outbox_inv ob" and "drain om port ob t s now budget = (ob', t', s', r)"
    and "e \<in> set (ox_entries ob)" and "is_durable e"
  shows "oe_id e \<in> queued_ids ob' \<or> oe_id e \<in> sent_ids r
    \<or> (\<exists>d \<in> set (rp_dropped r). dp_id d = oe_id e
        \<and> (dp_reason d = DropChannelRetired \<or> dp_reason d = DropChannelUnknown))"
  using drain_keeps_durable [OF assms] .

theorem durable_entries_survive_witness:
  "\<exists>ob' t' s' r. drain sample_olm (memory_port 0) sample_outbox memory_new sample_peered sample_now 5
     = (ob', t', s', r) \<and> (1 \<in> queued_ids ob' \<or> 1 \<in> sent_ids r \<or> 1 \<in> dropped_ids r)"
proof -
  obtain ob' t' s' r where d: "drain sample_olm (memory_port 0) sample_outbox memory_new sample_peered
      sample_now 5 = (ob', t', s', r)"
    by (rule drain_cases)
  obtain e where "e \<in> set (ox_entries sample_outbox)" "is_durable e" "oe_id e = 1"
    using sample_outbox_durable by blast
  with durable_entries_survive [OF sample_outbox_inv d, of e] d show ?thesis
    by (auto simp: dropped_ids_def intro: rev_image_eqI)
qed

text \<open>
  A drain delivers: with open channels, known peers and an Olm that does not fail, exactly the due
  entries are sent, in order, nothing is deferred, and only expired entries are dropped.
\<close>

theorem drain_delivers_over_memory:
  assumes "olm_total om"
    and "\<And>e. e \<in> set (due_entries ob now budget) \<Longrightarrow>
      (\<exists>ms. memory_view t (oe_channel e) = Live ms) \<and> knows s (oe_peer e)"
    and "drain om (memory_port clock) ob t s now budget = (ob', t', s', r)"
  shows "map (\<lambda>x. (snt_id x, snt_channel x, snt_peer x)) (rp_sent r) = map sent_of (due_entries ob now budget)
    \<and> rp_deferred r = [] \<and> rp_dropped r = map (drop_entry DropExpired) (stale_entries ob now)
    \<and> ox_entries ob' = filter (\<lambda>e. oe_id e \<notin> oe_id ` set (due_entries ob now budget)) (live_entries ob now)"
  using mem.drain_delivers [OF assms(1) _ assms(3)] assms(2) unfolding mem.open_channel_def by blast

theorem drain_delivers_over_memory_witness:
  "\<exists>ob' t' s' r. drain sample_olm (memory_port 0) sample_outbox sample_queue sample_peered sample_now 5
     = (ob', t', s', r) \<and> rp_deferred r = [] \<and> length (rp_sent r) = length (due_entries sample_outbox sample_now 5)"
proof -
  obtain ob' t' s' r where d: "drain sample_olm (memory_port 0) sample_outbox sample_queue sample_peered
      sample_now 5 = (ob', t', s', r)"
    by (rule drain_cases)
  have "\<And>e. e \<in> set (due_entries sample_outbox sample_now 5) \<Longrightarrow>
      (\<exists>ms. memory_view sample_queue (oe_channel e) = Live ms) \<and> knows sample_peered (oe_peer e)"
    using sample_outbox_ready due_entries_live by blast
  note all = drain_delivers_over_memory [OF sample_olm_total this d]
  have "length (rp_sent r) = length (due_entries sample_outbox sample_now 5)"
    using arg_cong [OF conjunct1 [OF all], of length] by simp
  with d all show ?thesis by blast
qed

text \<open>
  Over the in-memory transport, whose channels do not die while a drain only sends, no entry is
  reported both sent and dropped. A transport that answers a later send on the same channel with
  retired does produce such an entry: dropping the backlog does not look at what was sent.
\<close>

theorem drain_reports_each_once:
  assumes "outbox_inv ob" and "drain om (memory_port clock) ob t s now budget = (ob', t', s', r)"
  shows "sent_ids r \<inter> dropped_ids r = {}"
  using mem.never_sent_and_dropped [OF assms] .

theorem drain_reports_each_once_witness:
  "\<exists>ob' t' s' r. drain sample_olm (memory_port 0) sample_outbox memory_new sample_peered sample_now 5
     = (ob', t', s', r) \<and> sent_ids r \<inter> dropped_ids r = {}"
proof -
  obtain ob' t' s' r where d: "drain sample_olm (memory_port 0) sample_outbox memory_new sample_peered
      sample_now 5 = (ob', t', s', r)"
    by (rule drain_cases)
  with drain_reports_each_once [OF sample_outbox_inv d] show ?thesis by blast
qed

text \<open>
  Enqueueing keeps the queue within its bounds, refuses only a channel full of durable entries and
  then changes nothing, and removes a durable entry only by superseding it under the same key.
\<close>

theorem enqueue_keeps_bounds:
  assumes "outbox_inv ob" and "ox_next_id ob \<noteq> - 1"
  shows "outbox_inv (fst (enqueue ob m now))
    \<and> (case snd (enqueue ob m now) of
         Inl e \<Rightarrow> fst (enqueue ob m now) = ob \<and> e = EnqueueFull (eq_channel m) \<and> channel_full ob (eq_channel m)
       | Inr (i, d) \<Rightarrow> i = ox_next_id ob
           \<and> new_entry i m (epoch_seconds now) \<in> set (ox_entries (fst (enqueue ob m now))))
    \<and> {e \<in> set (ox_entries ob). is_durable e} \<subseteq> set (ox_entries (fst (enqueue ob m now)))
        \<union> {e. oe_channel e = eq_channel m \<and> oe_coalesce_key e = eq_coalesce_key m \<and> eq_coalesce_key m \<noteq> None}"
proof (intro conjI)
  show "outbox_inv (fst (enqueue ob m now))" by (rule enqueue_inv [OF assms])
  show "case snd (enqueue ob m now) of
         Inl e \<Rightarrow> fst (enqueue ob m now) = ob \<and> e = EnqueueFull (eq_channel m) \<and> channel_full ob (eq_channel m)
       | Inr (i, d) \<Rightarrow> i = ox_next_id ob
           \<and> new_entry i m (epoch_seconds now) \<in> set (ox_entries (fst (enqueue ob m now)))"
    using enqueue_result [of ob m now] by (auto split: prod.splits sum.splits)
qed (use enqueue_keeps_durable [of _ ob m now] in blast)

theorem enqueue_keeps_bounds_witness:
  "outbox_inv (fst (enqueue sample_outbox (sample_request None) sample_now))"
  using enqueue_keeps_bounds [OF sample_outbox_inv, of "sample_request None" sample_now]
  by (simp add: sample_outbox_next_id)

text \<open>
  Back-off stays between thirty seconds and fifteen minutes. The first retry already waits a
  minute: the attempt is counted before the delay is computed.
\<close>

theorem retry_delay:
  "oe_not_before_secs (back_off s e) = s + min (30 * 2 ^ unat (min (oe_attempts e + 1) 16)) 900
   \<and> oe_not_before_secs (back_off s e) \<in> {s + 30..s + 900}
   \<and> oe_not_before_secs (back_off s (new_entry i m s0)) = s + 60"
  by (simp add: back_off_def Let_def backoff_seconds new_entry_def)


text \<open>
  What \<^verbatim>\<open>Retired\<close> means to a sender: the channel was retired here, or the server has no such queue. A
  peer that rotated its queue is the second case, and the record here stays live.
\<close>

theorem missing_queue_reads_as_retired:
  "snd (sund_send (t, w) c m) = Inl (TeRetired c') \<longleftrightarrow> c' = c \<and>
     (\<exists>rec. bt_get (sx_channels t) c = Some rec \<and> (qr_retired rec \<or>
        (\<exists>oq. qr_outbound rec = Some oq \<and>
           snd (send_to_queue (dc_client (sx_device t)) w (oq_sender_id oq) (device_from_seed (oq_sender_seed oq))
             \<lparr>qm_payload = ob_ciphertext m, qm_ttl = ob_ttl m, qm_priority = (ob_priority m = PrHigh),
              qm_bind_sender_key = \<not> oq_bound oq\<rparr>) = Inl SeNotFound)))"
  by (rule sund_send_retired_iff)


text \<open>
  Enrolling is two requests: the registration, which names no device, and the bundle, published under
  the id the server gave and signed with the device's key. A client exists only after both.
\<close>

theorem enrolling_is_two_requests:
  assumes "enroll_with om sj sc (w, []) address invitation pf sd now = ((w', requests), Inr a)"
    and "sc_wiring sc = recording wi" and "signs_correctly (sc_crypto sc)"
  shows "\<exists>r1 r2. requests = [r1, r2]
    \<and> hr_path r1 = ''/v1/devices/register'' \<and> header ''Sund-Device-Id'' r1 = None
    \<and> hr_path r2 = ''/v1/me/bundle''
    \<and> header ''Sund-Device-Id'' r2 = Some (dc_device_id (cl_device (ap_outcome a)))
    \<and> carries_signature (sc_crypto sc) (device_public_key (sc_crypto sc) (seeds_device_key sd)) r2"
  using rec.enroll_asks [OF assms] by (auto simp: attributed_def)

theorem enrolling_is_two_requests_witness:
  "\<exists>w requests a. enroll_with sample_olm sample_writer (sample_client (recording (sample_wiring (Inr 200))))
       ((), []) sample_address [] sample_profile sample_seeds sample_now = ((w, requests), Inr a)
     \<and> length requests = 2"
proof -
  obtain w requests a where e: "enroll_with sample_olm sample_writer
      (sample_client (recording (sample_wiring (Inr 200)))) ((), []) sample_address [] sample_profile sample_seeds
      sample_now = ((w, requests), Inr a)"
    using sample_enrolls_recorded by blast
  have "length requests = 2"
    using enrolling_is_two_requests [OF e, of "sample_wiring (Inr 200)"] sample_signs by auto
  with e show ?thesis by blast
qed

text \<open>
  The family list: sorted by id, no device twice, a row for each device that is active or removed and
  has a record, and for no other, each marked active and as this device exactly when it is.
\<close>

theorem family_list:
  assumes "roster_inv (cl_roster c)"
  shows "sorted (map mr_device_id (client_roster c)) \<and> distinct (map mr_device_id (client_roster c))
    \<and> (\<forall>i. i \<in> mr_device_id ` set (client_roster c) \<longleftrightarrow> is_active (cl_roster c) i \<or>
         bt_contains (ro_tombstones (cl_roster c)) i \<and> bt_contains (ro_devices (cl_roster c)) i)
    \<and> (\<forall>row \<in> set (client_roster c). mr_active row = is_active (cl_roster c) (mr_device_id row)
         \<and> mr_is_self row = (mr_device_id row = dc_device_id (cl_device c)))"
  using client_roster_rows [OF assms] by (simp add: shown_def)

theorem family_list_witness:
  "\<exists>c. cl_roster c = sample_removed \<and> ''b'' \<in> mr_device_id ` set (client_roster (c :: (bool, string, unit) client))"
proof -
  let ?c = "sample_inner (sample_wiring (Inr 200))\<lparr>cl_roster := sample_removed\<rparr>"
  have "roster_inv (cl_roster ?c)" using family_state_inv [OF sample_removed_state] by simp
  from family_list [OF this] have "''b'' \<in> mr_device_id ` set (client_roster ?c)"
    using sample_removed_shown by simp
  then show ?thesis by (intro exI [where x = ?c]) simp
qed

text \<open>
  Waiting for a server ends: the loop returns with at most one request for each 200 milliseconds of the
  timeout and one more, with the version of a probe that succeeded, or an error once the time is up.
\<close>

theorem waiting_ends:
  assumes "sc_wiring (tr_client rl) = recording wi" and "keeps_time ho (tr_client rl)"
    and "\<And>n w. snd (ho_sleep ho n w) = snd w"
  shows "\<exists>w' requests r. wait_until_ready rl ho timeout (w, []) = Some ((w', requests), r)
    \<and> length requests \<le> 1 + (timeout + 199) div 200
    \<and> (case r of Inl _ \<Rightarrow> ho_now ho (w, []) + timeout \<le> ho_now ho (w', requests)
         | Inr version \<Rightarrow> \<exists>u h. snd (health (tr_client rl) u) = Inr h \<and> version = sh_version h)"
  using rec.wait_loop_ends [OF assms, of "ho_now ho (w, []) + timeout" "(w, [])"]
  by (auto simp: wait_until_ready_def)

theorem waiting_ends_witness:
  "\<exists>p r. wait_until_ready sample_leg sample_host 1000 (0, []) = Some (p, r) \<and> length (snd p) \<le> 6"
proof -
  have "ho_now sample_host w \<le> ho_now sample_host (fst (health (tr_client sample_leg) w))" for w
    by (simp add: sample_leg_def sample_host_def sample_ticking_def health_def perform_def case_prod_beta Let_def)
  then have "keeps_time sample_host (tr_client sample_leg)"
    by (simp add: keeps_time_def) (simp add: sample_host_def)
  from waiting_ends [OF _ this, of "sample_ticking" 1000 0] show ?thesis
    by (fastforce simp: sample_leg_def sample_host_def)
qed

text \<open>
  Messages arrive: when two devices know each other and the ratchet keeps its two ends in step, then
  after a drain the receiver's subscription delivers frames which its sessions open, from the first
  contact on, to exactly the due plaintexts for it, in their order and under the sender's name, and the
  two ends are in step for the next drain.
\<close>

theorem messages_arrive:
  assumes "olm_encodings om" and "olm_total om" and "in_step om R s b v a" and "memory_view t c = Live []"
    and "\<And>e. e \<in> set (due_entries ob now budget) \<Longrightarrow>
      (\<exists>ms. memory_view t (oe_channel e) = Live ms) \<and> knows s (oe_peer e) \<and> (oe_channel e = c \<longleftrightarrow> oe_peer e = b)"
    and "drain om (memory_port clock) ob t s now budget = (ob', t', s', r)"
  shows "\<exists>v' ds. open_all om v a (pull_all t' \<lparr>su_channel = c, su_cursor = 0\<rparr> budget) = (v', Inr ds)
    \<and> map dc_plaintext ds = map oe_plaintext (filter (\<lambda>e. oe_channel e = c) (due_entries ob now budget))
    \<and> (\<forall>d \<in> set ds. dc_authenticated_sender d = a) \<and> in_step om R s' b v' a"
proof (rule memory_delivers)
  show "carried om R b a v [] (filter (\<lambda>e. oe_channel e = c) (due_entries ob now budget)) (memory_view t' c) s'"
    using assms(5) by (intro mem.drain_carries [OF assms(1,2) _ assms(3,4,6)]) (auto simp: mem.open_channel_def)
  show "length (filter (\<lambda>e. oe_channel e = c) (due_entries ob now budget)) \<le> budget"
    by (rule order_trans [OF length_filter_le]) (simp add: due_entries_def due_indices_props(2))
qed

theorem messages_arrive_witness:
  "\<exists>ob' t' s' r v' ds. drain sample_contact (memory_port 0) sample_outbox sample_channel sample_peered sample_now 5
       = (ob', t', s', r)
     \<and> open_all sample_contact sample_receiver ''a'' (pull_all t' \<lparr>su_channel = ''q'', su_cursor = 0\<rparr> 5) = (v', Inr ds)
     \<and> map dc_plaintext ds = [[7], [7]]"
proof -
  obtain ob' t' s' r where d: "drain sample_contact (memory_port 0) sample_outbox sample_channel sample_peered
      sample_now 5 = (ob', t', s', r)"
    by (rule drain_cases)
  from messages_arrive [OF sample_contact_laws sample_in_step sample_channel_open sample_due_ready d]
  obtain v' ds where "open_all sample_contact sample_receiver ''a'' (pull_all t' \<lparr>su_channel = ''q'', su_cursor = 0\<rparr> 5)
      = (v', Inr ds)"
    and m: "map dc_plaintext ds =
      map oe_plaintext (filter (\<lambda>e. oe_channel e = ''q'') (due_entries sample_outbox sample_now 5))"
    by blast
  moreover have "map dc_plaintext ds = [[7], [7]]"
    unfolding m sample_outbox_due by (simp add: sample_outbox_eq new_entry_def sample_request_def)
  ultimately show ?thesis using d by (intro exI conjI)
qed

end
